(* ===== verification/Prelude.thy ===== *)
theory Prelude
  imports Main "HOL-Library.Word"
begin

text \<open>
  Shared vocabulary of the development. It holds
  \<^item> the types every component uses: UUIDs, machine integers, results;
  \<^item> the effect type of the services: an operation takes a state and returns an
    outcome (an error or a value) together with the state it leaves behind, also when
    it fails, because a Rust function that returns early with the question mark operator
    keeps the writes it has already made;
  \<^item> Rust's iterator idioms (collecting results, the last maximum of an iterator);
  \<^item> JSON values and the operations on JSON objects that the services use;
  \<^item> the lemma collections the component theories rely on.
\<close>

section \<open>Types\<close>

text \<open>
  A UUID is 128 bits that the services compare and pass on but never inspect. Parsing and
  printing it belong to the uuid crate and are parameters wherever the code needs them.
\<close>

type_synonym uuid = "128 word"
type_synonym i64 = "64 word"
type_synonym u64 = "64 word"
type_synonym i32 = "32 word"

type_synonym ('e, 'a) result = "'e + 'a"

named_theorems op_defs \<open>definitions of the operation combinators\<close>
named_theorems pres \<open>rules that an operation keeps a predicate on states\<close>

section \<open>Operations: state, error, value\<close>

type_synonym ('s, 'e, 'a) op = "'s \<Rightarrow> ('e, 'a) result \<times> 's"

definition returnE :: "'a \<Rightarrow> ('s, 'e, 'a) op" where
  [op_defs]: "returnE x = (\<lambda>s. (Inr x, s))"

definition throwE :: "'e \<Rightarrow> ('s, 'e, 'a) op" where
  [op_defs]: "throwE e = (\<lambda>s. (Inl e, s))"

definition bindE :: "('s, 'e, 'a) op \<Rightarrow> ('a \<Rightarrow> ('s, 'e, 'b) op) \<Rightarrow> ('s, 'e, 'b) op" where
  [op_defs]: "bindE m f = (\<lambda>s. case m s of (Inl e, t) \<Rightarrow> (Inl e, t) | (Inr x, t) \<Rightarrow> f x t)"

definition thenE :: "('s, 'e, 'a) op \<Rightarrow> ('s, 'e, 'b) op \<Rightarrow> ('s, 'e, 'b) op" where
  [op_defs]: "thenE m n = bindE m (\<lambda>_. n)"

text \<open>A pure fallible computation used inside an operation.\<close>

definition liftR :: "('e, 'a) result \<Rightarrow> ('s, 'e, 'a) op" where
  [op_defs]: "liftR r = (\<lambda>s. (r, s))"

text \<open>\<open>Result::map_err\<close>.\<close>

definition map_errE :: "('e \<Rightarrow> 'f) \<Rightarrow> ('s, 'e, 'a) op \<Rightarrow> ('s, 'f, 'a) op" where
  [op_defs]: "map_errE g m = (\<lambda>s. case m s of (Inl e, t) \<Rightarrow> (Inl (g e), t) | (Inr x, t) \<Rightarrow> (Inr x, t))"

text \<open>A loop over a list whose body may return early with an error.\<close>

primrec forE :: "'a list \<Rightarrow> ('a \<Rightarrow> ('s, 'e, unit) op) \<Rightarrow> ('s, 'e, unit) op" where
  "forE [] f = returnE ()"
| "forE (x # xs) f = thenE (f x) (forE xs f)"

definition ok_or :: "'e \<Rightarrow> 'a option \<Rightarrow> ('e, 'a) result" where
  "ok_or e x = (case x of None \<Rightarrow> Inl e | Some y \<Rightarrow> Inr y)"

definition map_err :: "('e \<Rightarrow> 'f) \<Rightarrow> ('e, 'a) result \<Rightarrow> ('f, 'a) result" where
  "map_err g r = (case r of Inl e \<Rightarrow> Inl (g e) | Inr x \<Rightarrow> Inr x)"

definition bindR :: "('e, 'a) result \<Rightarrow> ('a \<Rightarrow> ('e, 'b) result) \<Rightarrow> ('e, 'b) result" where
  "bindR r f = (case r of Inl e \<Rightarrow> Inl e | Inr x \<Rightarrow> f x)"

definition ok :: "('e, 'a) result \<Rightarrow> 'a option" where
  "ok r = (case r of Inl _ \<Rightarrow> None | Inr x \<Rightarrow> Some x)"

text \<open>\<open>Iterator::collect\<close> into a \<open>Result\<close> of a vector: the first error wins.\<close>

fun collectR :: "('e, 'a) result list \<Rightarrow> ('e, 'a list) result" where
  "collectR [] = Inr []"
| "collectR (Inl e # rs) = Inl e"
| "collectR (Inr x # rs) = (case collectR rs of Inl e \<Rightarrow> Inl e | Inr xs \<Rightarrow> Inr (x # xs))"

text \<open>\<open>Iterator::next\<close> on a fresh iterator.\<close>

definition nextI :: "'a list \<Rightarrow> 'a option" where
  "nextI xs = (case xs of [] \<Rightarrow> None | x # _ \<Rightarrow> Some x)"

text \<open>
  \<open>Iterator::max_by_key\<close>: of several maximal elements the last one is returned.
\<close>

fun max_by_key :: "('k \<Rightarrow> 'k \<Rightarrow> bool) \<Rightarrow> ('a \<Rightarrow> 'k) \<Rightarrow> 'a list \<Rightarrow> 'a option" where
  "max_by_key le f [] = None"
| "max_by_key le f (x # xs) =
     Some (fold (\<lambda>y m. if le (f m) (f y) then y else m) xs x)"

subsection \<open>Lemmas on operations\<close>

lemma returnE_apply [simp]: "returnE x s = (Inr x, s)"
  by (simp add: returnE_def)

lemma throwE_apply [simp]: "throwE e s = (Inl e, s)"
  by (simp add: throwE_def)

lemma liftR_apply [simp]: "liftR r s = (r, s)"
  by (simp add: liftR_def)

lemma bindE_Inr [simp]: "m s = (Inr x, t) \<Longrightarrow> bindE m f s = f x t"
  by (simp add: bindE_def)

lemma bindE_Inl [simp]: "m s = (Inl e, t) \<Longrightarrow> bindE m f s = (Inl e, t)"
  by (simp add: bindE_def)

lemma thenE_Inr [simp]: "m s = (Inr x, t) \<Longrightarrow> thenE m n s = n t"
  by (simp add: thenE_def)

lemma thenE_Inl [simp]: "m s = (Inl e, t) \<Longrightarrow> thenE m n s = (Inl e, t)"
  by (simp add: thenE_def)

lemma bindE_Inr_iff:
  "bindE m f s = (Inr y, t) \<longleftrightarrow> (\<exists>x u. m s = (Inr x, u) \<and> f x u = (Inr y, t))"
  by (auto simp: bindE_def split: prod.splits sum.splits)

lemma thenE_Inr_iff:
  "thenE m n s = (Inr y, t) \<longleftrightarrow> (\<exists>x u. m s = (Inr x, u) \<and> n u = (Inr y, t))"
  by (simp add: thenE_def bindE_Inr_iff)

lemma bindE_Inl_iff:
  "bindE m f s = (Inl e, t) \<longleftrightarrow>
     m s = (Inl e, t) \<or> (\<exists>x u. m s = (Inr x, u) \<and> f x u = (Inl e, t))"
  by (auto simp: bindE_def split: prod.splits sum.splits)

lemma thenE_Inl_iff:
  "thenE m n s = (Inl e, t) \<longleftrightarrow>
     m s = (Inl e, t) \<or> (\<exists>x u. m s = (Inr x, u) \<and> n u = (Inl e, t))"
  by (simp add: thenE_def bindE_Inl_iff)

lemma map_errE_Inr_iff [simp]: "map_errE g m s = (Inr x, t) \<longleftrightarrow> m s = (Inr x, t)"
  by (auto simp: map_errE_def split: prod.splits sum.splits)

lemma map_errE_Inl_iff [simp]:
  "map_errE g m s = (Inl e, t) \<longleftrightarrow> (\<exists>e'. m s = (Inl e', t) \<and> e = g e')"
  by (auto simp: map_errE_def split: prod.splits sum.splits)

lemma snd_map_errE [simp]: "snd (map_errE g m s) = snd (m s)"
  by (simp add: map_errE_def split: prod.splits sum.splits)

lemma ok_or_Inr [simp]: "ok_or e x = Inr y \<longleftrightarrow> x = Some y"
  by (auto simp: ok_or_def split: option.splits)

lemma ok_or_Inl [simp]: "ok_or e x = Inl e' \<longleftrightarrow> x = None \<and> e' = e"
  by (auto simp: ok_or_def split: option.splits)

lemma map_err_Inr [simp]: "map_err g r = Inr y \<longleftrightarrow> r = Inr y"
  by (auto simp: map_err_def split: sum.splits)

lemma bindR_simps [simp]: "bindR (Inl e) f = Inl e" "bindR (Inr x) f = f x"
  by (simp_all add: bindR_def)

lemma bindR_Inr_iff: "bindR r f = Inr y \<longleftrightarrow> (\<exists>x. r = Inr x \<and> f x = Inr y)"
  by (cases r) auto

lemma ok_simps [simp]: "ok (Inl e) = None" "ok (Inr x) = Some x"
  by (simp_all add: ok_def)

lemma nextI_simps [simp]: "nextI [] = None" "nextI (x # xs) = Some x"
  by (simp_all add: nextI_def)

lemma collectR_map_Inr_id [simp]: "collectR (map Inr xs) = Inr xs"
  by (induction xs) auto

lemma collectR_Inr_D: "collectR rs = Inr ys \<Longrightarrow> rs = map Inr ys"
  by (induction rs arbitrary: ys rule: collectR.induct) (auto split: sum.splits)

lemma collectR_Inr_iff: "collectR rs = Inr ys \<longleftrightarrow> rs = map Inr ys"
  using collectR_Inr_D by auto

lemma collectR_map_Inr [simp]: "collectR (map (\<lambda>x. Inr (f x)) xs) = Inr (map f xs)"
  by (simp add: collectR_Inr_iff)

lemma collectR_Inl_mem: "collectR rs = Inl e \<Longrightarrow> Inl e \<in> set rs"
  by (induction rs rule: collectR.induct) (auto split: sum.splits)

lemma max_by_key_None_iff [simp]: "max_by_key le f xs = None \<longleftrightarrow> xs = []"
  by (cases xs) auto

lemma fold_max_mem:
  "fold (\<lambda>y m. if le (f m) (f y) then y else m) xs x \<in> insert x (set xs)"
  by (induction xs arbitrary: x) auto

lemma max_by_key_mem: "max_by_key le f xs = Some m \<Longrightarrow> m \<in> set xs"
  using fold_max_mem [of le f] by (cases xs) auto

lemma fold_max_ge:
  assumes tot: "\<And>a b. le a b \<or> le b a" and trans: "\<And>a b c. le a b \<Longrightarrow> le b c \<Longrightarrow> le a c"
  shows "\<forall>z \<in> insert x (set xs).
    le (f z) (f (fold (\<lambda>y m. if le (f m) (f y) then y else m) xs x))"
proof (induction xs arbitrary: x)
  case Nil
  then show ?case using tot by auto
next
  case (Cons y xs)
  define x' where "x' = (if le (f x) (f y) then y else x)"
  define m where "m = fold (\<lambda>y m. if le (f m) (f y) then y else m) xs x'"
  have xy: "le (f x) (f x')" "le (f y) (f x')" using tot by (auto simp: x'_def)
  have IH: "le (f x') (f m)" "\<forall>z \<in> set xs. le (f z) (f m)"
    using Cons.IH [of x'] by (auto simp: m_def)
  have "le (f x) (f m)" "le (f y) (f m)"
    using trans [OF xy(1) IH(1)] trans [OF xy(2) IH(1)] by auto
  moreover have "fold (\<lambda>y m. if le (f m) (f y) then y else m) (y # xs) x = m"
    by (simp add: m_def x'_def)
  ultimately show ?case using IH(2) by simp
qed

lemma max_by_key_ge:
  assumes "\<And>a b. le a b \<or> le b a" and "\<And>a b c. le a b \<Longrightarrow> le b c \<Longrightarrow> le a c"
    and "max_by_key le f xs = Some m" and "z \<in> set xs"
  shows "le (f z) (f m)"
  using assms(3,4) fold_max_ge [of le _ _ f, OF assms(1,2)] by (cases xs) fastforce+

subsection \<open>Predicates an operation keeps\<close>

definition preserves :: "('s \<Rightarrow> bool) \<Rightarrow> ('s, 'e, 'a) op \<Rightarrow> bool" where
  "preserves P m \<longleftrightarrow> (\<forall>s. P s \<longrightarrow> P (snd (m s)))"

lemma preservesI: "(\<And>s. P s \<Longrightarrow> P (snd (m s))) \<Longrightarrow> preserves P m"
  by (simp add: preserves_def)

lemma preservesD: "preserves P m \<Longrightarrow> P s \<Longrightarrow> m s = (r, t) \<Longrightarrow> P t"
  by (metis preserves_def snd_conv)

lemma preserves_returnE [pres]: "preserves P (returnE x)"
  and preserves_throwE [pres]: "preserves P (throwE e)"
  and preserves_liftR [pres]: "preserves P (liftR r)"
  by (simp_all add: preserves_def)

lemma preserves_bindE [pres]:
  "preserves P m \<Longrightarrow> (\<And>x. preserves P (f x)) \<Longrightarrow> preserves P (bindE m f)"
  by (auto simp: preserves_def bindE_def split: prod.splits sum.splits)

lemma preserves_thenE [pres]: "preserves P m \<Longrightarrow> preserves P n \<Longrightarrow> preserves P (thenE m n)"
  by (simp add: thenE_def preserves_bindE)

lemma preserves_map_errE [pres]: "preserves P m \<Longrightarrow> preserves P (map_errE g m)"
  by (auto simp: preserves_def map_errE_def split: prod.splits sum.splits)

lemma preserves_forE [pres]: "(\<And>x. preserves P (f x)) \<Longrightarrow> preserves P (forE xs f)"
  by (induction xs) (auto intro: pres)

section \<open>Splitting and joining text\<close>

text \<open>\<open>str::split\<close> with a character: the empty text has one empty piece.\<close>

fun split_on :: "char \<Rightarrow> string \<Rightarrow> string list" where
  "split_on c [] = [[]]"
| "split_on c (x # xs) =
     (if x = c then [] # split_on c xs
      else case split_on c xs of [] \<Rightarrow> [[x]] | y # ys \<Rightarrow> (x # y) # ys)"

text \<open>\<open>slice::join\<close>.\<close>

primrec join_with :: "string \<Rightarrow> string list \<Rightarrow> string" where
  "join_with sep [] = []"
| "join_with sep (x # xs) = (if xs = [] then x else x @ sep @ join_with sep xs)"

lemma join_with_split:
  assumes "\<forall>x \<in> set xs. c \<notin> set x" and "xs \<noteq> []"
  shows "split_on c (join_with [c] xs) = xs"
proof -
  have one: "split_on c x = [x]" if "c \<notin> set x" for x
    using that by (induction x) auto
  have app: "split_on c (x @ c # y) = x # split_on c y" if "c \<notin> set x" for x y
    using that by (induction x) auto
  from assms show ?thesis
    by (induction xs) (auto simp: one app)
qed

lemma split_on_no_sep: "x \<in> set (split_on c s) \<Longrightarrow> c \<notin> set x"
  by (induction s arbitrary: x) (auto split: if_splits list.splits)

section \<open>JSON values\<close>

text \<open>
  \<open>serde_json::Value\<close>. A number is one of the three representations of
  \<open>serde_json::Number\<close>: an unsigned or a negative 64-bit integer, or the bit pattern of a
  double. An object keeps its entries in insertion order, without repeated keys.
\<close>

datatype number = PosInt u64 | NegInt i64 | Float "64 word"

datatype json =
    JNull
  | JBool bool
  | JNumber number
  | JString string
  | JArray "json list"
  | JObject "(string \<times> json) list"

text \<open>\<open>Map::insert\<close>: replaces the value of a present key in place, else appends.\<close>

fun obj_insert :: "string \<Rightarrow> 'j \<Rightarrow> (string \<times> 'j) list \<Rightarrow> (string \<times> 'j) list" where
  "obj_insert k v [] = [(k, v)]"
| "obj_insert k v ((k', v') # kvs) =
     (if k' = k then (k, v) # kvs else (k', v') # obj_insert k v kvs)"

fun as_str :: "json \<Rightarrow> string option" where
  "as_str (JString s) = Some s"
| "as_str _ = None"

fun as_object :: "json \<Rightarrow> (string \<times> json) list option" where
  "as_object (JObject kvs) = Some kvs"
| "as_object _ = None"

fun is_array :: "json \<Rightarrow> bool" where
  "is_array (JArray _) = True"
| "is_array _ = False"

fun is_object :: "json \<Rightarrow> bool" where
  "is_object (JObject _) = True"
| "is_object _ = False"

fun is_null :: "json \<Rightarrow> bool" where
  "is_null JNull = True"
| "is_null _ = False"

text \<open>\<open>Value::get\<close> with a string index.\<close>

fun json_get :: "json \<Rightarrow> string \<Rightarrow> json option" where
  "json_get (JObject kvs) k = map_of kvs k"
| "json_get _ k = None"

lemma map_of_obj_insert [simp]: "map_of (obj_insert k v kvs) = (map_of kvs)(k \<mapsto> v)"
  by (induction k v kvs rule: obj_insert.induct) (auto simp: fun_eq_iff)

lemma keys_obj_insert: "fst ` set (obj_insert k v kvs) = insert k (fst ` set kvs)"
  by (induction k v kvs rule: obj_insert.induct) auto

lemma distinct_obj_insert [simp]:
  "distinct (map fst kvs) \<Longrightarrow> distinct (map fst (obj_insert k v kvs))"
proof (induction k v kvs rule: obj_insert.induct)
  case (2 k v k' v' kvs)
  then show ?case using keys_obj_insert [of k v kvs] by auto
qed simp

lemma as_str_Some [simp]: "as_str j = Some s \<longleftrightarrow> j = JString s"
  by (cases j) auto

lemma map_of_filter_key: "map_of (filter (\<lambda>(k', _). k' \<noteq> k) es) = (map_of es)(k := None)"
  by (induction es) (auto simp: fun_eq_iff)

end
