(* ===== verification/Datastore.thy ===== *)
theory Datastore
  imports Prelude "HOL-Library.AList"
begin

text \<open>
  The graph database the schema registry is written against. IndraDB is a third-party crate:
  its calls are the fields of the record \<open>datastore\<close>, a parameter of every registry
  operation, and the locale \<open>graph_datastore\<close> states the documented behaviour the registry
  relies on, through an abstraction to a property graph. A call that fails leaves the graph as
  it was; nothing is assumed about when a call fails.

  \<open>mem_datastore\<close> is a complete in-memory instance over association lists; it shows that the
  laws can hold and makes concrete runs of the registry evaluable.
\<close>

section \<open>Queries and results\<close>

type_synonym ds_type = string
type_synonym db_error = string
type_synonym properties = "(string \<times> json) list"

record vertex =
  v_id :: uuid
  v_t :: ds_type

record edge_key =
  outbound_id :: uuid
  e_t :: ds_type
  inbound_id :: uuid

record vertex_properties =
  vp_vertex :: vertex
  vp_props :: properties

record edge_properties =
  ep_key :: edge_key
  ep_props :: properties

datatype vertex_query =
    SpecificVertexQuery uuid
  | RangeVertexQuery "32 word" "ds_type option"   \<comment> \<open>limit, \<open>.t(type)\<close> if any\<close>
  | InboundVertexQuery edge_query "32 word"    \<comment> \<open>\<open>.inbound(limit)\<close>\<close>
and edge_query =
    SpecificEdgeQuery edge_key
  | OutboundEdgeQuery vertex_query "32 word" ds_type   \<comment> \<open>\<open>.outbound(limit).t(type)\<close>\<close>

definition u32_max :: "32 word" where
  "u32_max = - 1"

record 's datastore =
  transaction :: "('s, db_error, unit) op"
  create_vertex :: "vertex \<Rightarrow> ('s, db_error, bool) op"
  create_vertex_from_type :: "ds_type \<Rightarrow> ('s, db_error, uuid) op"
  put_vertex_property :: "vertex_query \<Rightarrow> string \<Rightarrow> json \<Rightarrow> ('s, db_error, unit) op"
  create_edge :: "edge_key \<Rightarrow> ('s, db_error, bool) op"
  put_edge_property :: "edge_query \<Rightarrow> string \<Rightarrow> json \<Rightarrow> ('s, db_error, unit) op"
  get_vertices :: "vertex_query \<Rightarrow> ('s, db_error, vertex list) op"
  get_vertex_properties :: "vertex_query \<Rightarrow> string \<Rightarrow> ('s, db_error, (uuid \<times> json) list) op"
  get_all_vertex_properties :: "vertex_query \<Rightarrow> ('s, db_error, vertex_properties list) op"
  get_edge_properties :: "edge_query \<Rightarrow> string \<Rightarrow> ('s, db_error, (edge_key \<times> json) list) op"
  get_all_edge_properties :: "edge_query \<Rightarrow> ('s, db_error, edge_properties list) op"

section \<open>The property graph\<close>

record graph =
  vertices :: "uuid \<rightharpoonup> ds_type \<times> (string \<rightharpoonup> json)"
  edges :: "edge_key \<rightharpoonup> (string \<rightharpoonup> json)"

definition empty_graph :: graph where
  "empty_graph = \<lparr>vertices = Map.empty, edges = Map.empty\<rparr>"

definition add_vertex :: "uuid \<Rightarrow> ds_type \<Rightarrow> graph \<Rightarrow> graph" where
  "add_vertex i t g = g\<lparr>vertices := (vertices g)(i \<mapsto> (t, Map.empty))\<rparr>"

definition put_property :: "uuid \<Rightarrow> string \<Rightarrow> json \<Rightarrow> graph \<Rightarrow> graph" where
  "put_property i name v g =
     (case vertices g i of
        None \<Rightarrow> g
      | Some (t, p) \<Rightarrow> g\<lparr>vertices := (vertices g)(i \<mapsto> (t, p(name \<mapsto> v)))\<rparr>)"

definition add_edge :: "edge_key \<Rightarrow> graph \<Rightarrow> graph" where
  "add_edge k g = (case edges g k of None \<Rightarrow> g\<lparr>edges := (edges g)(k \<mapsto> Map.empty)\<rparr> | Some _ \<Rightarrow> g)"

definition put_on_edge :: "edge_key \<Rightarrow> string \<Rightarrow> json \<Rightarrow> graph \<Rightarrow> graph" where
  "put_on_edge k name v g =
     (case edges g k of
        None \<Rightarrow> g
      | Some p \<Rightarrow> g\<lparr>edges := (edges g)(k \<mapsto> p(name \<mapsto> v))\<rparr>)"

fun vq_sem :: "graph \<Rightarrow> vertex_query \<Rightarrow> uuid set"
  and eq_sem :: "graph \<Rightarrow> edge_query \<Rightarrow> edge_key set" where
  "vq_sem g (SpecificVertexQuery i) = dom (vertices g) \<inter> {i}"
| "vq_sem g (RangeVertexQuery n t) = {i. \<exists>u p. vertices g i = Some (u, p) \<and> (t = None \<or> t = Some u)}"
| "vq_sem g (InboundVertexQuery q n) = dom (vertices g) \<inter> inbound_id ` eq_sem g q"
| "eq_sem g (SpecificEdgeQuery k) = dom (edges g) \<inter> {k}"
| "eq_sem g (OutboundEdgeQuery q n t) = {k \<in> dom (edges g). outbound_id k \<in> vq_sem g q \<and> e_t k = t}"

text \<open>The registry passes \<open>u32::MAX\<close> as every limit.\<close>

fun vq_unlimited :: "vertex_query \<Rightarrow> bool" and eq_unlimited :: "edge_query \<Rightarrow> bool" where
  "vq_unlimited (SpecificVertexQuery i) = True"
| "vq_unlimited (RangeVertexQuery n t) = (n = u32_max)"
| "vq_unlimited (InboundVertexQuery q n) = (n = u32_max \<and> eq_unlimited q)"
| "eq_unlimited (SpecificEdgeQuery k) = True"
| "eq_unlimited (OutboundEdgeQuery q n t) = (n = u32_max \<and> vq_unlimited q)"

text \<open>
  A graph whose vertex and edge counts fit the limit, so that no query is cut short.
\<close>

definition within_limit :: "graph \<Rightarrow> bool" where
  "within_limit g \<longleftrightarrow> finite (dom (vertices g)) \<and> finite (dom (edges g)) \<and>
     card (dom (vertices g)) \<le> 4294967295 \<and> card (dom (edges g)) \<le> 4294967295"

section \<open>The contract\<close>

locale graph_datastore =
  fixes D :: "'s datastore" and \<alpha> :: "'s \<Rightarrow> graph"
  assumes transaction_graph: "\<alpha> (snd (transaction D s)) = \<alpha> s"
    and create_vertex_err: "create_vertex D v s = (Inl e, s') \<Longrightarrow> \<alpha> s' = \<alpha> s"
    and create_vertex_ok: "create_vertex D v s = (Inr inserted, s') \<Longrightarrow>
      inserted = (v_id v \<notin> dom (vertices (\<alpha> s))) \<and>
      \<alpha> s' = (if inserted then add_vertex (v_id v) (v_t v) (\<alpha> s) else \<alpha> s)"
    and from_type_err: "create_vertex_from_type D t s = (Inl e, s') \<Longrightarrow> \<alpha> s' = \<alpha> s"
    and from_type_ok: "create_vertex_from_type D t s = (Inr i, s') \<Longrightarrow>
      i \<notin> dom (vertices (\<alpha> s)) \<and> \<alpha> s' = add_vertex i t (\<alpha> s)"
    and put_vertex_err: "put_vertex_property D q n j s = (Inl e, s') \<Longrightarrow> \<alpha> s' = \<alpha> s"
    and put_vertex_ok: "put_vertex_property D (SpecificVertexQuery i) n j s = (Inr u, s') \<Longrightarrow>
      \<alpha> s' = put_property i n j (\<alpha> s)"
    and create_edge_err: "create_edge D k s = (Inl e, s') \<Longrightarrow> \<alpha> s' = \<alpha> s"
    and create_edge_ok: "create_edge D k s = (Inr created, s') \<Longrightarrow>
      created = (outbound_id k \<in> dom (vertices (\<alpha> s)) \<and> inbound_id k \<in> dom (vertices (\<alpha> s))) \<and>
      \<alpha> s' = (if created then add_edge k (\<alpha> s) else \<alpha> s)"
    and put_edge_err: "put_edge_property D eq n j s = (Inl e, s') \<Longrightarrow> \<alpha> s' = \<alpha> s"
    and put_edge_ok: "put_edge_property D (SpecificEdgeQuery k) n j s = (Inr u, s') \<Longrightarrow>
      \<alpha> s' = put_on_edge k n j (\<alpha> s)"
    and get_vertices_graph: "\<alpha> (snd (get_vertices D q s)) = \<alpha> s"
    and get_vertices_ok: "get_vertices D q s = (Inr vs, s') \<Longrightarrow> within_limit (\<alpha> s) \<Longrightarrow>
      vq_unlimited q \<Longrightarrow> v_id ` set vs = vq_sem (\<alpha> s) q"
    and get_vertex_properties_graph: "\<alpha> (snd (get_vertex_properties D q n s)) = \<alpha> s"
    and get_vertex_properties_ok: "get_vertex_properties D q n s = (Inr ps, s') \<Longrightarrow>
      within_limit (\<alpha> s) \<Longrightarrow> vq_unlimited q \<Longrightarrow>
      set ps = {(i, j). i \<in> vq_sem (\<alpha> s) q \<and> (\<exists>t p. vertices (\<alpha> s) i = Some (t, p) \<and> p n = Some j)}"
    and get_all_vertex_properties_graph:
      "\<alpha> (snd (get_all_vertex_properties D q s)) = \<alpha> s"
    and get_all_vertex_properties_ids: "get_all_vertex_properties D q s = (Inr vps, s') \<Longrightarrow>
      within_limit (\<alpha> s) \<Longrightarrow> vq_unlimited q \<Longrightarrow>
      (\<lambda>vp. v_id (vp_vertex vp)) ` set vps = vq_sem (\<alpha> s) q"
    and get_all_vertex_properties_ok: "get_all_vertex_properties D q s = (Inr vps, s') \<Longrightarrow>
      vp \<in> set vps \<Longrightarrow>
      vertices (\<alpha> s) (v_id (vp_vertex vp)) = Some (v_t (vp_vertex vp), map_of (vp_props vp))"
    and get_edge_properties_graph: "\<alpha> (snd (get_edge_properties D eq n s)) = \<alpha> s"
    and get_edge_properties_ok: "get_edge_properties D eq n s = (Inr es, s') \<Longrightarrow>
      within_limit (\<alpha> s) \<Longrightarrow> eq_unlimited eq \<Longrightarrow>
      set es = {(k, j). k \<in> eq_sem (\<alpha> s) eq \<and> (\<exists>p. edges (\<alpha> s) k = Some p \<and> p n = Some j)}"
    and get_all_edge_properties_graph:
      "\<alpha> (snd (get_all_edge_properties D eq s)) = \<alpha> s"
    and get_all_edge_properties_keys: "get_all_edge_properties D eq s = (Inr eps, s') \<Longrightarrow>
      within_limit (\<alpha> s) \<Longrightarrow> eq_unlimited eq \<Longrightarrow>
      distinct (map ep_key eps) \<and> ep_key ` set eps = eq_sem (\<alpha> s) eq"
    and get_all_edge_properties_ok: "get_all_edge_properties D eq s = (Inr eps, s') \<Longrightarrow>
      ep \<in> set eps \<Longrightarrow> edges (\<alpha> s) (ep_key ep) = Some (map_of (ep_props ep))"
begin

lemmas reads_graph = transaction_graph get_vertices_graph get_vertex_properties_graph
  get_all_vertex_properties_graph get_edge_properties_graph get_all_edge_properties_graph

lemmas writes_err = create_vertex_err from_type_err put_vertex_err create_edge_err put_edge_err

end

subsection \<open>Graph lemmas\<close>

named_theorems graph_simps \<open>definitions of the graph updates\<close>

lemmas [graph_simps] = add_vertex_def put_property_def add_edge_def put_on_edge_def

lemma vertices_add_vertex [simp]:
  "vertices (add_vertex i t g) = (vertices g)(i \<mapsto> (t, Map.empty))"
  "edges (add_vertex i t g) = edges g"
  by (simp_all add: add_vertex_def)

lemma edges_put_property [simp]: "edges (put_property i n v g) = edges g"
  by (auto simp: put_property_def split: option.splits)

lemma vertices_put_on_edge [simp]: "vertices (put_on_edge k n v g) = vertices g"
  by (auto simp: put_on_edge_def split: option.splits)

lemma vertices_add_edge [simp]: "vertices (add_edge k g) = vertices g"
  by (auto simp: add_edge_def split: option.splits)

lemma vertices_put_property:
  "vertices (put_property i n v g) j =
     (if j = i then map_option (\<lambda>(t, p). (t, p(n \<mapsto> v))) (vertices g i) else vertices g j)"
  by (auto simp: put_property_def split: option.splits)

lemma dom_put_property [simp]: "dom (vertices (put_property i n v g)) = dom (vertices g)"
  by (auto simp: put_property_def split: option.splits)

lemma edges_put_on_edge:
  "edges (put_on_edge k n v g) k' =
     (if k' = k then map_option (\<lambda>p. p(n \<mapsto> v)) (edges g k) else edges g k')"
  by (auto simp: put_on_edge_def split: option.splits)

lemma dom_put_on_edge [simp]: "dom (edges (put_on_edge k n v g)) = dom (edges g)"
  by (auto simp: put_on_edge_def split: option.splits)

lemma edges_add_edge:
  "edges (add_edge k g) k' = (if k' = k \<and> edges g k = None then Some Map.empty else edges g k')"
  by (auto simp: add_edge_def split: option.splits)

end
