(* ===== verification/Registry_Types.thy ===== *)
theory Registry_Types
  imports Datastore
begin

text \<open>
  The data of the schema registry: \<open>types.rs\<close>, \<open>types/storage/vertices.rs\<close>,
  \<open>types/storage/edges.rs\<close> and \<open>error.rs\<close> of the crate schema-registry, and the module
  \<open>types\<close> of \<open>rpc/src/schema_registry.rs\<close>.

  The record \<open>crates\<close> collects the third-party functions the registry calls (uuid, semver,
  serde_json text, jsonschema, jmespath, and the datastore): versions are a type \<open>'v\<close> and
  version requirements a type \<open>'r\<close> that only those functions inspect. The traits \<open>Vertex\<close> and
  \<open>Edge\<close> are dictionaries, and the locales \<open>vertex_codec\<close> and \<open>edge_codec\<close> state what the
  registry needs of an implementation; they are interpreted for the three vertex types and the
  two edge types.
\<close>

section \<open>Third-party functions\<close>

record ('s, 'v, 'r) crates =
  db :: "'s datastore"
  uuid_parse_str :: "string \<Rightarrow> (string, uuid) result"
  uuid_to_string :: "uuid \<Rightarrow> string"
  version_new :: "u64 \<Rightarrow> u64 \<Rightarrow> u64 \<Rightarrow> 'v"
  version_le :: "'v \<Rightarrow> 'v \<Rightarrow> bool"
  version_to_value :: "'v \<Rightarrow> json"
  version_from_value :: "json \<Rightarrow> 'v option"
  version_parse :: "string \<Rightarrow> (string, 'v) result"
  version_to_string :: "'v \<Rightarrow> string"
  req_parse :: "string \<Rightarrow> (string, 'r) result"
  req_to_string :: "'r \<Rightarrow> string"
  req_matches :: "'r \<Rightarrow> 'v \<Rightarrow> bool"
  req_any :: 'r
  req_exact :: "'v \<Rightarrow> 'r"
  jsonschema_compile :: "json \<Rightarrow> (json \<Rightarrow> string list) option"
  jmespath_parse :: "string \<Rightarrow> (string, unit) result"
  json_from_str :: "string \<Rightarrow> (string, json) result"
  json_to_string :: "json \<Rightarrow> (string, string) result"

section \<open>Schema types\<close>

datatype schema_type = DocumentStorage | Timeseries

fun schema_type_to_string :: "schema_type \<Rightarrow> string" where
  "schema_type_to_string DocumentStorage = ''DocumentStorage''"
| "schema_type_to_string Timeseries = ''Timeseries''"

definition schema_type_from_str :: "string \<Rightarrow> (string, schema_type) result" where
  "schema_type_from_str s =
     (if s = ''DocumentStorage'' then Inr DocumentStorage
      else if s = ''Timeseries'' then Inr Timeseries
      else Inl (''Invalid schema type: '' @ s))"

text \<open>
  The derived \<open>Deserialize\<close> of a fieldless enum: the variant's name, or an object whose only
  key is the variant's name with the value null.
\<close>

fun schema_type_from_value :: "json \<Rightarrow> schema_type option" where
  "schema_type_from_value (JString s) = ok (schema_type_from_str s)"
| "schema_type_from_value (JObject [(s, JNull)]) = ok (schema_type_from_str s)"
| "schema_type_from_value _ = None"

text \<open>\<open>as i32\<close>, the protobuf enum numbers, and prost's \<open>from_i32\<close>.\<close>

fun schema_type_to_i32 :: "schema_type \<Rightarrow> i32" where
  "schema_type_to_i32 DocumentStorage = 0"
| "schema_type_to_i32 Timeseries = 1"

definition schema_type_from_i32 :: "i32 \<Rightarrow> schema_type option" where
  "schema_type_from_i32 n =
     (if n = 0 then Some DocumentStorage else if n = 1 then Some Timeseries else None)"

text \<open>The prost getter \<open>schema_type()\<close>: \<open>from_i32(..).unwrap_or_default()\<close>.\<close>

definition schema_type_getter :: "i32 \<Rightarrow> schema_type" where
  "schema_type_getter n =
     (case schema_type_from_i32 n of None \<Rightarrow> DocumentStorage | Some t \<Rightarrow> t)"

section \<open>Structures\<close>

record schema =
  s_name :: string
  s_kafka_topic :: string
  s_query_address :: string
  s_schema_type :: schema_type

record definition_vertex =
  d_definition :: json

record view =
  view_name :: string
  view_jmespath :: string

record schema_view_edge =
  sv_schema_id :: uuid
  sv_view_id :: uuid

record 'v schema_definition_edge =
  sd_schema_id :: uuid
  sd_definition_id :: uuid
  sd_version :: 'v

record view_update =
  vu_name :: "string option"
  vu_jmespath :: "string option"

record new_schema =
  ns_name :: string
  ns_definition :: json
  ns_kafka_topic :: string
  ns_query_address :: string
  ns_schema_type :: schema_type

definition new_schema_vertex :: "new_schema \<Rightarrow> schema \<times> json" where
  "new_schema_vertex ns =
     (\<lparr>s_name = ns_name ns, s_kafka_topic = ns_kafka_topic ns,
       s_query_address = ns_query_address ns, s_schema_type = ns_schema_type ns\<rparr>,
      ns_definition ns)"

record 'v new_schema_version =
  nv_version :: 'v
  nv_definition :: json

record 'v schema_definition =
  sdef_version :: 'v
  sdef_definition :: json

record 'r versioned_uuid =
  vu_id :: uuid
  vu_version_req :: 'r

definition versioned_uuid_exact ::
  "('s, 'v, 'r) crates \<Rightarrow> uuid \<Rightarrow> 'v \<Rightarrow> 'r versioned_uuid" where
  "versioned_uuid_exact E i v = \<lparr>vu_id = i, vu_version_req = req_exact E v\<rparr>"

definition versioned_uuid_any :: "('s, 'v, 'r) crates \<Rightarrow> uuid \<Rightarrow> 'r versioned_uuid" where
  "versioned_uuid_any E i = \<lparr>vu_id = i, vu_version_req = req_any E\<rparr>"

text \<open>A \<open>HashMap\<close> is a list of entries without repeated keys, in the map's iteration order.\<close>

definition hash_collect :: "('k \<times> 'a) list \<Rightarrow> ('k \<times> 'a) list" where
  "hash_collect xs = AList.clearjunk (rev xs)"

record 'v db_export =
  ex_schemas :: "(uuid \<times> schema) list"
  ex_definitions :: "(uuid \<times> definition_vertex) list"
  ex_views :: "(uuid \<times> view) list"
  ex_schema_definitions :: "'v schema_definition_edge list"
  ex_schema_views :: "schema_view_edge list"

section \<open>Errors\<close>

datatype malformed_error =
    MalformedSchema uuid
  | MalformedDefinition uuid
  | MalformedSchemaVersion uuid
  | MalformedView uuid

datatype ('v, 'r) registry_error =
    NoSchemaWithId uuid
  | NoViewWithId uuid
  | DuplicatedUuid uuid
  | DbError db_error
  | ConnectionError db_error
  | NoTopic string
  | MQError string
  | InvalidSchema
  | InvalidSchemaType
  | InvalidView string
  | NoVersionMatchesRequirement "'r versioned_uuid"
  | NewVersionMustBeGreatest uuid 'v
  | CacheError string
  | MalformedError malformed_error

datatype status_code = NotFound | Internal | InvalidArgument

record status =
  st_code :: status_code
  st_message :: string

fun malformed_error_to_string :: "('s, 'v, 'r) crates \<Rightarrow> malformed_error \<Rightarrow> string" where
  "malformed_error_to_string E (MalformedSchema i) =
     ''Schema in database was malformed with id '' @ uuid_to_string E i"
| "malformed_error_to_string E (MalformedDefinition i) =
     ''Schema definition in database was malformed with id '' @ uuid_to_string E i"
| "malformed_error_to_string E (MalformedSchemaVersion i) =
     ''Schema version in database was malformed under schema with id '' @ uuid_to_string E i"
| "malformed_error_to_string E (MalformedView i) =
     ''View in database was malformed for view with id '' @ uuid_to_string E i"

definition quoted :: "string \<Rightarrow> string" where
  "quoted s = CHR 0x22 # s @ [CHR 0x22]"

fun registry_error_to_string :: "('s, 'v, 'r) crates \<Rightarrow> ('v, 'r) registry_error \<Rightarrow> string" where
  "registry_error_to_string E (NoSchemaWithId i) =
     ''No schema found with id '' @ quoted (uuid_to_string E i)"
| "registry_error_to_string E (NoViewWithId i) =
     ''No view found with id '' @ quoted (uuid_to_string E i)"
| "registry_error_to_string E (DuplicatedUuid i) =
     ''Object with id '' @ quoted (uuid_to_string E i) @ '' already exists in database''"
| "registry_error_to_string E (DbError e) =
     ''Error occurred while accessing sled database: '' @ e"
| "registry_error_to_string E (ConnectionError e) =
     ''Unable to connect to sled database: '' @ e"
| "registry_error_to_string E (NoTopic t) = ''No topic found named '' @ quoted t"
| "registry_error_to_string E (MQError e) = e"
| "registry_error_to_string E InvalidSchema = ''Given schema was invalid''"
| "registry_error_to_string E InvalidSchemaType = ''Given schema type is invalid''"
| "registry_error_to_string E (InvalidView e) = ''Given view was invalid: '' @ e"
| "registry_error_to_string E (NoVersionMatchesRequirement u) =
     ''No version of schema with id '' @ uuid_to_string E (vu_id u) @
     '' matches the given requirement '' @ req_to_string E (vu_version_req u)"
| "registry_error_to_string E (NewVersionMustBeGreatest i v) =
     ''New schema version for schema with id '' @ uuid_to_string E i @
     '' must be greater than the current max '' @ version_to_string E v"
| "registry_error_to_string E (CacheError e) = e"
| "registry_error_to_string E (MalformedError m) = malformed_error_to_string E m"

definition status_of_error :: "('s, 'v, 'r) crates \<Rightarrow> ('v, 'r) registry_error \<Rightarrow> status" where
  "status_of_error E e =
     \<lparr>st_code = (case e of NoTopic _ \<Rightarrow> NotFound | NoSchemaWithId _ \<Rightarrow> NotFound
                 | NoViewWithId _ \<Rightarrow> NotFound | _ \<Rightarrow> Internal),
      st_message = registry_error_to_string E e\<rparr>"

section \<open>Vertices and edges in the database\<close>

text \<open>
  \<open>extract_vertex_property\<close> and \<open>extract_edge_property\<close> take every property of that name out
  of the list and decode the first one.
\<close>

definition extract_property ::
  "(json \<Rightarrow> 'a option) \<Rightarrow> properties \<Rightarrow> string \<Rightarrow> 'a option \<times> properties" where
  "extract_property from_value props name =
     (Option.bind (map_of props name) from_value, filter (\<lambda>(n, _). n \<noteq> name) props)"

record 'a vertex_trait =
  into_properties :: "'a \<Rightarrow> properties"
  from_properties :: "vertex_properties \<Rightarrow> (uuid \<times> 'a) option"
  db_type :: ds_type

definition schema_from_properties :: "vertex_properties \<Rightarrow> (uuid \<times> schema) option" where
  "schema_from_properties vp =
     (let (n, p1) = extract_property as_str (vp_props vp) ''SCHEMA_NAME'';
          (t, p2) = extract_property as_str p1 ''SCHEMA_TOPIC_NAME'';
          (q, p3) = extract_property as_str p2 ''SCHEMA_QUERY_ADDRESS'';
          (st, p4) = extract_property schema_type_from_value p3 ''SCHEMA_TYPE''
      in case (n, t, q, st) of
           (Some n, Some t, Some q, Some st) \<Rightarrow>
             Some (v_id (vp_vertex vp),
               \<lparr>s_name = n, s_kafka_topic = t, s_query_address = q, s_schema_type = st\<rparr>)
         | _ \<Rightarrow> None)"

definition schema_into_properties :: "schema \<Rightarrow> properties" where
  "schema_into_properties s =
     [(''SCHEMA_NAME'', JString (s_name s)),
      (''SCHEMA_TOPIC_NAME'', JString (s_kafka_topic s)),
      (''SCHEMA_QUERY_ADDRESS'', JString (s_query_address s)),
      (''SCHEMA_TYPE'', JString (schema_type_to_string (s_schema_type s)))]"

definition Schema :: "schema vertex_trait" where
  "Schema = \<lparr>into_properties = schema_into_properties,
     from_properties = schema_from_properties, db_type = ''SCHEMA''\<rparr>"

definition definition_from_properties ::
  "vertex_properties \<Rightarrow> (uuid \<times> definition_vertex) option" where
  "definition_from_properties vp =
     (case fst (extract_property Some (vp_props vp) ''DEFINITION'') of
        None \<Rightarrow> None
      | Some d \<Rightarrow> Some (v_id (vp_vertex vp), \<lparr>d_definition = d\<rparr>))"

definition definition_into_properties :: "definition_vertex \<Rightarrow> properties" where
  "definition_into_properties d = [(''DEFINITION'', d_definition d)]"

definition Definition :: "definition_vertex vertex_trait" where
  "Definition = \<lparr>into_properties = definition_into_properties,
     from_properties = definition_from_properties, db_type = ''DEFINITION''\<rparr>"

definition view_from_properties :: "vertex_properties \<Rightarrow> (uuid \<times> view) option" where
  "view_from_properties vp =
     (let (n, p1) = extract_property as_str (vp_props vp) ''VIEW_NAME'';
          (j, p2) = extract_property as_str p1 ''JMESPATH''
      in case (n, j) of
           (Some n, Some j) \<Rightarrow> Some (v_id (vp_vertex vp), \<lparr>view_name = n, view_jmespath = j\<rparr>)
         | _ \<Rightarrow> None)"

definition view_into_properties :: "view \<Rightarrow> properties" where
  "view_into_properties v =
     [(''VIEW_NAME'', JString (view_name v)), (''JMESPATH'', JString (view_jmespath v))]"

definition View :: "view vertex_trait" where
  "View = \<lparr>into_properties = view_into_properties,
     from_properties = view_from_properties, db_type = ''VIEW''\<rparr>"

record 'a edge_trait =
  edge_info :: "'a \<Rightarrow> edge_key \<times> properties"
  edge_from_properties :: "edge_properties \<Rightarrow> 'a option"
  edge_db_type :: ds_type

definition SchemaView :: "schema_view_edge edge_trait" where
  "SchemaView =
     \<lparr>edge_info = (\<lambda>e. (\<lparr>outbound_id = sv_schema_id e, e_t = ''SCHEMA_VIEW'',
                          inbound_id = sv_view_id e\<rparr>, [])),
      edge_from_properties = (\<lambda>ep. Some \<lparr>sv_schema_id = outbound_id (ep_key ep),
                                        sv_view_id = inbound_id (ep_key ep)\<rparr>),
      edge_db_type = ''SCHEMA_VIEW''\<rparr>"

definition SchemaDefinitionEdge :: "('s, 'v, 'r) crates \<Rightarrow> 'v schema_definition_edge edge_trait" where
  "SchemaDefinitionEdge E =
     \<lparr>edge_info = (\<lambda>e. (\<lparr>outbound_id = sd_schema_id e, e_t = ''SCHEMA_DEFINITION'',
                          inbound_id = sd_definition_id e\<rparr>,
                        [(''VERSION'', version_to_value E (sd_version e))])),
      edge_from_properties = (\<lambda>ep.
        case fst (extract_property (version_from_value E) (ep_props ep) ''VERSION'') of
          None \<Rightarrow> None
        | Some v \<Rightarrow> Some \<lparr>sd_schema_id = outbound_id (ep_key ep),
                          sd_definition_id = inbound_id (ep_key ep), sd_version = v\<rparr>),
      edge_db_type = ''SCHEMA_DEFINITION''\<rparr>"

section \<open>The codecs\<close>

text \<open>
  What the registry relies on in a vertex type: decoding depends only on the values stored under
  the type's own property names, and returns what was encoded whenever those values are there.
\<close>

locale vertex_codec =
  fixes V :: "'a vertex_trait" and decode :: "(string \<rightharpoonup> json) \<Rightarrow> 'a option" and names :: "string set"
  assumes from_properties_decode:
      "from_properties V vp = map_option (Pair (v_id (vp_vertex vp))) (decode (map_of (vp_props vp)))"
    and decode_into: "map_of (into_properties V x) \<subseteq>\<^sub>m p \<Longrightarrow> decode p = Some x"
    and decode_names: "(\<And>n. n \<in> names \<Longrightarrow> p n = p' n) \<Longrightarrow> decode p = decode p'"
    and distinct_into: "distinct (map fst (into_properties V x))"
    and names_into: "fst ` set (into_properties V x) = names"
begin

lemma roundtrip:
  "from_properties V \<lparr>vp_vertex = \<lparr>v_id = i, v_t = t\<rparr>, vp_props = into_properties V x\<rparr> = Some (i, x)"
  using decode_into [OF map_le_refl] by (simp add: from_properties_decode)

lemma decode_other: "n \<notin> names \<Longrightarrow> decode (p(n \<mapsto> j)) = decode p"
  by (rule decode_names) auto

end

locale edge_codec =
  fixes T :: "'a edge_trait"
  assumes edge_from_info: "edge_info T x = (key, props) \<Longrightarrow> map_of props \<subseteq>\<^sub>m map_of (ep_props ep) \<Longrightarrow>
      ep_key ep = key \<Longrightarrow> edge_from_properties T ep = Some x"
    and edge_from_ext: "map_of (ep_props ep) = map_of (ep_props ep') \<Longrightarrow> ep_key ep = ep_key ep' \<Longrightarrow>
      edge_from_properties T ep = edge_from_properties T ep'"
    and edge_from_key: "edge_from_properties T ep = Some x \<Longrightarrow> e_t (ep_key ep) = edge_db_type T \<Longrightarrow>
      fst (edge_info T x) = ep_key ep"
    and edge_info_type: "e_t (fst (edge_info T x)) = edge_db_type T"

lemma map_of_hash_collect: "map_of (hash_collect xs) = map_of (rev xs)"
  by (simp add: hash_collect_def map_of_clearjunk)

lemma distinct_hash_collect: "distinct (map fst (hash_collect xs))"
  by (simp add: hash_collect_def distinct_clearjunk)

lemma hash_collect_nil [simp]: "hash_collect xs = [] \<longleftrightarrow> xs = []"
  by (cases "rev xs") (auto simp: hash_collect_def)

text \<open>Entries that agree with a function on their keys collect to that function.\<close>

lemma map_of_functional:
  assumes "\<And>k v. (k, v) \<in> set xs \<Longrightarrow> f k = Some v" and "fst ` set xs = dom f"
  shows "map_of xs = f"
proof
  fix k
  show "map_of xs k = f k"
  proof (cases "map_of xs k")
    case None
    then show ?thesis using assms(2) by (metis domIff map_of_eq_None_iff)
  next
    case (Some v)
    then show ?thesis using assms(1) map_of_SomeD by metis
  qed
qed

lemma map_of_filter_other: "n \<noteq> a \<Longrightarrow> map_of (filter (\<lambda>(m, _). m \<noteq> a) props) n = map_of props n"
  by (induction props) auto

lemma schema_type_from_str_to_string [simp]:
  "schema_type_from_str (schema_type_to_string t) = Inr t"
  by (cases t) (simp_all add: schema_type_from_str_def)

lemma schema_type_i32_roundtrip [simp]: "schema_type_from_i32 (schema_type_to_i32 t) = Some t"
  by (cases t) (simp_all add: schema_type_from_i32_def)

definition schema_decode :: "(string \<rightharpoonup> json) \<Rightarrow> schema option" where
  "schema_decode p =
     (case (Option.bind (p ''SCHEMA_NAME'') as_str, Option.bind (p ''SCHEMA_TOPIC_NAME'') as_str,
            Option.bind (p ''SCHEMA_QUERY_ADDRESS'') as_str,
            Option.bind (p ''SCHEMA_TYPE'') schema_type_from_value) of
        (Some n, Some t, Some q, Some st) \<Rightarrow>
          Some \<lparr>s_name = n, s_kafka_topic = t, s_query_address = q, s_schema_type = st\<rparr>
      | _ \<Rightarrow> None)"

definition definition_decode :: "(string \<rightharpoonup> json) \<Rightarrow> definition_vertex option" where
  "definition_decode p = map_option (\<lambda>d. \<lparr>d_definition = d\<rparr>) (p ''DEFINITION'')"

definition view_decode :: "(string \<rightharpoonup> json) \<Rightarrow> view option" where
  "view_decode p =
     (case (Option.bind (p ''VIEW_NAME'') as_str, Option.bind (p ''JMESPATH'') as_str) of
        (Some n, Some j) \<Rightarrow> Some \<lparr>view_name = n, view_jmespath = j\<rparr>
      | _ \<Rightarrow> None)"

abbreviation schema_names :: "string set" where
  "schema_names \<equiv> {''SCHEMA_NAME'', ''SCHEMA_TOPIC_NAME'', ''SCHEMA_QUERY_ADDRESS'', ''SCHEMA_TYPE''}"

lemma map_leD: "m \<subseteq>\<^sub>m p \<Longrightarrow> m n = Some j \<Longrightarrow> p n = Some j"
  by (metis domI map_le_def)

interpretation schema_codec: vertex_codec Schema schema_decode schema_names
proof (unfold_locales, goal_cases)
  case (1 vp)
  show ?case
    by (simp add: Schema_def schema_from_properties_def schema_decode_def extract_property_def
        map_of_filter_other del: filter_filter split: option.splits)
next
  case (2 x p)
  then have "p ''SCHEMA_NAME'' = Some (JString (s_name x))"
    "p ''SCHEMA_TOPIC_NAME'' = Some (JString (s_kafka_topic x))"
    "p ''SCHEMA_QUERY_ADDRESS'' = Some (JString (s_query_address x))"
    "p ''SCHEMA_TYPE'' = Some (JString (schema_type_to_string (s_schema_type x)))"
    by (auto simp: Schema_def schema_into_properties_def elim!: map_leD)
  then show ?case by (simp add: schema_decode_def)
qed (auto simp: Schema_def schema_into_properties_def schema_decode_def)

interpretation definition_codec: vertex_codec Definition definition_decode "{''DEFINITION''}"
proof (unfold_locales, goal_cases)
  case (2 x p)
  then have "p ''DEFINITION'' = Some (d_definition x)"
    by (auto simp: Definition_def definition_into_properties_def elim!: map_leD)
  then show ?case by (simp add: definition_decode_def)
qed (auto simp: Definition_def definition_from_properties_def definition_into_properties_def
    definition_decode_def extract_property_def split: option.splits)

interpretation view_codec: vertex_codec View view_decode "{''VIEW_NAME'', ''JMESPATH''}"
proof (unfold_locales, goal_cases)
  case (1 vp)
  show ?case
    by (simp add: View_def view_from_properties_def view_decode_def extract_property_def
        map_of_filter_other del: filter_filter split: option.splits)
next
  case (2 x p)
  then have "p ''VIEW_NAME'' = Some (JString (view_name x))"
    "p ''JMESPATH'' = Some (JString (view_jmespath x))"
    by (auto simp: View_def view_into_properties_def elim!: map_leD)
  then show ?case by (simp add: view_decode_def)
qed (auto simp: View_def view_into_properties_def view_decode_def)

interpretation schema_view_codec: edge_codec SchemaView
  by unfold_locales (auto simp: SchemaView_def)

lemma schema_definition_edge_codec:
  assumes "\<And>v. version_from_value E (version_to_value E v) = Some v"
  shows "edge_codec (SchemaDefinitionEdge E)"
proof (unfold_locales, goal_cases)
  case (1 x key props ep)
  then have "map_of (ep_props ep) ''VERSION'' = Some (version_to_value E (sd_version x))"
    by (auto simp: SchemaDefinitionEdge_def elim!: map_leD)
  moreover have "ep_key ep = \<lparr>outbound_id = sd_schema_id x, e_t = ''SCHEMA_DEFINITION'',
      inbound_id = sd_definition_id x\<rparr>"
    using 1 by (simp add: SchemaDefinitionEdge_def)
  ultimately show ?case using assms by (simp add: SchemaDefinitionEdge_def extract_property_def)
qed (auto simp: SchemaDefinitionEdge_def extract_property_def split: option.splits)

text \<open>The status a client sees: exactly the three missing-object errors are not found.\<close>

lemma status_code_not_found_iff:
  "st_code (status_of_error E e) = NotFound \<longleftrightarrow>
     (\<exists>x. e = NoTopic x) \<or> (\<exists>i. e = NoSchemaWithId i) \<or> (\<exists>i. e = NoViewWithId i)"
  by (cases e) (simp_all add: status_of_error_def)

end
