(* ===== verification/Registry_Db.thy ===== *)
theory Registry_Db
  imports Registry_Types
begin

text \<open>
  The registry's database layer: \<open>db.rs\<close> and \<open>schema.rs\<close> of the crate schema-registry.
  Every method of \<open>SchemaDb\<close> is an operation over the state of the datastore; the argument
  \<open>E\<close> carries the datastore and the other third-party functions. The writes an operation made
  before it failed stay in the state it returns.
\<close>

section \<open>Definitions\<close>

type_synonym ('s, 'v, 'r, 'a) db_op = "('s, ('v, 'r) registry_error, 'a) op"

text \<open>The question mark operator on a datastore call converts its error by \<open>From\<close>.\<close>

definition dbE :: "('s, db_error, 'a) op \<Rightarrow> ('s, 'v, 'r, 'a) db_op" where
  "dbE m = map_errE DbError m"

definition connect :: "('s, 'v, 'r) crates \<Rightarrow> ('s, 'v, 'r, unit) db_op" where
  "connect E = map_errE ConnectionError (transaction (db E))"

definition create_vertex_with_properties ::
  "('s, 'v, 'r) crates \<Rightarrow> 'a vertex_trait \<Rightarrow> 'a \<Rightarrow> uuid option \<Rightarrow> ('s, 'v, 'r, uuid) db_op" where
  "create_vertex_with_properties E V x uuid =
     thenE (connect E)
     (bindE
       (case uuid of
          Some uuid \<Rightarrow>
            bindE (dbE (create_vertex (db E) \<lparr>v_id = uuid, v_t = db_type V\<rparr>)) (\<lambda>inserted.
              if \<not> inserted then throwE (DuplicatedUuid uuid) else returnE uuid)
        | None \<Rightarrow> dbE (create_vertex_from_type (db E) (db_type V)))
       (\<lambda>new_id. thenE
          (forE (into_properties V x) (\<lambda>(name, value).
             dbE (put_vertex_property (db E) (SpecificVertexQuery new_id) name value)))
          (returnE new_id)))"

definition set_vertex_properties ::
  "('s, 'v, 'r) crates \<Rightarrow> uuid \<Rightarrow> properties \<Rightarrow> ('s, 'v, 'r, unit) db_op" where
  "set_vertex_properties E uid properties =
     thenE (connect E)
     (forE properties (\<lambda>(name, value).
        dbE (put_vertex_property (db E) (SpecificVertexQuery uid) name value)))"

definition set_edge_properties ::
  "('s, 'v, 'r) crates \<Rightarrow> 'a edge_trait \<Rightarrow> 'a \<Rightarrow> ('s, 'v, 'r, unit) db_op" where
  "set_edge_properties E T edge =
     thenE (connect E)
     (case edge_info T edge of (key, properties) \<Rightarrow>
        thenE (dbE (create_edge (db E) key))
        (forE properties (\<lambda>(name, value).
           dbE (put_edge_property (db E) (SpecificEdgeQuery key) name value))))"

definition ensure_schema_exists :: "('s, 'v, 'r) crates \<Rightarrow> uuid \<Rightarrow> ('s, 'v, 'r, unit) db_op" where
  "ensure_schema_exists E uid =
     thenE (connect E)
     (bindE (dbE (get_vertices (db E) (SpecificVertexQuery uid))) (\<lambda>vertices.
        if vertices = [] then throwE (NoSchemaWithId uid) else returnE ()))"

definition get_schema :: "('s, 'v, 'r) crates \<Rightarrow> uuid \<Rightarrow> ('s, 'v, 'r, schema) db_op" where
  "get_schema E uid =
     thenE (connect E)
     (bindE (dbE (get_all_vertex_properties (db E) (SpecificVertexQuery uid))) (\<lambda>vps.
      bindE (liftR (ok_or (NoSchemaWithId uid) (nextI vps))) (\<lambda>props.
      liftR (ok_or (MalformedError (MalformedSchema (v_id (vp_vertex props))))
        (map_option snd (from_properties Schema props))))))"

definition get_schema_versions ::
  "('s, 'v, 'r) crates \<Rightarrow> uuid \<Rightarrow> ('s, 'v, 'r, ('v \<times> uuid) list) db_op" where
  "get_schema_versions E uid =
     thenE (connect E)
     (bindE (dbE (get_edge_properties (db E)
         (OutboundEdgeQuery (SpecificVertexQuery uid) u32_max (edge_db_type (SchemaDefinitionEdge E)))
         ''VERSION'')) (\<lambda>props.
      liftR (collectR (map (\<lambda>(key, value).
        case version_from_value E value of
          None \<Rightarrow> Inl (MalformedError (MalformedSchemaVersion uid))
        | Some version \<Rightarrow> Inr (version, inbound_id key)) props))))"

definition get_latest_valid_schema_version ::
  "('s, 'v, 'r) crates \<Rightarrow> 'r versioned_uuid \<Rightarrow> ('s, 'v, 'r, 'v \<times> uuid) db_op" where
  "get_latest_valid_schema_version E uid =
     bindE (get_schema_versions E (vu_id uid)) (\<lambda>versions.
       liftR (ok_or (NoVersionMatchesRequirement uid)
         (max_by_key (version_le E) fst
           (filter (\<lambda>(version, _). req_matches E (vu_version_req uid) version) versions))))"

definition get_schema_definition ::
  "('s, 'v, 'r) crates \<Rightarrow> 'r versioned_uuid \<Rightarrow> ('s, 'v, 'r, 'v schema_definition) db_op" where
  "get_schema_definition E uid =
     thenE (connect E)
     (bindE (get_latest_valid_schema_version E uid) (\<lambda>(version, version_vertex_id).
      bindE (dbE (get_vertex_properties (db E) (SpecificVertexQuery version_vertex_id) ''DEFINITION''))
       (\<lambda>props.
      bindE (liftR (ok_or (NoVersionMatchesRequirement uid) (nextI props))) (\<lambda>prop.
      returnE \<lparr>sdef_version = version, sdef_definition = snd prop\<rparr>))))"

text \<open>The three getters of one property differ in the property and its decoder.\<close>

definition get_schema_property ::
  "('s, 'v, 'r) crates \<Rightarrow> (json \<Rightarrow> 'a option) \<Rightarrow> string \<Rightarrow> uuid \<Rightarrow> ('s, 'v, 'r, 'a) db_op" where
  "get_schema_property E from_value name uid =
     thenE (connect E)
     (bindE (dbE (get_vertex_properties (db E) (SpecificVertexQuery uid) name)) (\<lambda>props.
      bindE (liftR (ok_or (NoSchemaWithId uid) (nextI props))) (\<lambda>prop.
      liftR (ok_or (MalformedError (MalformedSchema uid)) (from_value (snd prop))))))"

definition get_schema_topic :: "('s, 'v, 'r) crates \<Rightarrow> uuid \<Rightarrow> ('s, 'v, 'r, string) db_op" where
  "get_schema_topic E uid = get_schema_property E as_str ''SCHEMA_TOPIC_NAME'' uid"

definition get_schema_query_address :: "('s, 'v, 'r) crates \<Rightarrow> uuid \<Rightarrow> ('s, 'v, 'r, string) db_op" where
  "get_schema_query_address E uid = get_schema_property E as_str ''SCHEMA_QUERY_ADDRESS'' uid"

definition get_schema_type :: "('s, 'v, 'r) crates \<Rightarrow> uuid \<Rightarrow> ('s, 'v, 'r, schema_type) db_op" where
  "get_schema_type E uid = get_schema_property E schema_type_from_value ''SCHEMA_TYPE'' uid"

definition get_view :: "('s, 'v, 'r) crates \<Rightarrow> uuid \<Rightarrow> ('s, 'v, 'r, view) db_op" where
  "get_view E uid =
     thenE (connect E)
     (bindE (dbE (get_all_vertex_properties (db E) (SpecificVertexQuery uid))) (\<lambda>vps.
      bindE (liftR (ok_or (NoViewWithId uid)
        (case nextI vps of
           None \<Rightarrow> None
         | Some props \<Rightarrow> if v_t (vp_vertex props) = db_type View then Some props else None)))
       (\<lambda>properties.
      liftR (ok_or (MalformedError (MalformedView uid))
        (map_option snd (from_properties View properties))))))"

subsection \<open>Building the full schema\<close>

primrec retrieve_definitions ::
  "('s, 'v, 'r) crates \<Rightarrow> (string \<times> uuid) list \<Rightarrow> (string \<times> json) list \<Rightarrow>
   ('s, 'v, 'r, (string \<times> json) list) db_op" where
  "retrieve_definitions E [] defs = returnE defs"
| "retrieve_definitions E (ki # rest) defs =
     bindE (get_schema_definition E (versioned_uuid_any E (snd ki))) (\<lambda>schema.
       retrieve_definitions E rest (obj_insert (fst ki) (sdef_definition schema) defs))"

definition schemas_to_retrieve ::
  "('s, 'v, 'r) crates \<Rightarrow> (string \<times> json) list \<Rightarrow> (string \<times> uuid) list" where
  "schemas_to_retrieve E defs =
     List.map_filter (\<lambda>(key, value).
       case as_str value of
         None \<Rightarrow> None
       | Some val \<Rightarrow> map_option (Pair key) (ok (uuid_parse_str E val))) defs"

fun replace_definitions :: "json \<Rightarrow> (string \<times> json) list \<Rightarrow> json" where
  "replace_definitions (JObject kvs) defs = JObject (obj_insert ''definitions'' (JObject defs) kvs)"
| "replace_definitions j defs = j"

definition build_full_schema ::
  "('s, 'v, 'r) crates \<Rightarrow> json \<Rightarrow> ('s, 'v, 'r, definition_vertex) db_op" where
  "build_full_schema E schema =
     bindE
       (case Option.bind (json_get schema ''definitions'') as_object of
          None \<Rightarrow> returnE schema
        | Some defs \<Rightarrow>
            bindE (retrieve_definitions E (schemas_to_retrieve E defs) defs) (\<lambda>defs'.
              returnE (replace_definitions schema defs')))
       (\<lambda>schema.
          case jsonschema_compile E schema of
            None \<Rightarrow> throwE InvalidSchema
          | Some _ \<Rightarrow> returnE \<lparr>d_definition = schema\<rparr>)"

subsection \<open>Writing\<close>

definition add_schema ::
  "('s, 'v, 'r) crates \<Rightarrow> new_schema \<Rightarrow> uuid option \<Rightarrow> ('s, 'v, 'r, uuid) db_op" where
  "add_schema E new_schema new_id =
     (case new_schema_vertex new_schema of (schema, def) \<Rightarrow>
        bindE (build_full_schema E def) (\<lambda>full_schema.
        bindE (create_vertex_with_properties E Schema schema new_id) (\<lambda>new_id.
        bindE (create_vertex_with_properties E Definition full_schema None) (\<lambda>new_definition_vertex_id.
        thenE (set_edge_properties E (SchemaDefinitionEdge E)
                 \<lparr>sd_schema_id = new_id, sd_definition_id = new_definition_vertex_id,
                  sd_version = version_new E 1 0 0\<rparr>)
        (returnE new_id)))))"

definition update_schema_property ::
  "('s, 'v, 'r) crates \<Rightarrow> string \<Rightarrow> uuid \<Rightarrow> string \<Rightarrow> ('s, 'v, 'r, unit) db_op" where
  "update_schema_property E name uid value =
     thenE (ensure_schema_exists E uid) (set_vertex_properties E uid [(name, JString value)])"

definition update_schema_name ::
  "('s, 'v, 'r) crates \<Rightarrow> uuid \<Rightarrow> string \<Rightarrow> ('s, 'v, 'r, unit) db_op" where
  "update_schema_name E uid new_name = update_schema_property E ''SCHEMA_NAME'' uid new_name"

definition update_schema_topic ::
  "('s, 'v, 'r) crates \<Rightarrow> uuid \<Rightarrow> string \<Rightarrow> ('s, 'v, 'r, unit) db_op" where
  "update_schema_topic E uid new_topic = update_schema_property E ''SCHEMA_TOPIC_NAME'' uid new_topic"

definition update_schema_query_address ::
  "('s, 'v, 'r) crates \<Rightarrow> uuid \<Rightarrow> string \<Rightarrow> ('s, 'v, 'r, unit) db_op" where
  "update_schema_query_address E uid new_address =
     update_schema_property E ''SCHEMA_QUERY_ADDRESS'' uid new_address"

definition update_schema_type ::
  "('s, 'v, 'r) crates \<Rightarrow> uuid \<Rightarrow> schema_type \<Rightarrow> ('s, 'v, 'r, unit) db_op" where
  "update_schema_type E uid new_type =
     update_schema_property E ''SCHEMA_TYPE'' uid (schema_type_to_string new_type)"

definition add_new_version_of_schema ::
  "('s, 'v, 'r) crates \<Rightarrow> uuid \<Rightarrow> 'v new_schema_version \<Rightarrow> ('s, 'v, 'r, unit) db_op" where
  "add_new_version_of_schema E uid schema =
     thenE (ensure_schema_exists E uid)
     (bindE (get_schema_versions E uid) (\<lambda>versions.
      thenE
        (case max_by_key (version_le E) fst versions of
           Some (max_version, _) \<Rightarrow>
             if version_le E (nv_version schema) max_version
             then throwE (NewVersionMustBeGreatest uid max_version)
             else returnE ()
         | None \<Rightarrow> returnE ())
        (bindE (build_full_schema E (nv_definition schema)) (\<lambda>full_schema.
         bindE (create_vertex_with_properties E Definition full_schema None)
          (\<lambda>new_definition_vertex_id.
         set_edge_properties E (SchemaDefinitionEdge E)
           \<lparr>sd_schema_id = uid, sd_definition_id = new_definition_vertex_id,
            sd_version = nv_version schema\<rparr>)))))"

definition validate_view :: "('s, 'v, 'r) crates \<Rightarrow> string \<Rightarrow> ('s, 'v, 'r, unit) db_op" where
  "validate_view E view = liftR (map_err InvalidView (jmespath_parse E view))"

definition add_view_to_schema ::
  "('s, 'v, 'r) crates \<Rightarrow> uuid \<Rightarrow> view \<Rightarrow> uuid option \<Rightarrow> ('s, 'v, 'r, uuid) db_op" where
  "add_view_to_schema E schema_id view view_id =
     thenE (ensure_schema_exists E schema_id)
     (thenE (validate_view E (view_jmespath view))
     (bindE (create_vertex_with_properties E View view view_id) (\<lambda>view_id.
      thenE (set_edge_properties E SchemaView \<lparr>sv_schema_id = schema_id, sv_view_id = view_id\<rparr>)
      (returnE view_id))))"

definition update_view ::
  "('s, 'v, 'r) crates \<Rightarrow> uuid \<Rightarrow> view_update \<Rightarrow> ('s, 'v, 'r, view) db_op" where
  "update_view E uid view =
     bindE (get_view E uid) (\<lambda>old_view.
     thenE (case vu_jmespath view of Some jmespath \<Rightarrow> validate_view E jmespath | None \<Rightarrow> returnE ())
     (thenE (case vu_name view of
               Some name \<Rightarrow> set_vertex_properties E uid [(''VIEW_NAME'', JString name)]
             | None \<Rightarrow> returnE ())
     (thenE (case vu_jmespath view of
               Some jmespath \<Rightarrow> set_vertex_properties E uid [(''JMESPATH'', JString jmespath)]
             | None \<Rightarrow> returnE ())
     (returnE old_view))))"

subsection \<open>Listing\<close>

text \<open>Decoding every vertex of a listing into a hash map, or the first malformed one.\<close>

definition collect_vertices ::
  "'a vertex_trait \<Rightarrow> (uuid \<Rightarrow> malformed_error) \<Rightarrow> vertex_properties list \<Rightarrow>
   (('v, 'r) registry_error, (uuid \<times> 'a) list) result" where
  "collect_vertices V malformed vps =
     bindR (collectR (map (\<lambda>props.
         ok_or (MalformedError (malformed (v_id (vp_vertex props)))) (from_properties V props)) vps))
       (\<lambda>xs. Inr (hash_collect xs))"

definition get_all_schemas :: "('s, 'v, 'r) crates \<Rightarrow> ('s, 'v, 'r, (uuid \<times> schema) list) db_op" where
  "get_all_schemas E =
     thenE (connect E)
     (bindE (dbE (get_all_vertex_properties (db E) (RangeVertexQuery u32_max (Some (db_type Schema)))))
       (\<lambda>all_schemas. liftR (collect_vertices Schema MalformedSchema all_schemas)))"

definition get_all_schema_names :: "('s, 'v, 'r) crates \<Rightarrow> ('s, 'v, 'r, (uuid \<times> string) list) db_op" where
  "get_all_schema_names E =
     thenE (connect E)
     (bindE (dbE (get_vertex_properties (db E) (RangeVertexQuery u32_max (Some (db_type Schema))) ''SCHEMA_NAME''))
       (\<lambda>all_names.
          liftR (bindR (collectR (map (\<lambda>(schema_id, value).
              map_err (\<lambda>_::unit. MalformedError (MalformedSchema schema_id))
                (ok_or () (map_option (Pair schema_id) (as_str value)))) all_names))
            (\<lambda>xs. Inr (hash_collect xs)))))"

definition get_all_views_of_schema ::
  "('s, 'v, 'r) crates \<Rightarrow> uuid \<Rightarrow> ('s, 'v, 'r, (uuid \<times> view) list) db_op" where
  "get_all_views_of_schema E schema_id =
     thenE (connect E)
     (thenE (ensure_schema_exists E schema_id)
     (bindE (dbE (get_all_vertex_properties (db E)
         (InboundVertexQuery
            (OutboundEdgeQuery (SpecificVertexQuery schema_id) u32_max (edge_db_type SchemaView))
            u32_max)))
       (\<lambda>all_views. liftR (collect_vertices View MalformedView all_views))))"

subsection \<open>Import and export\<close>

definition import_all :: "('s, 'v, 'r) crates \<Rightarrow> 'v db_export \<Rightarrow> ('s, 'v, 'r, unit) db_op" where
  "import_all E imported =
     bindE (get_all_schema_names E) (\<lambda>names.
       if names \<noteq> [] then returnE ()
       else
         thenE (forE (ex_schemas imported) (\<lambda>(schema_id, schema).
           thenE (create_vertex_with_properties E Schema schema (Some schema_id)) (returnE ())))
         (thenE (forE (ex_definitions imported) (\<lambda>(definition_id, def).
           thenE (create_vertex_with_properties E Definition def (Some definition_id)) (returnE ())))
         (thenE (forE (ex_views imported) (\<lambda>(view_id, view).
           thenE (create_vertex_with_properties E View view (Some view_id)) (returnE ())))
         (thenE (forE (ex_schema_definitions imported) (set_edge_properties E (SchemaDefinitionEdge E)))
         (forE (ex_schema_views imported) (set_edge_properties E SchemaView))))))"

text \<open>
  \<open>SchemaViewEdge::from_properties(props).unwrap()\<close> cannot panic: the decoder always returns a
  value, so the filter below keeps every edge.
\<close>

definition export_all :: "('s, 'v, 'r) crates \<Rightarrow> ('s, 'v, 'r, 'v db_export) db_op" where
  "export_all E =
     thenE (connect E)
     (bindE (dbE (get_all_vertex_properties (db E) (RangeVertexQuery u32_max (Some (db_type Definition)))))
       (\<lambda>all_definitions.
      bindE (dbE (get_all_vertex_properties (db E) (RangeVertexQuery u32_max (Some (db_type Schema)))))
       (\<lambda>all_schemas.
      bindE (dbE (get_all_vertex_properties (db E) (RangeVertexQuery u32_max (Some (db_type View)))))
       (\<lambda>all_views.
      bindE (dbE (get_all_edge_properties (db E)
         (OutboundEdgeQuery (RangeVertexQuery u32_max None) u32_max
            (edge_db_type (SchemaDefinitionEdge E)))))
       (\<lambda>all_schema_definitions.
      bindE (dbE (get_all_edge_properties (db E)
         (OutboundEdgeQuery (RangeVertexQuery u32_max None) u32_max (edge_db_type SchemaView))))
       (\<lambda>all_schema_views.
      bindE (liftR (collect_vertices Definition MalformedDefinition all_definitions)) (\<lambda>definitions.
      bindE (liftR (collect_vertices Schema MalformedSchema all_schemas)) (\<lambda>schemas.
      bindE (liftR (collect_vertices View MalformedView all_views)) (\<lambda>views.
      bindE (liftR (collectR (map (\<lambda>props.
          ok_or (MalformedError (MalformedSchemaVersion (outbound_id (ep_key props))))
            (edge_from_properties (SchemaDefinitionEdge E) props)) all_schema_definitions)))
       (\<lambda>schema_definitions.
      returnE \<lparr>ex_schemas = schemas, ex_definitions = definitions, ex_views = views,
               ex_schema_definitions = schema_definitions,
               ex_schema_views = List.map_filter (edge_from_properties SchemaView) all_schema_views\<rparr>))))))))))"

end
