(* ===== verification/Registry_Laws.thy ===== *)
theory Registry_Laws
  imports Registry_Db
begin

text \<open>
  What the operations of \<open>Registry_Db\<close> do to the property graph. The locale \<open>registry_env\<close>
  is the interface between the registry and the crates it is built on: a datastore that meets
  \<open>graph_datastore\<close>, a total preorder on versions (semantic-version precedence ignores build
  metadata, so it is not antisymmetric) and a faithful JSON form of versions. The lemmas inside
  it describe every read by a function of the graph and every write by a graph update; all of
  them speak of the runs in which the datastore itself did not fail.
\<close>

locale registry_env = graph_datastore "db E" \<alpha>
  for E :: "('s, 'v, 'r) crates" and \<alpha> :: "'s \<Rightarrow> graph" +
  assumes version_total: "version_le E a b \<or> version_le E b a"
    and version_trans: "version_le E a b \<Longrightarrow> version_le E b c \<Longrightarrow> version_le E a c"
    and version_roundtrip: "version_from_value E (version_to_value E v) = Some v"

fun db_failure :: "('v, 'r) registry_error \<Rightarrow> bool" where
  "db_failure (DbError _) = True"
| "db_failure (ConnectionError _) = True"
| "db_failure _ = False"

text \<open>
  \<open>yields m s P\<close>: run from \<open>s\<close>, the outcome of \<open>m\<close> satisfies \<open>P\<close> unless the datastore failed.
\<close>

definition yields ::
  "('s, ('v, 'r) registry_error, 'a) op \<Rightarrow> 's \<Rightarrow> ((('v, 'r) registry_error, 'a) result \<Rightarrow> bool) \<Rightarrow> bool" where
  "yields m s P \<longleftrightarrow> (case fst (m s) of Inl e \<Rightarrow> db_failure e \<or> P (Inl e) | Inr x \<Rightarrow> P (Inr x))"

lemma yieldsD: "yields m s P \<Longrightarrow> m s = (Inr x, t) \<Longrightarrow> P (Inr x)"
  by (simp add: yields_def)

lemma yieldsE: "yields m s P \<Longrightarrow> m s = (Inl e, t) \<Longrightarrow> \<not> db_failure e \<Longrightarrow> P (Inl e)"
  by (simp add: yields_def)

lemma yields_run: "m s = (r, t) \<Longrightarrow> P r \<Longrightarrow> yields m s P"
  by (cases r) (auto simp: yields_def)

lemma yields_mono: "yields m s P \<Longrightarrow> (\<And>r. P r \<Longrightarrow> Q r) \<Longrightarrow> yields m s Q"
  by (auto simp: yields_def split: sum.splits)

lemma yields_returnE [simp]: "yields (returnE x) s P = P (Inr x)"
  by (simp add: yields_def)

lemma yields_throwE [simp]: "yields (throwE e) s P = (db_failure e \<or> P (Inl e))"
  by (simp add: yields_def)

lemma yields_liftR: "P r \<Longrightarrow> yields (liftR r) s P"
  by (cases r) (auto simp: yields_def)

lemma yields_dbE:
  "(\<And>x t. m s = (Inr x, t) \<Longrightarrow> P (Inr x)) \<Longrightarrow> yields (dbE m) s P"
  by (cases "m s") (auto simp: yields_def dbE_def map_errE_def split: sum.splits)

lemma dbE_Inr_iff [simp]: "dbE m s = (Inr x, t) \<longleftrightarrow> m s = (Inr x, t)"
  by (simp add: dbE_def)

lemma dbE_Inl_D: "dbE m s = (Inl e, t) \<Longrightarrow> db_failure e \<and> (\<exists>e'. m s = (Inl e', t))"
  by (auto simp: dbE_def)

section \<open>Reading the graph\<close>

definition schema_at :: "graph \<Rightarrow> uuid \<Rightarrow> schema option" where
  "schema_at g i = (case vertices g i of None \<Rightarrow> None | Some (t, p) \<Rightarrow> schema_decode p)"

definition view_at :: "graph \<Rightarrow> uuid \<Rightarrow> view option" where
  "view_at g i = (case vertices g i of None \<Rightarrow> None
     | Some (t, p) \<Rightarrow> if t = ''VIEW'' then view_decode p else None)"

definition definition_at :: "graph \<Rightarrow> uuid \<Rightarrow> json option" where
  "definition_at g i = (case vertices g i of None \<Rightarrow> None | Some (t, p) \<Rightarrow> p ''DEFINITION'')"

text \<open>
  The stored versions of a schema, and that every one of them can be decoded.
\<close>

definition version_values :: "graph \<Rightarrow> uuid \<Rightarrow> (json \<times> uuid) set" where
  "version_values g i =
     {(j, inbound_id k) | j k p. edges g k = Some p \<and> outbound_id k = i \<and>
        e_t k = ''SCHEMA_DEFINITION'' \<and> p ''VERSION'' = Some j \<and> i \<in> dom (vertices g)}"

definition versions_at :: "('s, 'v, 'r) crates \<Rightarrow> graph \<Rightarrow> uuid \<Rightarrow> ('v \<times> uuid) set" where
  "versions_at E g i =
     {(v, d) | v d. \<exists>j. (j, d) \<in> version_values g i \<and> version_from_value E j = Some v}"

definition versions_ok :: "('s, 'v, 'r) crates \<Rightarrow> graph \<Rightarrow> uuid \<Rightarrow> bool" where
  "versions_ok E g i \<longleftrightarrow> (\<forall>(j, d) \<in> version_values g i. version_from_value E j \<noteq> None)"

text \<open>The versions of a schema that meet a requirement, and the greatest of them.\<close>

definition matching_versions ::
  "('s, 'v, 'r) crates \<Rightarrow> graph \<Rightarrow> 'r versioned_uuid \<Rightarrow> ('v \<times> uuid) set" where
  "matching_versions E g u = {(v, d) \<in> versions_at E g (vu_id u). req_matches E (vu_version_req u) v}"

definition greatest_version ::
  "('s, 'v, 'r) crates \<Rightarrow> ('v \<times> uuid) set \<Rightarrow> 'v \<times> uuid \<Rightarrow> bool" where
  "greatest_version E M m \<longleftrightarrow> m \<in> M \<and> (\<forall>(v, d) \<in> M. version_le E v (fst m))"

lemma db_types [simp]:
  "db_type Schema = ''SCHEMA''" "db_type Definition = ''DEFINITION''" "db_type View = ''VIEW''"
  "edge_db_type SchemaView = ''SCHEMA_VIEW''"
  "edge_db_type (SchemaDefinitionEdge E) = ''SCHEMA_DEFINITION''"
  by (simp_all add: Schema_def Definition_def View_def SchemaView_def SchemaDefinitionEdge_def)

lemma nextI_set: "nextI xs = Some x \<Longrightarrow> x \<in> set xs"
  by (cases xs) auto

lemma nextI_None [simp]: "nextI xs = None \<longleftrightarrow> xs = []"
  by (cases xs) auto

context registry_env
begin

subsection \<open>Operations that leave the graph alone\<close>

abbreviation keeps :: "('s, 'e, 'a) op \<Rightarrow> bool" where
  "keeps m \<equiv> \<forall>g. preserves (\<lambda>s. \<alpha> s = g) m"

lemma keepsD: "keeps m \<Longrightarrow> m s = (r, t) \<Longrightarrow> \<alpha> t = \<alpha> s"
  using preservesD [of "\<lambda>x. \<alpha> x = \<alpha> s" m s r t] by blast

lemma keeps_dbE: "(\<And>s. \<alpha> (snd (m s)) = \<alpha> s) \<Longrightarrow> keeps (dbE m)"
  by (simp add: dbE_def preserves_def)

lemma keeps_connect: "keeps (connect E)"
  by (simp add: connect_def preserves_def reads_graph)

lemmas keeps_reads = keeps_connect [rule_format]
  keeps_dbE [rule_format, OF get_vertices_graph] keeps_dbE [rule_format, OF get_vertex_properties_graph]
  keeps_dbE [rule_format, OF get_all_vertex_properties_graph]
  keeps_dbE [rule_format, OF get_edge_properties_graph]
  keeps_dbE [rule_format, OF get_all_edge_properties_graph]

lemma keeps_ensure: "keeps (ensure_schema_exists E i)"
  by (auto simp: ensure_schema_exists_def intro!: pres keeps_reads)

lemma keeps_get_schema: "keeps (get_schema E i)"
  by (auto simp: get_schema_def intro!: pres keeps_reads)

lemma keeps_get_schema_versions: "keeps (get_schema_versions E i)"
  by (auto simp: get_schema_versions_def intro!: pres keeps_reads)

lemma keeps_get_schema_definition: "keeps (get_schema_definition E u)"
  by (auto simp: get_schema_definition_def get_latest_valid_schema_version_def
      intro!: pres keeps_reads keeps_get_schema_versions [rule_format])

lemma keeps_get_schema_property: "keeps (get_schema_property E f n i)"
  by (auto simp: get_schema_property_def intro!: pres keeps_reads)

lemma keeps_get_view: "keeps (get_view E i)"
  by (auto simp: get_view_def intro!: pres keeps_reads)

lemma keeps_retrieve_definitions: "keeps (retrieve_definitions E ks defs)"
  by (induction ks arbitrary: defs)
    (auto intro!: pres keeps_get_schema_definition [rule_format])

lemma keeps_build_full_schema: "keeps (build_full_schema E j)"
  by (auto simp: build_full_schema_def split: option.splits
      intro!: pres keeps_retrieve_definitions [rule_format])

lemma keeps_validate_view: "keeps (validate_view E v)"
  by (auto simp: validate_view_def intro!: pres)

lemma keeps_get_all_schema_names: "keeps (get_all_schema_names E)"
  by (auto simp: get_all_schema_names_def intro!: pres keeps_reads)

lemma keeps_export_all: "keeps (export_all E)"
  by (auto simp: export_all_def intro!: pres keeps_reads)

subsection \<open>What the reads return\<close>

lemma yields_bindE:
  assumes "keeps m" and "yields m s Q"
    and "\<And>x t. Q (Inr x) \<Longrightarrow> \<alpha> t = \<alpha> s \<Longrightarrow> yields (f x) t P"
    and "\<And>e. Q (Inl e) \<Longrightarrow> P (Inl e)"
  shows "yields (bindE m f) s P"
proof (cases "m s")
  case (Pair r t)
  have "\<alpha> t = \<alpha> s" using keepsD [OF assms(1) Pair] .
  with Pair assms(2-4) show ?thesis
    by (cases r) (auto simp: yields_def bindE_def)
qed

lemma yields_connect: "yields (connect E) s (\<lambda>r. r = Inr ())"
  by (cases "transaction (db E) s") (auto simp: yields_def connect_def map_errE_def split: sum.splits)

lemma yields_connect_thenE:
  assumes "\<And>t. \<alpha> t = \<alpha> s \<Longrightarrow> yields m t P"
  shows "yields (thenE (connect E) m) s P"
  unfolding thenE_def
  by (rule yields_bindE [OF keeps_connect yields_connect]) (auto intro: assms)

lemma keeps_dbE_reads:
  "keeps (dbE (get_vertices (db E) q))" "keeps (dbE (get_vertex_properties (db E) q n))"
  "keeps (dbE (get_all_vertex_properties (db E) q))" "keeps (dbE (get_edge_properties (db E) eq n))"
  "keeps (dbE (get_all_edge_properties (db E) eq))"
  by (simp_all add: dbE_def preserves_def reads_graph)

lemma yields_ensure:
  assumes "within_limit (\<alpha> s)"
  shows "yields (ensure_schema_exists E i) s
    (\<lambda>r. r = (if i \<in> dom (vertices (\<alpha> s)) then Inr () else Inl (NoSchemaWithId i)))"
  unfolding ensure_schema_exists_def
proof (rule yields_connect_thenE)
  fix t assume t: "\<alpha> t = \<alpha> s"
  show "yields (bindE (dbE (get_vertices (db E) (SpecificVertexQuery i)))
      (\<lambda>vertices. if vertices = [] then throwE (NoSchemaWithId i) else returnE ())) t
    (\<lambda>r. r = (if i \<in> dom (vertices (\<alpha> s)) then Inr () else Inl (NoSchemaWithId i)))"
  proof (rule yields_bindE [OF keeps_dbE_reads(1)])
    show "yields (dbE (get_vertices (db E) (SpecificVertexQuery i))) t
        (\<lambda>r. \<exists>vs. r = Inr vs \<and> v_id ` set vs = vq_sem (\<alpha> s) (SpecificVertexQuery i))"
      using get_vertices_ok assms t by (fastforce intro: yields_dbE)
  next
    fix vs :: "vertex list" and u
    assume "\<exists>ws. Inr vs = Inr ws \<and> v_id ` set ws = vq_sem (\<alpha> s) (SpecificVertexQuery i)"
    then have "v_id ` set vs = dom (vertices (\<alpha> s)) \<inter> {i}" by auto
    then have "vs = [] \<longleftrightarrow> i \<notin> dom (vertices (\<alpha> s))" by (cases vs) auto
    then show "yields (if vs = [] then throwE (NoSchemaWithId i) else returnE ()) u
        (\<lambda>r. r = (if i \<in> dom (vertices (\<alpha> s)) then Inr () else Inl (NoSchemaWithId i)))"
      by auto
  qed auto
qed

text \<open>All properties of one vertex.\<close>

lemma yields_all_properties:
  assumes "within_limit (\<alpha> s)"
  shows "yields (dbE (get_all_vertex_properties (db E) (SpecificVertexQuery i))) s
    (\<lambda>r. \<exists>vps. r = Inr vps \<and>
      (case vertices (\<alpha> s) i of
         None \<Rightarrow> vps = []
       | Some (t, p) \<Rightarrow> \<exists>vp. nextI vps = Some vp \<and> vp_vertex vp = \<lparr>v_id = i, v_t = t\<rparr> \<and>
           map_of (vp_props vp) = p))"
proof (rule yields_dbE, goal_cases)
  case (1 vps t)
  have ids: "(\<lambda>vp. v_id (vp_vertex vp)) ` set vps = vq_sem (\<alpha> s) (SpecificVertexQuery i)"
    using get_all_vertex_properties_ids [OF 1 assms] by simp
  show ?case
  proof (cases "vertices (\<alpha> s) i")
    case None
    then have "(\<lambda>vp. v_id (vp_vertex vp)) ` set vps = {}" using ids by (simp add: domIff)
    then show ?thesis using None by simp
  next
    case (Some tp)
    then obtain vp where vp: "nextI vps = Some vp" using ids by (cases vps) auto
    then have mem: "vp \<in> set vps" by (rule nextI_set)
    with ids have "v_id (vp_vertex vp) = i" by auto
    with get_all_vertex_properties_ok [OF 1 mem] Some vp show ?thesis
      by (auto intro!: exI [of _ vp])
  qed
qed

lemma yields_get_schema:
  assumes "within_limit (\<alpha> s)"
  shows "yields (get_schema E i) s
    (\<lambda>r. r = (if i \<in> dom (vertices (\<alpha> s))
              then ok_or (MalformedError (MalformedSchema i)) (schema_at (\<alpha> s) i)
              else Inl (NoSchemaWithId i)))"
  unfolding get_schema_def
proof (rule yields_connect_thenE)
  fix t assume t: "\<alpha> t = \<alpha> s"
  show "yields (bindE (dbE (get_all_vertex_properties (db E) (SpecificVertexQuery i))) (\<lambda>vps.
      bindE (liftR (ok_or (NoSchemaWithId i) (nextI vps))) (\<lambda>props.
      liftR (ok_or (MalformedError (MalformedSchema (v_id (vp_vertex props))))
        (map_option snd (from_properties Schema props)))))) t
    (\<lambda>r. r = (if i \<in> dom (vertices (\<alpha> s))
              then ok_or (MalformedError (MalformedSchema i)) (schema_at (\<alpha> s) i)
              else Inl (NoSchemaWithId i)))"
    by (rule yields_bindE [OF keeps_dbE_reads(3) yields_all_properties])
      (use assms t in \<open>auto simp: yields_def schema_at_def bindE_def ok_or_def option.map_comp comp_def
          schema_codec.from_properties_decode split: option.splits\<close>)
qed

lemma yields_vertex_property:
  assumes "within_limit (\<alpha> s)"
  shows "yields (dbE (get_vertex_properties (db E) (SpecificVertexQuery i) n)) s
    (\<lambda>r. \<exists>ps. r = Inr ps \<and>
      map_option snd (nextI ps) = Option.bind (vertices (\<alpha> s) i) (\<lambda>(t, p). p n))"
proof (rule yields_dbE, goal_cases)
  case (1 ps t)
  have set_ps: "set ps = {(k, j). k = i \<and> (\<exists>t p. vertices (\<alpha> s) i = Some (t, p) \<and> p n = Some j)}"
    using get_vertex_properties_ok [OF 1 assms] by auto
  show ?case
  proof (cases ps)
    case Nil
    then have "(i, j) \<notin> {(k, j). k = i \<and> (\<exists>t p. vertices (\<alpha> s) i = Some (t, p) \<and> p n = Some j)}" for j
      using set_ps by simp
    with Nil show ?thesis by (cases "Option.bind (vertices (\<alpha> s) i) (\<lambda>(t, p). p n)") (auto simp: bind_eq_Some_conv)
  next
    case (Cons kj ps')
    then have "kj \<in> set ps" by simp
    with set_ps have "fst kj = i \<and> (\<exists>t p. vertices (\<alpha> s) i = Some (t, p) \<and> p n = Some (snd kj))"
      by auto
    with Cons show ?thesis by auto
  qed
qed

lemma yields_get_schema_property:
  assumes "within_limit (\<alpha> s)"
  shows "yields (get_schema_property E f n i) s
    (\<lambda>r. r = (case Option.bind (vertices (\<alpha> s) i) (\<lambda>(t, p). p n) of
               None \<Rightarrow> Inl (NoSchemaWithId i)
             | Some j \<Rightarrow> ok_or (MalformedError (MalformedSchema i)) (f j)))"
  unfolding get_schema_property_def
proof (rule yields_connect_thenE, rule yields_bindE [OF keeps_dbE_reads(2) yields_vertex_property])
  fix t assume "\<alpha> t = \<alpha> s"
  then show "within_limit (\<alpha> t)" using assms by simp
next
  fix t u and ps :: "(uuid \<times> json) list"
  assume "\<alpha> t = \<alpha> s" and "\<exists>qs. Inr ps = Inr qs \<and>
    map_option snd (nextI qs) = Option.bind (vertices (\<alpha> t) i) (\<lambda>(t, p). p n)"
  then have "map_option snd (nextI ps) = Option.bind (vertices (\<alpha> s) i) (\<lambda>(t, p). p n)" by simp
  then show "yields (bindE (liftR (ok_or (NoSchemaWithId i) (nextI ps))) (\<lambda>prop.
      liftR (ok_or (MalformedError (MalformedSchema i)) (f (snd prop))))) u
    (\<lambda>r. r = (case Option.bind (vertices (\<alpha> s) i) (\<lambda>(t, p). p n) of
               None \<Rightarrow> Inl (NoSchemaWithId i)
             | Some j \<Rightarrow> ok_or (MalformedError (MalformedSchema i)) (f j)))"
    by (cases ps) (auto simp: yields_def bindE_def ok_or_def split: option.splits)
qed auto

lemma yields_get_view:
  assumes "within_limit (\<alpha> s)"
  shows "yields (get_view E i) s
    (\<lambda>r. r = (case vertices (\<alpha> s) i of
               Some (t, p) \<Rightarrow>
                 if t = ''VIEW'' then ok_or (MalformedError (MalformedView i)) (view_at (\<alpha> s) i)
                 else Inl (NoViewWithId i)
             | None \<Rightarrow> Inl (NoViewWithId i)))"
  unfolding get_view_def
proof (rule yields_connect_thenE, rule yields_bindE [OF keeps_dbE_reads(3) yields_all_properties])
  fix t assume "\<alpha> t = \<alpha> s"
  then show "within_limit (\<alpha> t)" using assms by simp
qed (auto simp: yields_def view_at_def bindE_def ok_or_def option.map_comp comp_def
      view_codec.from_properties_decode split: option.splits)

lemma yields_get_schema_versions:
  assumes "within_limit (\<alpha> s)" and "versions_ok E (\<alpha> s) i"
  shows "yields (get_schema_versions E i) s (\<lambda>r. \<exists>vs. r = Inr vs \<and> set vs = versions_at E (\<alpha> s) i)"
  unfolding get_schema_versions_def
proof (rule yields_connect_thenE)
  fix t assume t: "\<alpha> t = \<alpha> s"
  define q where "q = OutboundEdgeQuery (SpecificVertexQuery i) u32_max (edge_db_type (SchemaDefinitionEdge E))"
  define dec :: "edge_key \<times> json \<Rightarrow> (('v, 'r) registry_error, 'v \<times> uuid) result" where
    "dec = (\<lambda>(key, value). case version_from_value E value of
        None \<Rightarrow> Inl (MalformedError (MalformedSchemaVersion i)) | Some version \<Rightarrow> Inr (version, inbound_id key))"
  show "yields (bindE (dbE (get_edge_properties (db E) q ''VERSION'')) (\<lambda>props.
      liftR (collectR (map dec props)))) t (\<lambda>r. \<exists>vs. r = Inr vs \<and> set vs = versions_at E (\<alpha> s) i)"
  proof (rule yields_bindE [OF keeps_dbE_reads(4)])
    have "(\<lambda>(k, j). (j, inbound_id k)) ` set es = version_values (\<alpha> s) i"
      if "get_edge_properties (db E) q ''VERSION'' t = (Inr es, u)" for es u
      using get_edge_properties_ok [OF that] assms t
      by (force simp: q_def version_values_def image_iff)
    then show "yields (dbE (get_edge_properties (db E) q ''VERSION'')) t
      (\<lambda>r. \<exists>es. r = Inr es \<and> (\<lambda>(k, j). (j, inbound_id k)) ` set es = version_values (\<alpha> s) i)"
      by (intro yields_dbE) blast
  next
    fix es :: "(edge_key \<times> json) list" and u
    assume "\<exists>es'. Inr es = Inr es' \<and> (\<lambda>(k, j). (j, inbound_id k)) ` set es' = version_values (\<alpha> s) i"
    then have es: "version_values (\<alpha> s) i = (\<lambda>(k, j). (j, inbound_id k)) ` set es" by auto
    define vs where "vs = map (\<lambda>(k, j). (the (version_from_value E j), inbound_id k)) es"
    have some: "\<exists>v. version_from_value E j = Some v" if "(k, j) \<in> set es" for k j
      using assms(2) that by (fastforce simp: versions_ok_def es)
    then have "map dec es = map Inr vs" by (auto simp: dec_def vs_def split: option.splits)
    moreover have "set vs = versions_at E (\<alpha> s) i"
      using some by (force simp: vs_def versions_at_def es image_iff)
    ultimately show "yields (liftR (collectR (map dec es))) u
        (\<lambda>r. \<exists>vs. r = Inr vs \<and> set vs = versions_at E (\<alpha> s) i)"
      by (simp add: yields_def)
  qed auto
qed

lemma max_version_greatest:
  "max_by_key (version_le E) fst vs = Some m \<Longrightarrow> greatest_version E (set vs) m"
  using max_by_key_mem [of "version_le E" fst vs m]
    max_by_key_ge [of "version_le E" fst vs m, OF version_total version_trans]
  by (fastforce simp: greatest_version_def)

text \<open>A definition lookup returns the greatest stored version that meets the requirement.\<close>

lemma yields_get_schema_definition:
  assumes lim: "within_limit (\<alpha> s)" and vok: "versions_ok E (\<alpha> s) (vu_id u)"
  shows "yields (get_schema_definition E u) s (\<lambda>r.
    if matching_versions E (\<alpha> s) u = {} then r = Inl (NoVersionMatchesRequirement u)
    else \<exists>v d. greatest_version E (matching_versions E (\<alpha> s) u) (v, d) \<and>
      r = ok_or (NoVersionMatchesRequirement u)
            (map_option (\<lambda>j. \<lparr>sdef_version = v, sdef_definition = j\<rparr>) (definition_at (\<alpha> s) d)))"
    (is "yields _ _ ?P")
  unfolding get_schema_definition_def
proof (rule yields_connect_thenE)
  fix t assume t: "\<alpha> t = \<alpha> s"
  define M where "M = matching_versions E (\<alpha> s) u"
  have latest: "yields (get_latest_valid_schema_version E u) t (\<lambda>r.
      if M = {} then r = Inl (NoVersionMatchesRequirement u)
      else \<exists>m. r = Inr m \<and> greatest_version E M m)"
    unfolding get_latest_valid_schema_version_def
  proof (rule yields_bindE [OF keeps_get_schema_versions yields_get_schema_versions])
    fix vs and w
    assume "\<exists>vs'. Inr vs = Inr vs' \<and> set vs' = versions_at E (\<alpha> t) (vu_id u)"
    define fs where "fs = filter (\<lambda>(version, _). req_matches E (vu_version_req u) version) vs"
    have fs: "set fs = M"
      using \<open>\<exists>vs'. _\<close> t by (auto simp: M_def matching_versions_def fs_def)
    show "yields (liftR (ok_or (NoVersionMatchesRequirement u)
        (max_by_key (version_le E) fst
          (filter (\<lambda>(version, _). req_matches E (vu_version_req u) version) vs)))) w
        (\<lambda>r. if M = {} then r = Inl (NoVersionMatchesRequirement u)
          else \<exists>m. r = Inr m \<and> greatest_version E M m)"
    proof (cases "max_by_key (version_le E) fst fs")
      case None
      with fs show ?thesis by (auto simp: fs_def [symmetric] ok_or_def intro!: yields_liftR)
    next
      case (Some m)
      have "greatest_version E M m" using max_version_greatest [OF Some] fs by simp
      moreover have "M \<noteq> {}" using calculation by (auto simp: greatest_version_def)
      ultimately show ?thesis
        using Some by (cases m) (simp add: fs_def [symmetric] ok_or_def yields_liftR)
    qed
  qed (use lim vok t in auto)
  show "yields (bindE (get_latest_valid_schema_version E u) (\<lambda>(version, version_vertex_id).
      bindE (dbE (get_vertex_properties (db E) (SpecificVertexQuery version_vertex_id) ''DEFINITION''))
       (\<lambda>props.
      bindE (liftR (ok_or (NoVersionMatchesRequirement u) (nextI props))) (\<lambda>prop.
      returnE \<lparr>sdef_version = version, sdef_definition = snd prop\<rparr>)))) t ?P"
  proof (rule yields_bindE [OF _ latest], goal_cases)
    case 1
    then show ?case
      by (auto simp: get_latest_valid_schema_version_def intro!: pres keeps_get_schema_versions [rule_format])
  next
    case (2 m w)
    obtain v d where m: "m = (v, d)" by (cases m)
    from 2 m have M: "M \<noteq> {}" "greatest_version E M (v, d)" by (auto split: if_splits)
    have w: "\<alpha> w = \<alpha> s" using 2(2) t by simp
    have def_at: "definition_at (\<alpha> s) d = Option.bind (vertices (\<alpha> s) d) (\<lambda>(t, p). p ''DEFINITION'')"
      by (auto simp: definition_at_def split: option.splits)
    show ?case unfolding m prod.case
    proof (rule yields_bindE [OF keeps_dbE_reads(2) yields_vertex_property])
      fix ps :: "(uuid \<times> json) list" and x
      assume "\<exists>qs. Inr ps = Inr qs \<and> map_option snd (nextI qs) =
        Option.bind (vertices (\<alpha> w) d) (\<lambda>(t, p). p ''DEFINITION'')"
      then have d: "definition_at (\<alpha> s) d = map_option snd (nextI ps)" by (simp add: def_at w)
      have "bindE (liftR (ok_or (NoVersionMatchesRequirement u) (nextI ps))) (\<lambda>prop.
          returnE \<lparr>sdef_version = v, sdef_definition = snd prop\<rparr>) x =
        (ok_or (NoVersionMatchesRequirement u)
          (map_option (\<lambda>j. \<lparr>sdef_version = v, sdef_definition = j\<rparr>) (definition_at (\<alpha> s) d)), x)"
        by (cases ps) (auto simp: d bindE_def ok_or_def)
      then show "yields (bindE (liftR (ok_or (NoVersionMatchesRequirement u) (nextI ps))) (\<lambda>prop.
          returnE \<lparr>sdef_version = v, sdef_definition = snd prop\<rparr>)) x ?P"
        by (rule yields_run) (use M in \<open>auto simp: M_def\<close>)
    qed (use lim w in auto)
  next
    case (3 e)
    then show ?case by (auto simp: M_def split: if_splits)
  qed
qed

end

end
