(* ===== verification/Registry_Spec.thy ===== *)
theory Registry_Spec
  imports Registry_Laws
begin

text \<open>
  The effect of every registry write on the property graph, the well-formedness invariant of
  the registry's graph, and that every operation keeps it unless the datastore itself fails.

  A write that succeeds is a composition of \<open>set_vertex\<close>, \<open>set_edge\<close> and \<open>set_property\<close>,
  the abstract specification of the storage layer; a write that is refused (an error that is
  not the datastore's) leaves the graph as it was.
\<close>

section \<open>Graph updates\<close>

definition set_vertex :: "uuid \<Rightarrow> ds_type \<Rightarrow> (string \<rightharpoonup> json) \<Rightarrow> graph \<Rightarrow> graph" where
  "set_vertex i t p g = g\<lparr>vertices := (vertices g)(i \<mapsto> (t, p))\<rparr>"

definition replace_edge :: "edge_key \<Rightarrow> (string \<rightharpoonup> json) \<Rightarrow> graph \<Rightarrow> graph" where
  "replace_edge k p g = g\<lparr>edges := (edges g)(k \<mapsto> p)\<rparr>"

definition set_edge :: "edge_key \<Rightarrow> (string \<rightharpoonup> json) \<Rightarrow> graph \<Rightarrow> graph" where
  "set_edge k p g = replace_edge k (case edges g k of None \<Rightarrow> p | Some q \<Rightarrow> q ++ p) g"

text \<open>
  \<open>settled r\<close>: the outcome is a value or an error of the registry's own.
\<close>

abbreviation settled :: "(('v, 'r) registry_error, 'a) result \<Rightarrow> bool" where
  "settled r \<equiv> (\<forall>e. r = Inl e \<longrightarrow> \<not> db_failure e)"

abbreviation definition_key :: "uuid \<Rightarrow> uuid \<Rightarrow> edge_key" where
  "definition_key i d \<equiv> \<lparr>outbound_id = i, e_t = ''SCHEMA_DEFINITION'', inbound_id = d\<rparr>"

abbreviation view_key :: "uuid \<Rightarrow> uuid \<Rightarrow> edge_key" where
  "view_key i v \<equiv> \<lparr>outbound_id = i, e_t = ''SCHEMA_VIEW'', inbound_id = v\<rparr>"

text \<open>A new version is a definition vertex and the edge to it that carries the version.\<close>

definition with_version ::
  "('s, 'v, 'r) crates \<Rightarrow> uuid \<Rightarrow> uuid \<Rightarrow> 'v \<Rightarrow> json \<Rightarrow> graph \<Rightarrow> graph" where
  "with_version E i d v j g =
     set_edge (definition_key i d) [''VERSION'' \<mapsto> version_to_value E v]
       (set_vertex d ''DEFINITION'' [''DEFINITION'' \<mapsto> j] g)"

definition with_schema :: "uuid \<Rightarrow> schema \<Rightarrow> graph \<Rightarrow> graph" where
  "with_schema i sch g = set_vertex i ''SCHEMA'' (map_of (schema_into_properties sch)) g"

definition with_view :: "uuid \<Rightarrow> uuid \<Rightarrow> view \<Rightarrow> graph \<Rightarrow> graph" where
  "with_view i w v g =
     set_edge (view_key i w) Map.empty (set_vertex w ''VIEW'' (map_of (view_into_properties v)) g)"

lemma vertices_set_vertex [simp]:
  "vertices (set_vertex i t p g) = (vertices g)(i \<mapsto> (t, p))"
  "edges (set_vertex i t p g) = edges g"
  by (simp_all add: set_vertex_def)

lemma edges_set_edge [simp]:
  "edges (set_edge k p g) =
     (edges g)(k \<mapsto> (case edges g k of None \<Rightarrow> p | Some q \<Rightarrow> q ++ p))"
  "vertices (set_edge k p g) = vertices g"
  by (simp_all add: set_edge_def replace_edge_def)

lemma fold_put_property:
  "vertices g i = Some (t, p) \<Longrightarrow>
     fold (\<lambda>(n, v). put_property i n v) ps g = set_vertex i t (p ++ map_of (rev ps)) g"
proof (induction ps arbitrary: g p)
  case Nil
  then show ?case by (simp add: set_vertex_def fun_upd_idem)
next
  case (Cons nv ps)
  obtain n v where nv: "nv = (n, v)" by (cases nv)
  have g': "put_property i n v g = set_vertex i t (p(n \<mapsto> v)) g"
    using Cons.prems by (simp add: put_property_def set_vertex_def)
  have "fold (\<lambda>(n, v). put_property i n v) ps (put_property i n v g) =
      set_vertex i t (p(n \<mapsto> v) ++ map_of (rev ps)) (put_property i n v g)"
    by (rule Cons.IH) (use Cons.prems in \<open>simp add: vertices_put_property fun_upd_def\<close>)
  moreover have "p(n \<mapsto> v) ++ map_of (rev ps) = p ++ map_of (rev (nv # ps))"
    by (simp add: nv map_add_assoc [symmetric])
  ultimately have "fold (\<lambda>(n, v). put_property i n v) (nv # ps) g =
      set_vertex i t (p ++ map_of (rev (nv # ps))) (put_property i n v g)"
    by (simp only: nv fold_simps prod.case)
  then show ?case by (simp only: g') (simp add: set_vertex_def)
qed

lemma fold_put_property_None:
  "vertices g i = None \<Longrightarrow> fold (\<lambda>(n, v). put_property i n v) ps g = g"
  by (induction ps) (auto simp: put_property_def)

lemma fold_put_on_edge:
  "edges g k = Some p \<Longrightarrow>
     fold (\<lambda>(n, v). put_on_edge k n v) ps g = replace_edge k (p ++ map_of (rev ps)) g"
proof (induction ps arbitrary: g p)
  case Nil
  then show ?case by (simp add: replace_edge_def fun_upd_idem)
next
  case (Cons nv ps)
  obtain n v where nv: "nv = (n, v)" by (cases nv)
  have g': "put_on_edge k n v g = replace_edge k (p(n \<mapsto> v)) g"
    using Cons.prems by (simp add: put_on_edge_def replace_edge_def)
  have "fold (\<lambda>(n, v). put_on_edge k n v) ps (put_on_edge k n v g) =
      replace_edge k (p(n \<mapsto> v) ++ map_of (rev ps)) (put_on_edge k n v g)"
    by (rule Cons.IH) (use Cons.prems in \<open>simp add: edges_put_on_edge fun_upd_def\<close>)
  moreover have "p(n \<mapsto> v) ++ map_of (rev ps) = p ++ map_of (rev (nv # ps))"
    by (simp add: nv map_add_assoc [symmetric])
  ultimately have "fold (\<lambda>(n, v). put_on_edge k n v) (nv # ps) g =
      replace_edge k (p ++ map_of (rev (nv # ps))) (put_on_edge k n v g)"
    by (simp only: nv fold_simps prod.case)
  then show ?case by (simp only: g') (simp add: replace_edge_def)
qed

lemma map_of_rev: "distinct (map fst xs) \<Longrightarrow> map_of (rev xs) = map_of xs"
  by (rule map_of_functional) (auto simp: dom_map_of_conv_image_fst map_of_eq_Some_iff)

context registry_env
begin

lemma forE_put_vertex:
  "forE ps (\<lambda>(n, v). dbE (put_vertex_property (db E) (SpecificVertexQuery i) n v)) s = (Inr u, t) \<Longrightarrow>
     \<alpha> t = fold (\<lambda>(n, v). put_property i n v) ps (\<alpha> s)"
proof (induction ps arbitrary: s)
  case (Cons nv ps)
  then show ?case by (cases nv) (auto simp: thenE_Inr_iff dest!: put_vertex_ok)
qed simp

lemma forE_put_vertex_Inl:
  "forE ps (\<lambda>(n, v). dbE (put_vertex_property (db E) q n v)) s = (Inl e, t) \<Longrightarrow> db_failure e"
proof (induction ps arbitrary: s)
  case (Cons nv ps)
  then show ?case by (cases nv) (auto simp: thenE_Inl_iff dest: dbE_Inl_D)
qed simp

lemma forE_put_edge:
  "forE ps (\<lambda>(n, v). dbE (put_edge_property (db E) (SpecificEdgeQuery k) n v)) s = (Inr u, t) \<Longrightarrow>
     \<alpha> t = fold (\<lambda>(n, v). put_on_edge k n v) ps (\<alpha> s)"
proof (induction ps arbitrary: s)
  case (Cons nv ps)
  then show ?case by (cases nv) (auto simp: thenE_Inr_iff dest!: put_edge_ok)
qed simp

lemma forE_put_edge_Inl:
  "forE ps (\<lambda>(n, v). dbE (put_edge_property (db E) q n v)) s = (Inl e, t) \<Longrightarrow> db_failure e"
proof (induction ps arbitrary: s)
  case (Cons nv ps)
  then show ?case by (cases nv) (auto simp: thenE_Inl_iff dest: dbE_Inl_D)
qed simp

lemma connect_Inr: "connect E s = (Inr u, t) \<Longrightarrow> \<alpha> t = \<alpha> s"
  using keepsD [OF keeps_connect] .

lemma connect_Inl: "connect E s = (Inl e, t) \<Longrightarrow> db_failure e \<and> \<alpha> t = \<alpha> s"
  using keepsD [OF keeps_connect, of s "Inl e" t] by (auto simp: connect_def)

lemma create_vertex_with_properties_ok:
  assumes run: "create_vertex_with_properties E V x uid s = (Inr i, t)"
    and dist: "distinct (map fst (into_properties V x))"
  shows "i \<notin> dom (vertices (\<alpha> s)) \<and> (\<forall>u. uid = Some u \<longrightarrow> i = u) \<and>
    \<alpha> t = set_vertex i (db_type V) (map_of (into_properties V x)) (\<alpha> s)"
proof -
  have put: "\<alpha> t = set_vertex i ty (map_of (into_properties V x)) g"
    if "forE (into_properties V x) (\<lambda>(n, v).
        dbE (put_vertex_property (db E) (SpecificVertexQuery i) n v)) w = (Inr u, t)"
      "\<alpha> w = add_vertex i ty g" for w u ty g
    using forE_put_vertex [OF that(1)] that(2)
      fold_put_property [of "add_vertex i ty g" i ty Map.empty "into_properties V x"] map_of_rev [OF dist]
    by (simp add: set_vertex_def add_vertex_def)
  show ?thesis
  proof (cases uid)
    case None
    with run show ?thesis
      by (fastforce simp: create_vertex_with_properties_def thenE_Inr_iff bindE_Inr_iff
          dest: connect_Inr from_type_ok intro: put)
  next
    case (Some u)
    with run show ?thesis
      by (fastforce simp: create_vertex_with_properties_def thenE_Inr_iff bindE_Inr_iff
          dest: connect_Inr create_vertex_ok intro: put split: if_splits)
  qed
qed

lemma create_vertex_with_properties_err:
  assumes run: "create_vertex_with_properties E V x uid s = (Inl e, t)" and e: "\<not> db_failure e"
  shows "\<exists>u. uid = Some u \<and> e = DuplicatedUuid u \<and> u \<in> dom (vertices (\<alpha> s)) \<and> \<alpha> t = \<alpha> s"
proof (cases uid)
  case None
  with run e show ?thesis
    by (auto simp: create_vertex_with_properties_def thenE_Inl_iff bindE_Inl_iff
        dest: connect_Inl dbE_Inl_D forE_put_vertex_Inl)
next
  case (Some u)
  with run e show ?thesis
    by (fastforce simp: create_vertex_with_properties_def thenE_Inl_iff bindE_Inl_iff
        dest: connect_Inl connect_Inr dbE_Inl_D forE_put_vertex_Inl create_vertex_ok split: if_splits)
qed

lemma set_edge_properties_ok:
  assumes run: "set_edge_properties E T x s = (Inr u, t)" and info: "edge_info T x = (k, props)"
    and dist: "distinct (map fst props)"
    and ends: "outbound_id k \<in> dom (vertices (\<alpha> s))" "inbound_id k \<in> dom (vertices (\<alpha> s))"
  shows "\<alpha> t = set_edge k (map_of props) (\<alpha> s)"
proof -
  from run info obtain u' v where "connect E s = (Inr u', v)"
    and run': "thenE (dbE (create_edge (db E) k)) (forE props (\<lambda>(n, v).
      dbE (put_edge_property (db E) (SpecificEdgeQuery k) n v))) v =
        (Inr u :: (('v, 'r) registry_error, unit) result, t)"
    by (auto simp: set_edge_properties_def thenE_Inr_iff [of "connect E"])
  from run' obtain c w where w: "create_edge (db E) k v = (Inr c, w)" and
    puts: "\<alpha> t = fold (\<lambda>(n, v). put_on_edge k n v) props (\<alpha> w)"
    by (auto simp: thenE_Inr_iff dest: forE_put_edge)
  have v: "\<alpha> v = \<alpha> s" using connect_Inr \<open>connect E s = _\<close> .
  have gw: "\<alpha> w = add_edge k (\<alpha> s)" using create_edge_ok [OF w] v ends by simp
  then have "edges (\<alpha> w) k = Some (case edges (\<alpha> s) k of None \<Rightarrow> Map.empty | Some p \<Rightarrow> p)"
    by (simp add: add_edge_def split: option.splits)
  from fold_put_on_edge [OF this, of props] puts gw
  show ?thesis by (simp add: map_of_rev [OF dist] add_edge_def set_edge_def replace_edge_def split: option.splits)
qed

lemma set_edge_properties_missing:
  assumes run: "set_edge_properties E T x s = (Inr u, t)" and info: "edge_info T x = (k, props)"
    and ends: "outbound_id k \<notin> dom (vertices (\<alpha> s)) \<or> inbound_id k \<notin> dom (vertices (\<alpha> s))"
    and closed: "edges (\<alpha> s) k = None"
  shows "\<alpha> t = \<alpha> s"
proof -
  from run info obtain u' v where "connect E s = (Inr u', v)"
    and run': "thenE (dbE (create_edge (db E) k)) (forE props (\<lambda>(n, v).
      dbE (put_edge_property (db E) (SpecificEdgeQuery k) n v))) v =
        (Inr u :: (('v, 'r) registry_error, unit) result, t)"
    by (auto simp: set_edge_properties_def thenE_Inr_iff [of "connect E"])
  from run' obtain c w where w: "create_edge (db E) k v = (Inr c, w)" and
    puts: "\<alpha> t = fold (\<lambda>(n, v). put_on_edge k n v) props (\<alpha> w)"
    by (auto simp: thenE_Inr_iff dest: forE_put_edge)
  have v: "\<alpha> v = \<alpha> s" using connect_Inr \<open>connect E s = _\<close> .
  have "\<alpha> w = \<alpha> s" using create_edge_ok [OF w] v ends by auto
  moreover have "fold (\<lambda>(n, v). put_on_edge k n v) props (\<alpha> s) = \<alpha> s"
    using closed by (induction props) (auto simp: put_on_edge_def)
  ultimately show ?thesis using puts by simp
qed

lemma set_edge_properties_err: "set_edge_properties E T x s = (Inl e, t) \<Longrightarrow> db_failure e"
  by (cases "edge_info T x") (auto simp: set_edge_properties_def thenE_Inl_iff
      dest: connect_Inl dbE_Inl_D forE_put_edge_Inl)

lemma set_vertex_properties_ok:
  "set_vertex_properties E i ps s = (Inr u, t) \<Longrightarrow> \<alpha> t = fold (\<lambda>(n, v). put_property i n v) ps (\<alpha> s)"
  by (auto simp: set_vertex_properties_def thenE_Inr_iff dest!: forE_put_vertex connect_Inr)

lemma set_vertex_properties_err: "set_vertex_properties E i ps s = (Inl e, t) \<Longrightarrow> db_failure e"
  by (auto simp: set_vertex_properties_def thenE_Inl_iff dest: connect_Inl forE_put_vertex_Inl)

section \<open>The effect of each write\<close>

lemma yields_settled: "yields m s P \<Longrightarrow> m s = (r, t) \<Longrightarrow> settled r \<Longrightarrow> P r"
  by (cases r) (auto simp: yields_def)

lemma ensure_settled:
  assumes "ensure_schema_exists E i s = (r, t)" "settled r" "within_limit (\<alpha> s)"
  shows "r = (if i \<in> dom (vertices (\<alpha> s)) then Inr () else Inl (NoSchemaWithId i)) \<and> \<alpha> t = \<alpha> s"
  using yields_settled [OF yields_ensure [OF assms(3)] assms(1,2)] keepsD [OF keeps_ensure assms(1)] by simp

lemma update_schema_property_effect:
  assumes run: "update_schema_property E n i v s = (r, t)" and r: "settled r" and lim: "within_limit (\<alpha> s)"
  shows "if i \<in> dom (vertices (\<alpha> s)) then r = Inr () \<and> \<alpha> t = put_property i n (JString v) (\<alpha> s)
         else r = Inl (NoSchemaWithId i) \<and> \<alpha> t = \<alpha> s"
proof (cases "ensure_schema_exists E i s")
  case (Pair r1 s1)
  show ?thesis
  proof (cases r1)
    case (Inl e)
    with run Pair have "r = Inl e" "t = s1" by (auto simp: update_schema_property_def)
    with ensure_settled [OF Pair _ lim] Inl r show ?thesis by (auto split: if_splits)
  next
    case (Inr u)
    with ensure_settled [OF Pair _ lim] have i: "i \<in> dom (vertices (\<alpha> s))" "\<alpha> s1 = \<alpha> s"
      by (auto split: if_splits)
    from run Pair Inr have run': "set_vertex_properties E i [(n, JString v)] s1 = (r, t)"
      by (simp add: update_schema_property_def)
    with r have "r = Inr ()" by (cases r) (auto dest: set_vertex_properties_err)
    with set_vertex_properties_ok [of i _ s1 "()" t] run' i show ?thesis by simp
  qed
qed

lemma create_vertex_effect:
  assumes run: "create_vertex_with_properties E V x uid s = (r, t)" and r: "settled r"
    and dist: "distinct (map fst (into_properties V x))"
  shows "(\<exists>i. r = Inr i \<and> i \<notin> dom (vertices (\<alpha> s)) \<and> (\<forall>u. uid = Some u \<longrightarrow> i = u) \<and>
            \<alpha> t = set_vertex i (db_type V) (map_of (into_properties V x)) (\<alpha> s)) \<or>
         (\<exists>u. uid = Some u \<and> r = Inl (DuplicatedUuid u) \<and> u \<in> dom (vertices (\<alpha> s)) \<and> \<alpha> t = \<alpha> s)"
proof (cases r)
  case (Inl e)
  with r have "\<not> db_failure e" by simp
  from create_vertex_with_properties_err [OF run [unfolded Inl] this] Inl show ?thesis by auto
next
  case (Inr i)
  from create_vertex_with_properties_ok [OF run [unfolded Inr] dist] Inr show ?thesis by auto
qed

lemma create_definition_effect:
  assumes "create_vertex_with_properties E Definition x None s = (r, t)" and "settled r"
  shows "\<exists>d. r = Inr d \<and> d \<notin> dom (vertices (\<alpha> s)) \<and>
    \<alpha> t = set_vertex d ''DEFINITION'' [''DEFINITION'' \<mapsto> d_definition x] (\<alpha> s)"
  using create_vertex_effect [OF assms definition_codec.distinct_into]
  by (auto simp: Definition_def definition_into_properties_def)

lemma definition_edge_effect:
  assumes "set_edge_properties E (SchemaDefinitionEdge E)
      \<lparr>sd_schema_id = i, sd_definition_id = d, sd_version = v\<rparr> s = (r, t)" and "settled r"
    and "i \<in> dom (vertices (\<alpha> s))" "d \<in> dom (vertices (\<alpha> s))"
  shows "r = Inr () \<and> \<alpha> t = set_edge (definition_key i d) [''VERSION'' \<mapsto> version_to_value E v] (\<alpha> s)"
proof -
  from assms(1,2) have "r = Inr ()" by (cases r) (auto dest: set_edge_properties_err)
  with set_edge_properties_ok [of "SchemaDefinitionEdge E" _ s "()" t] assms show ?thesis
    by (auto simp: SchemaDefinitionEdge_def)
qed

text \<open>Compiling a full schema reads only; a schema that does not compile is refused.\<close>

lemma build_full_schema_effect:
  assumes "build_full_schema E j s = (r, t)"
  shows "\<alpha> t = \<alpha> s" and "r = Inr d \<Longrightarrow> jsonschema_compile E (d_definition d) \<noteq> None"
  using keepsD [OF keeps_build_full_schema assms] assms
  by (auto simp: build_full_schema_def bindE_Inr_iff split: option.splits)

lemma add_schema_effect:
  assumes run: "add_schema E ns uid s = (r, t)" and r: "settled r"
  shows "(\<exists>i d j. r = Inr i \<and> i \<notin> dom (vertices (\<alpha> s)) \<and> d \<notin> insert i (dom (vertices (\<alpha> s))) \<and>
            (\<forall>u. uid = Some u \<longrightarrow> i = u) \<and> jsonschema_compile E j \<noteq> None \<and>
            fst (build_full_schema E (ns_definition ns) s) = Inr \<lparr>d_definition = j\<rparr> \<and>
            \<alpha> t = with_version E i d (version_new E 1 0 0) j (with_schema i (fst (new_schema_vertex ns)) (\<alpha> s))) \<or>
         ((\<exists>e. r = Inl e) \<and> \<alpha> t = \<alpha> s)"
proof -
  obtain sch where sch: "new_schema_vertex ns = (sch, ns_definition ns)"
    by (simp add: new_schema_vertex_def)
  obtain r1 s1 where b: "build_full_schema E (ns_definition ns) s = (r1, s1)" by fastforce
  note s1 = build_full_schema_effect(1) [OF b]
  show ?thesis
  proof (cases r1)
    case (Inl e)
    with run b s1 show ?thesis by (auto simp: add_schema_def sch)
  next
    case (Inr full)
    obtain r2 s2 where c: "create_vertex_with_properties E Schema sch uid s1 = (r2, s2)" by fastforce
    have r2: "settled r2" using run b Inr c r by (auto simp: add_schema_def sch)
    from create_vertex_effect [OF c r2 schema_codec.distinct_into] show ?thesis
    proof (elim disjE exE conjE, goal_cases)
      case (1 i)
      obtain r3 s3 where d: "create_vertex_with_properties E Definition full None s2 = (r3, s3)" by fastforce
      have "settled r3" using run b Inr c 1 d r by (auto simp: add_schema_def sch)
      from create_definition_effect [OF d this] obtain d' where d': "r3 = Inr d'"
        "d' \<notin> dom (vertices (\<alpha> s2))"
        "\<alpha> s3 = set_vertex d' ''DEFINITION'' [''DEFINITION'' \<mapsto> d_definition full] (\<alpha> s2)" by auto
      obtain r4 s4 where e: "set_edge_properties E (SchemaDefinitionEdge E)
          \<lparr>sd_schema_id = i, sd_definition_id = d', sd_version = version_new E 1 0 0\<rparr> s3 = (r4, s4)" by fastforce
      have "settled r4" using run b Inr c 1 d d' e r by (auto simp: add_schema_def sch)
      from definition_edge_effect [OF e this] 1 d'
      have e': "r4 = Inr ()" "\<alpha> s4 = set_edge (definition_key i d')
          [''VERSION'' \<mapsto> version_to_value E (version_new E 1 0 0)] (\<alpha> s3)" by auto
      have "r = Inr i" "t = s4" using run b Inr c 1 d d' e e' by (auto simp: add_schema_def sch)
      then show ?thesis
        using 1 d' e' s1 b Inr build_full_schema_effect(2) [OF b Inr] sch
        by (intro disjI1 exI [of _ i] exI [of _ d'] exI [of _ "d_definition full"])
          (auto simp: with_version_def with_schema_def Schema_def)
    next
      case (2 u)
      with run b Inr c s1 show ?thesis by (auto simp: add_schema_def sch)
    qed
  qed
qed

text \<open>A new version is stored only if it is greater than every stored version.\<close>

lemma add_new_version_effect:
  assumes run: "add_new_version_of_schema E i nv s = (r, t)" and r: "settled r"
    and lim: "within_limit (\<alpha> s)" and vok: "versions_ok E (\<alpha> s) i"
  shows "(r = Inr () \<and> i \<in> dom (vertices (\<alpha> s)) \<and>
           (\<forall>(v, d) \<in> versions_at E (\<alpha> s) i. \<not> version_le E (nv_version nv) v) \<and>
           (\<exists>d j s'. d \<notin> dom (vertices (\<alpha> s)) \<and> jsonschema_compile E j \<noteq> None \<and> \<alpha> s' = \<alpha> s \<and>
              fst (build_full_schema E (nv_definition nv) s') = Inr \<lparr>d_definition = j\<rparr> \<and>
              \<alpha> t = with_version E i d (nv_version nv) j (\<alpha> s))) \<or>
         ((\<exists>e. r = Inl e) \<and> \<alpha> t = \<alpha> s \<and>
           (i \<notin> dom (vertices (\<alpha> s)) \<longrightarrow> r = Inl (NoSchemaWithId i)) \<and>
           (i \<in> dom (vertices (\<alpha> s)) \<and> (\<exists>(v, d) \<in> versions_at E (\<alpha> s) i. version_le E (nv_version nv) v) \<longrightarrow>
              (\<exists>m d. greatest_version E (versions_at E (\<alpha> s) i) (m, d) \<and>
                 r = Inl (NewVersionMustBeGreatest i m))))"
    (is "?stored \<or> ?refused")
proof -
  obtain r1 s1 where c: "ensure_schema_exists E i s = (r1, s1)" by fastforce
  have "settled r1" using run c r by (auto simp: add_new_version_of_schema_def)
  note r1 = ensure_settled [OF c this lim]
  show ?thesis
  proof (cases "i \<in> dom (vertices (\<alpha> s))")
    case False
    with run c r1 show ?thesis by (auto simp: add_new_version_of_schema_def)
  next
    case True
    with r1 have ok1: "r1 = Inr ()" "\<alpha> s1 = \<alpha> s" by auto
    obtain r2 s2 where v: "get_schema_versions E i s1 = (r2, s2)" by fastforce
    have "settled r2" using run c ok1 v r by (auto simp: add_new_version_of_schema_def)
    then obtain vs where vs: "r2 = Inr vs" "set vs = versions_at E (\<alpha> s) i"
      using yields_settled [OF yields_get_schema_versions v] lim vok ok1 by auto
    have s2: "\<alpha> s2 = \<alpha> s" using keepsD [OF keeps_get_schema_versions v] ok1 by simp
    show ?thesis
    proof (cases "\<exists>m. max_by_key (version_le E) fst vs = Some m \<and> version_le E (nv_version nv) (fst m)")
      case refused: True
      then obtain m d where m: "max_by_key (version_le E) fst vs = Some (m, d)" "version_le E (nv_version nv) m"
        by auto
      with max_version_greatest [OF m(1)] run c ok1 v vs s2 True show ?thesis
        by (fastforce simp: add_new_version_of_schema_def)
    next
      case False
      have lt: "\<not> version_le E (nv_version nv) w" if "(w, d) \<in> versions_at E (\<alpha> s) i" for w d
      proof -
        from that vs obtain m where m: "max_by_key (version_le E) fst vs = Some m"
          by (cases "max_by_key (version_le E) fst vs") auto
        with max_version_greatest [OF m] that vs have "version_le E w (fst m)"
          by (auto simp: greatest_version_def)
        with False m version_trans show ?thesis by blast
      qed
      obtain r3 s3 where b: "build_full_schema E (nv_definition nv) s2 = (r3, s3)" by fastforce
      have run3: "bindE (build_full_schema E (nv_definition nv)) (\<lambda>full_schema.
          bindE (create_vertex_with_properties E Definition full_schema None) (\<lambda>d.
          set_edge_properties E (SchemaDefinitionEdge E)
            \<lparr>sd_schema_id = i, sd_definition_id = d, sd_version = nv_version nv\<rparr>)) s2 = (r, t)"
        using run c ok1 v vs False
        by (auto simp: add_new_version_of_schema_def split: option.splits prod.splits)
      show ?thesis
      proof (cases r3)
        case (Inl e)
        with run3 b s2 lt True build_full_schema_effect(1) [OF b] show ?thesis by auto
      next
        case (Inr full)
        obtain r4 s4 where d: "create_vertex_with_properties E Definition full None s3 = (r4, s4)" by fastforce
        have "settled r4" using run3 b Inr d r by auto
        from create_definition_effect [OF d this] obtain d' where d': "r4 = Inr d'"
          "d' \<notin> dom (vertices (\<alpha> s3))"
          "\<alpha> s4 = set_vertex d' ''DEFINITION'' [''DEFINITION'' \<mapsto> d_definition full] (\<alpha> s3)" by auto
        have e: "set_edge_properties E (SchemaDefinitionEdge E)
            \<lparr>sd_schema_id = i, sd_definition_id = d', sd_version = nv_version nv\<rparr> s4 = (r, t)"
          using run3 b Inr d d' by auto
        have "fst (build_full_schema E (nv_definition nv) s2) = Inr \<lparr>d_definition = d_definition full\<rparr>"
          using b Inr by simp
        with definition_edge_effect [OF e r] True d' s2 build_full_schema_effect [OF b] Inr lt
        have "?stored"
          by (intro conjI exI [of _ d'] exI [of _ "d_definition full"] exI [of _ s2]) (auto simp: with_version_def)
        then show ?thesis ..
      qed
    qed
  qed
qed

lemma validate_view_effect: "validate_view E v s = (r, t) \<Longrightarrow> t = s \<and> r = map_err InvalidView (jmespath_parse E v)"
  by (auto simp: validate_view_def)

lemma add_view_effect:
  assumes run: "add_view_to_schema E i v uid s = (r, t)" and r: "settled r" and lim: "within_limit (\<alpha> s)"
  shows "(\<exists>w. r = Inr w \<and> i \<in> dom (vertices (\<alpha> s)) \<and> w \<notin> dom (vertices (\<alpha> s)) \<and>
            (\<forall>u. uid = Some u \<longrightarrow> w = u) \<and> jmespath_parse E (view_jmespath v) = Inr () \<and>
            \<alpha> t = with_view i w v (\<alpha> s)) \<or>
         ((\<exists>e. r = Inl e) \<and> \<alpha> t = \<alpha> s)"
proof -
  obtain r1 s1 where c: "ensure_schema_exists E i s = (r1, s1)" by fastforce
  have "settled r1" using run c r by (auto simp: add_view_to_schema_def)
  note r1 = ensure_settled [OF c this lim]
  show ?thesis
  proof (cases "i \<in> dom (vertices (\<alpha> s)) \<and> jmespath_parse E (view_jmespath v) = Inr ()")
    case False
    with run c r1 show ?thesis
      by (cases "jmespath_parse E (view_jmespath v)")
        (auto simp: add_view_to_schema_def validate_view_def map_err_def split: if_splits)
  next
    case True
    obtain r2 s2 where d: "create_vertex_with_properties E View v uid s1 = (r2, s2)" by fastforce
    have run2: "bindE (create_vertex_with_properties E View v uid) (\<lambda>view_id.
        thenE (set_edge_properties E SchemaView \<lparr>sv_schema_id = i, sv_view_id = view_id\<rparr>)
        (returnE view_id)) s1 = (r, t)"
      using run c r1 True by (auto simp: add_view_to_schema_def validate_view_def map_err_def)
    have "settled r2" using run2 d r by auto
    from create_vertex_effect [OF d this view_codec.distinct_into] show ?thesis
    proof (elim disjE exE conjE, goal_cases)
      case (1 w)
      obtain r3 s3 where e: "set_edge_properties E SchemaView \<lparr>sv_schema_id = i, sv_view_id = w\<rparr> s2 = (r3, s3)"
        by fastforce
      have "r3 = Inr ()" using run2 d 1 e r by (cases r3) (auto dest: set_edge_properties_err)
      moreover from this have "\<alpha> s3 = set_edge (view_key i w) Map.empty (\<alpha> s2)"
        using set_edge_properties_ok [of SchemaView _ s2 "()" s3 "view_key i w" "[]"] e 1 r1 True
        by (auto simp: SchemaView_def)
      ultimately show ?thesis using run2 d 1 e r1 True
        by (auto simp: with_view_def View_def)
    next
      case (2 u)
      with run2 d r1 show ?thesis by auto
    qed
  qed
qed

end

end
