(* ===== verification/Registry_Invariant.thy ===== *)
theory Registry_Invariant
  imports Registry_Spec
begin

text \<open>
  The invariant of the registry's graph and the state machine of its writes. \<open>registry_ok\<close> says
  that every vertex has one of the three types and decodes as that type, that edges join existing
  vertices, that a definition edge carries a decodable version and ends in a definition, and that a
  view edge ends in a view. \<open>registry_call\<close> lists the writing methods of \<open>SchemaDb\<close>; every state reached
  from an empty datastore by calls during which the datastore did not fail meets the invariant.
\<close>

section \<open>Definitions\<close>

definition known_type :: "ds_type \<Rightarrow> bool" where
  "known_type t \<longleftrightarrow> t \<in> {''SCHEMA'', ''DEFINITION'', ''VIEW''}"

lemma known_types [simp]: "known_type ''SCHEMA''" "known_type ''DEFINITION''" "known_type ''VIEW''"
  by (simp_all add: known_type_def)

definition vertex_ok :: "ds_type \<Rightarrow> (string \<rightharpoonup> json) \<Rightarrow> bool" where
  "vertex_ok t p \<longleftrightarrow>
     known_type t \<and>
     (t = ''SCHEMA'' \<longrightarrow> schema_decode p \<noteq> None) \<and>
     (t = ''DEFINITION'' \<longrightarrow> definition_decode p \<noteq> None) \<and>
     (t = ''VIEW'' \<longrightarrow> view_decode p \<noteq> None)"

definition type_at :: "graph \<Rightarrow> uuid \<Rightarrow> ds_type option" where
  "type_at g i = map_option fst (vertices g i)"

definition edge_ok :: "('s, 'v, 'r) crates \<Rightarrow> graph \<Rightarrow> edge_key \<Rightarrow> (string \<rightharpoonup> json) \<Rightarrow> bool" where
  "edge_ok E g k p \<longleftrightarrow>
     outbound_id k \<in> dom (vertices g) \<and> inbound_id k \<in> dom (vertices g) \<and>
     (e_t k = ''SCHEMA_DEFINITION'' \<longrightarrow> type_at g (inbound_id k) = Some ''DEFINITION'' \<and>
        Option.bind (p ''VERSION'') (version_from_value E) \<noteq> None) \<and>
     (e_t k = ''SCHEMA_VIEW'' \<longrightarrow> type_at g (inbound_id k) = Some ''VIEW'')"

definition registry_ok :: "('s, 'v, 'r) crates \<Rightarrow> graph \<Rightarrow> bool" where
  "registry_ok E g \<longleftrightarrow>
     (\<forall>i t p. vertices g i = Some (t, p) \<longrightarrow> vertex_ok t p) \<and>
     (\<forall>k p. edges g k = Some p \<longrightarrow> edge_ok E g k p)"

datatype 'v registry_call =
    CallAddSchema new_schema "uuid option"
  | CallUpdateName uuid string
  | CallUpdateTopic uuid string
  | CallUpdateAddress uuid string
  | CallUpdateType uuid schema_type
  | CallAddVersion uuid "'v new_schema_version"
  | CallAddView uuid view "uuid option"
  | CallUpdateView uuid view_update
  | CallImportAll "'v db_export"

definition discard :: "('s, 'e, 'a) op \<Rightarrow> ('s, 'e, unit) op" where
  "discard m = thenE m (returnE ())"

fun exec :: "('s, 'v, 'r) crates \<Rightarrow> 'v registry_call \<Rightarrow> ('s, 'v, 'r, unit) db_op" where
  "exec E (CallAddSchema ns uid) = discard (add_schema E ns uid)"
| "exec E (CallUpdateName i v) = update_schema_name E i v"
| "exec E (CallUpdateTopic i v) = update_schema_topic E i v"
| "exec E (CallUpdateAddress i v) = update_schema_query_address E i v"
| "exec E (CallUpdateType i v) = update_schema_type E i v"
| "exec E (CallAddVersion i nv) = add_new_version_of_schema E i nv"
| "exec E (CallAddView i v uid) = discard (add_view_to_schema E i v uid)"
| "exec E (CallUpdateView i u) = discard (update_view E i u)"
| "exec E (CallImportAll ex) = import_all E ex"

text \<open>An import file whose edges end in definitions and views of the same file.\<close>

fun call_ok :: "'v registry_call \<Rightarrow> bool" where
  "call_ok (CallImportAll ex) \<longleftrightarrow>
     (\<forall>e \<in> set (ex_schema_definitions ex). sd_definition_id e \<in> fst ` set (ex_definitions ex)) \<and>
     (\<forall>e \<in> set (ex_schema_views ex). sv_view_id e \<in> fst ` set (ex_views ex))"
| "call_ok _ \<longleftrightarrow> True"

inductive reachable :: "('s, 'v, 'r) crates \<Rightarrow> ('s \<Rightarrow> graph) \<Rightarrow> 's \<Rightarrow> bool"
  for E :: "('s, 'v, 'r) crates" and \<alpha> :: "'s \<Rightarrow> graph" where
  reachable_empty: "\<alpha> s = empty_graph \<Longrightarrow> reachable E \<alpha> s"
| reachable_call: "reachable E \<alpha> s \<Longrightarrow> within_limit (\<alpha> s) \<Longrightarrow> call_ok c \<Longrightarrow> exec E c s = (r, t) \<Longrightarrow>
    settled r \<Longrightarrow> reachable E \<alpha> t"

section \<open>Graph updates keep the invariant\<close>

lemma registry_okI:
  assumes "\<And>i t p. vertices g i = Some (t, p) \<Longrightarrow> vertex_ok t p"
    and "\<And>k p. edges g k = Some p \<Longrightarrow> edge_ok E g k p"
  shows "registry_ok E g"
  using assms by (simp add: registry_ok_def)

lemma registry_ok_vertex: "registry_ok E g \<Longrightarrow> vertices g i = Some (t, p) \<Longrightarrow> vertex_ok t p"
  by (auto simp: registry_ok_def)

lemma registry_ok_edge: "registry_ok E g \<Longrightarrow> edges g k = Some p \<Longrightarrow> edge_ok E g k p"
  by (simp add: registry_ok_def)

lemma registry_ok_empty: "registry_ok E empty_graph"
  by (simp add: registry_ok_def empty_graph_def)

lemma registry_ok_versions: "registry_ok E g \<Longrightarrow> versions_ok E g i"
  by (fastforce simp: versions_ok_def version_values_def edge_ok_def dest: registry_ok_edge)

text \<open>An edge stays in order when vertices are only added and keep their types.\<close>

lemma edge_ok_mono:
  assumes "edge_ok E g k p" and "\<And>i t. type_at g i = Some t \<Longrightarrow> type_at g' i = Some t"
  shows "edge_ok E g' k p"
proof -
  have "dom (vertices g) \<subseteq> dom (vertices g')"
  proof
    fix i assume "i \<in> dom (vertices g)"
    then obtain t p where "vertices g i = Some (t, p)" by auto
    then have "type_at g' i = Some t" by (intro assms(2)) (simp add: type_at_def)
    then show "i \<in> dom (vertices g')" by (auto simp: type_at_def)
  qed
  with assms show ?thesis by (auto simp: edge_ok_def)
qed

lemma type_at_set_vertex [simp]: "type_at (set_vertex i t p g) = (type_at g)(i \<mapsto> t)"
  by (auto simp: type_at_def fun_eq_iff)

lemma type_at_set_edge [simp]: "type_at (set_edge k p g) = type_at g"
  by (simp add: type_at_def fun_eq_iff)

lemma type_at_put_property [simp]: "type_at (put_property i n v g) = type_at g"
  by (rule ext) (simp add: type_at_def vertices_put_property option.map_comp comp_def case_prod_beta)

lemma type_at_None_iff: "type_at g i = None \<longleftrightarrow> i \<notin> dom (vertices g)"
  by (auto simp: type_at_def)

lemma registry_ok_set_vertex:
  assumes g: "registry_ok E g" and new: "i \<notin> dom (vertices g)" and v: "vertex_ok t p"
  shows "registry_ok E (set_vertex i t p g)"
proof (rule registry_okI, goal_cases)
  case (1 j u q)
  then show ?case using g v by (auto dest: registry_ok_vertex split: if_splits)
next
  case (2 k q)
  then have "edge_ok E g k q" using g by (simp add: registry_ok_edge)
  then show ?case
    by (rule edge_ok_mono) (use new in \<open>auto simp: type_at_def\<close>)
qed

lemma registry_ok_set_edge:
  assumes g: "registry_ok E g" and e: "edge_ok E g k p"
  shows "registry_ok E (set_edge k p g)"
proof (rule registry_okI, goal_cases)
  case (1 j u q)
  then show ?case using g by (auto dest: registry_ok_vertex)
next
  case (2 k' q)
  show ?case
  proof (cases "k' = k")
    case False
    with 2 have "edge_ok E g k' q" using g by (simp add: registry_ok_edge)
    then show ?thesis by (rule edge_ok_mono) simp
  next
    case True
    with 2 have q: "q = (case edges g k of None \<Rightarrow> p | Some q' \<Rightarrow> q' ++ p)" by simp
    have "edge_ok E g k q"
    proof (cases "edges g k")
      case None
      with q e show ?thesis by simp
    next
      case (Some q')
      with q e registry_ok_edge [OF g Some] show ?thesis
        by (cases "p ''VERSION''") (auto simp: edge_ok_def map_add_def)
    qed
    then show ?thesis unfolding True by (rule edge_ok_mono) simp
  qed
qed

text \<open>Writing a value of the right form under one of the registry's names.\<close>

definition value_ok :: "string \<Rightarrow> json \<Rightarrow> bool" where
  "value_ok n j \<longleftrightarrow>
     (n \<in> {''SCHEMA_NAME'', ''SCHEMA_TOPIC_NAME'', ''SCHEMA_QUERY_ADDRESS'', ''VIEW_NAME'', ''JMESPATH''}
        \<longrightarrow> as_str j \<noteq> None) \<and>
     (n = ''SCHEMA_TYPE'' \<longrightarrow> schema_type_from_value j \<noteq> None)"

lemma decode_defined_iff:
  "schema_decode p \<noteq> None \<longleftrightarrow> Option.bind (p ''SCHEMA_NAME'') as_str \<noteq> None \<and>
     Option.bind (p ''SCHEMA_TOPIC_NAME'') as_str \<noteq> None \<and>
     Option.bind (p ''SCHEMA_QUERY_ADDRESS'') as_str \<noteq> None \<and>
     Option.bind (p ''SCHEMA_TYPE'') schema_type_from_value \<noteq> None"
  "view_decode p \<noteq> None \<longleftrightarrow> Option.bind (p ''VIEW_NAME'') as_str \<noteq> None \<and>
     Option.bind (p ''JMESPATH'') as_str \<noteq> None"
  "definition_decode p \<noteq> None \<longleftrightarrow> p ''DEFINITION'' \<noteq> None"
  by (auto simp: schema_decode_def view_decode_def definition_decode_def split: option.splits)

lemma bind_upd:
  "Option.bind (p m) f \<noteq> None \<Longrightarrow> (n = m \<Longrightarrow> f j \<noteq> None) \<Longrightarrow> Option.bind ((p(n \<mapsto> j)) m) f \<noteq> None"
  by (cases "n = m") auto

lemma vertex_ok_upd:
  assumes t: "vertex_ok t p" and j: "value_ok n j"
  shows "vertex_ok t (p(n \<mapsto> j))"
proof -
  have "schema_decode p \<noteq> None \<Longrightarrow> schema_decode (p(n \<mapsto> j)) \<noteq> None"
    unfolding decode_defined_iff by (intro conjI; rule bind_upd) (use j in \<open>auto simp: value_ok_def\<close>)
  moreover have "view_decode p \<noteq> None \<Longrightarrow> view_decode (p(n \<mapsto> j)) \<noteq> None"
    unfolding decode_defined_iff by (intro conjI; rule bind_upd) (use j in \<open>auto simp: value_ok_def\<close>)
  moreover have "definition_decode p \<noteq> None \<Longrightarrow> definition_decode (p(n \<mapsto> j)) \<noteq> None"
    unfolding decode_defined_iff by simp
  ultimately show ?thesis using t unfolding vertex_ok_def by blast
qed

lemma registry_ok_put_property:
  assumes g: "registry_ok E g" and j: "value_ok n j"
  shows "registry_ok E (put_property i n j g)"
proof (rule registry_okI, goal_cases)
  case (1 k t p)
  then show ?case
    using g j by (auto simp: vertices_put_property intro: vertex_ok_upd dest: registry_ok_vertex split: if_splits)
next
  case (2 k p)
  then have "edge_ok E g k p" using g by (simp add: registry_ok_edge)
  then show ?case by (rule edge_ok_mono) simp
qed

lemma registry_ok_put_properties:
  "registry_ok E g \<Longrightarrow> (\<And>n j. (n, j) \<in> set ps \<Longrightarrow> value_ok n j) \<Longrightarrow>
     registry_ok E (fold (\<lambda>(n, j). put_property i n j) ps g)"
  by (induction ps arbitrary: g) (auto intro!: registry_ok_put_property)

lemma decode_into_ok:
  "schema_decode (map_of (schema_into_properties s)) = Some s"
  "view_decode (map_of (view_into_properties v)) = Some v"
  "definition_decode (map_of (definition_into_properties d)) = Some d"
  using schema_codec.decode_into [of s, OF map_le_refl] view_codec.decode_into [of v, OF map_le_refl]
    definition_codec.decode_into [of d, OF map_le_refl]
  by (simp_all add: Schema_def View_def Definition_def)

lemma vertex_ok_into [simp]:
  "vertex_ok ''SCHEMA'' (map_of (schema_into_properties s))"
  "vertex_ok ''VIEW'' (map_of (view_into_properties v))"
  "vertex_ok ''DEFINITION'' (map_of (definition_into_properties d))"
  "vertex_ok ''DEFINITION'' [''DEFINITION'' \<mapsto> j]"
  by (simp_all add: vertex_ok_def decode_into_ok) (simp add: definition_decode_def)

lemma vertices_with_schema [simp]:
  "vertices (with_schema i sch g) = (vertices g)(i \<mapsto> (''SCHEMA'', map_of (schema_into_properties sch)))"
  by (simp add: with_schema_def)

lemma registry_ok_with_schema:
  "registry_ok E g \<Longrightarrow> i \<notin> dom (vertices g) \<Longrightarrow> registry_ok E (with_schema i sch g)"
  by (simp add: with_schema_def registry_ok_set_vertex)

lemma registry_ok_with_version:
  assumes "registry_ok E g" "i \<in> dom (vertices g)" "d \<notin> dom (vertices g)"
    and "version_from_value E (version_to_value E v) = Some v"
  shows "registry_ok E (with_version E i d v j g)"
  unfolding with_version_def
  by (rule registry_ok_set_edge [OF registry_ok_set_vertex]) (use assms in \<open>auto simp: edge_ok_def\<close>)

lemma registry_ok_with_view:
  assumes "registry_ok E g" "i \<in> dom (vertices g)" "w \<notin> dom (vertices g)"
  shows "registry_ok E (with_view i w v g)"
  unfolding with_view_def
  by (rule registry_ok_set_edge [OF registry_ok_set_vertex]) (use assms in \<open>auto simp: edge_ok_def\<close>)

section \<open>Importing\<close>

text \<open>What the loops of \<open>import_all\<close> do to the graph.\<close>

definition import_vertices :: "'a vertex_trait \<Rightarrow> (uuid \<times> 'a) list \<Rightarrow> graph \<Rightarrow> graph" where
  "import_vertices V xs g =
     fold (\<lambda>(i, x). set_vertex i (db_type V) (map_of (into_properties V x))) xs g"

definition import_edge :: "'a edge_trait \<Rightarrow> 'a \<Rightarrow> graph \<Rightarrow> graph" where
  "import_edge T x g =
     (case edge_info T x of (k, props) \<Rightarrow>
        if outbound_id k \<in> dom (vertices g) \<and> inbound_id k \<in> dom (vertices g)
        then set_edge k (map_of props) g else g)"

abbreviation create_all ::
  "('s, 'v, 'r) crates \<Rightarrow> 'a vertex_trait \<Rightarrow> (uuid \<times> 'a) list \<Rightarrow> ('s, 'v, 'r, unit) db_op" where
  "create_all E V xs \<equiv> forE xs (\<lambda>(i, x).
     thenE (create_vertex_with_properties E V x (Some i)) (returnE ()))"

lemma import_vertices_simps [simp]:
  "import_vertices V [] g = g"
  "import_vertices V ((i, x) # xs) g =
     import_vertices V xs (set_vertex i (db_type V) (map_of (into_properties V x)) g)"
  by (simp_all add: import_vertices_def)

lemma edges_import_vertices [simp]: "edges (import_vertices V xs g) = edges g"
  by (induction xs arbitrary: g) auto

lemma vertices_import_vertices:
  "distinct (map fst xs) \<Longrightarrow> vertices (import_vertices V xs g) =
     vertices g ++ (\<lambda>i. map_option (\<lambda>x. (db_type V, map_of (into_properties V x))) (map_of xs i))"
proof (induction xs arbitrary: g)
  case (Cons ix xs)
  obtain i x where ix: "ix = (i, x)" by (cases ix)
  with Cons.prems have "map_of xs i = None" by (simp add: map_of_eq_None_iff)
  with Cons ix show ?case by (auto simp: map_add_def fun_eq_iff split: option.splits)
qed (simp add: map_add_def)

lemma vertices_import_edge [simp]: "vertices (import_edge T x g) = vertices g"
  by (simp add: import_edge_def split: prod.splits)

lemma vertices_fold_import_edge [simp]: "vertices (fold (import_edge T) xs g) = vertices g"
  by (induction xs arbitrary: g) auto

lemma type_at_import:
  "distinct (map fst xs) \<Longrightarrow> type_at (import_vertices V xs g) i =
     (if i \<in> fst ` set xs then Some (db_type V) else type_at g i)"
  by (auto simp: type_at_def vertices_import_vertices map_add_def map_of_eq_None_iff option.map_comp
      comp_def split: option.splits dest: map_of_SomeD) force+

context registry_env
begin

lemma create_all_Cons:
  "create_all E V ((i, x) # xs) s = (Inr u, t) \<longleftrightarrow>
     (\<exists>i' s'. create_vertex_with_properties E V x (Some i) s = (Inr i', s') \<and> create_all E V xs s' = (Inr u, t))"
  by (simp only: forE.simps prod.case thenE_Inr_iff returnE_apply prod.inject) blast

lemma create_all_ok:
  assumes dist: "\<And>x. distinct (map fst (into_properties V x))"
  shows "create_all E V xs s = (Inr u, t) \<Longrightarrow>
    distinct (map fst xs) \<and> fst ` set xs \<inter> dom (vertices (\<alpha> s)) = {} \<and> \<alpha> t = import_vertices V xs (\<alpha> s)"
proof (induction xs arbitrary: s)
  case (Cons ix xs)
  obtain i x where ix: "ix = (i, x)" by (cases ix)
  from Cons.prems obtain i' s' where c: "create_vertex_with_properties E V x (Some i) s = (Inr i', s')"
    and rest: "create_all E V xs s' = (Inr u, t)"
    unfolding ix create_all_Cons by blast
  from create_vertex_with_properties_ok [OF c dist] have
    "i \<notin> dom (vertices (\<alpha> s))" "\<alpha> s' = set_vertex i (db_type V) (map_of (into_properties V x)) (\<alpha> s)" by auto
  with Cons.IH [OF rest] ix show ?case by auto
qed simp

lemma create_all_safe:
  assumes dist: "\<And>x. distinct (map fst (into_properties V x))"
    and vok: "\<And>x. vertex_ok (db_type V) (map_of (into_properties V x))"
  shows "create_all E V xs s = (r, t) \<Longrightarrow> settled r \<Longrightarrow> registry_ok E (\<alpha> s) \<Longrightarrow> registry_ok E (\<alpha> t)"
proof (induction xs arbitrary: s)
  case (Cons ix xs)
  obtain i x where ix: "ix = (i, x)" by (cases ix)
  obtain r1 s1 where c: "create_vertex_with_properties E V x (Some i) s = (r1, s1)" by fastforce
  have "settled r1" using Cons.prems ix c by auto
  from create_vertex_effect [OF c this dist] show ?case
  proof (elim disjE exE conjE, goal_cases)
    case (1 j)
    with Cons.prems vok have "registry_ok E (\<alpha> s1)" by (simp add: registry_ok_set_vertex)
    then show ?case using 1 Cons ix c by (auto simp: thenE_Inr [of _ s1])
  next
    case (2 u)
    with Cons.prems ix c show ?case by auto
  qed
qed simp

lemma set_edge_properties_import:
  assumes run: "set_edge_properties E T x s = (Inr u, t)"
    and dist: "distinct (map fst (snd (edge_info T x)))" and ok: "registry_ok E (\<alpha> s)"
  shows "\<alpha> t = import_edge T x (\<alpha> s)"
proof -
  obtain k props where info: "edge_info T x = (k, props)" by fastforce
  show ?thesis
  proof (cases "outbound_id k \<in> dom (vertices (\<alpha> s)) \<and> inbound_id k \<in> dom (vertices (\<alpha> s))")
    case True
    with set_edge_properties_ok [OF run info] dist info show ?thesis by (simp add: import_edge_def)
  next
    case False
    then have "edges (\<alpha> s) k = None" using ok by (metis registry_ok_edge edge_ok_def option.exhaust)
    with set_edge_properties_missing [OF run info] False info show ?thesis by (auto simp: import_edge_def)
  qed
qed

lemma forE_edges_ok:
  assumes dist: "\<And>x. distinct (map fst (snd (edge_info T x)))"
    and eok: "\<And>x g. x \<in> set xs \<Longrightarrow> registry_ok E g \<Longrightarrow> vertices g = vs \<Longrightarrow> registry_ok E (import_edge T x g)"
  shows "forE xs (set_edge_properties E T) s = (r, t) \<Longrightarrow> settled r \<Longrightarrow> registry_ok E (\<alpha> s) \<Longrightarrow>
    vertices (\<alpha> s) = vs \<Longrightarrow> r = Inr () \<and> \<alpha> t = fold (import_edge T) xs (\<alpha> s) \<and> registry_ok E (\<alpha> t)"
  using eok
proof (induction xs arbitrary: s)
  case (Cons x xs)
  obtain r1 s1 where c: "set_edge_properties E T x s = (r1, s1)" by fastforce
  have r1: "r1 = Inr ()" using Cons.prems(1,2) c by (cases r1) (auto dest: set_edge_properties_err)
  with set_edge_properties_import [OF c [unfolded r1] dist Cons.prems(3)]
  have s1: "\<alpha> s1 = import_edge T x (\<alpha> s)" by simp
  have "registry_ok E (\<alpha> s1)" using Cons.prems s1 by simp
  moreover have "forE xs (set_edge_properties E T) s1 = (r, t)" using Cons.prems(1) c r1 by simp
  ultimately show ?case using Cons.IH [of s1] Cons.prems(2-) s1 by (metis fold_simps(2) list.set_intros(2) vertices_import_edge)
qed simp

lemma yields_get_all_schema_names:
  assumes lim: "within_limit (\<alpha> s)" and ok: "registry_ok E (\<alpha> s)"
  shows "yields (get_all_schema_names E) s (\<lambda>r. \<exists>ns. r = Inr ns \<and> distinct (map fst ns) \<and>
    map_of ns = (\<lambda>i. if type_at (\<alpha> s) i = Some ''SCHEMA'' then map_option s_name (schema_at (\<alpha> s) i) else None))"
    (is "yields _ _ (\<lambda>r. \<exists>ns. r = Inr ns \<and> _ \<and> map_of ns = ?f)")
  unfolding get_all_schema_names_def
proof (rule yields_connect_thenE)
  fix t assume t: "\<alpha> t = \<alpha> s"
  define dec :: "uuid \<times> json \<Rightarrow> (('v, 'r) registry_error, uuid \<times> string) result" where
    "dec = (\<lambda>(schema_id, value). map_err (\<lambda>_::unit. MalformedError (MalformedSchema schema_id))
      (ok_or () (map_option (Pair schema_id) (as_str value))))"
  show "yields (bindE (dbE (get_vertex_properties (db E) (RangeVertexQuery u32_max (Some (db_type Schema))) ''SCHEMA_NAME''))
      (\<lambda>all_names. liftR (bindR (collectR (map dec all_names)) (\<lambda>xs. Inr (hash_collect xs))))) t
    (\<lambda>r. \<exists>ns. r = Inr ns \<and> distinct (map fst ns) \<and> map_of ns = ?f)"
  proof (rule yields_bindE [OF keeps_dbE_reads(2) yields_dbE [where P = "\<lambda>r. \<exists>ps. r = Inr ps \<and>
      set ps = {(i, j). \<exists>p. vertices (\<alpha> s) i = Some (''SCHEMA'', p) \<and> p ''SCHEMA_NAME'' = Some j}"]], goal_cases)
    case (1 ps u)
    from get_vertex_properties_ok [OF 1] lim t show ?case by auto
  next
    case (2 ps u)
    then have ps: "set ps = {(i, j). \<exists>p. vertices (\<alpha> s) i = Some (''SCHEMA'', p) \<and> p ''SCHEMA_NAME'' = Some j}"
      by auto
    define xs where "xs = map (\<lambda>(i, j). (i, the (as_str j))) ps"
    have name: "\<exists>n. j = JString n \<and> ?f i = Some n" if "(i, j) \<in> set ps" for i j
    proof -
      from that ps obtain p where p: "vertices (\<alpha> s) i = Some (''SCHEMA'', p)" "p ''SCHEMA_NAME'' = Some j" by auto
      with registry_ok_vertex [OF ok p(1)] show ?thesis
        by (cases j) (auto simp: vertex_ok_def type_at_def schema_at_def schema_decode_def split: option.splits)
    qed
    have "map dec ps = map Inr xs"
      using name by (fastforce simp: dec_def xs_def map_err_def ok_or_def)
    moreover have "map_of (rev xs) = ?f"
    proof (rule map_of_functional)
      show "?f i = Some n" if "(i, n) \<in> set (rev xs)" for i n
      proof -
        from that obtain j where "(i, j) \<in> set ps" "n = the (as_str j)" by (auto simp: xs_def)
        with name [of i j] show ?thesis by (metis as_str.simps(1) option.sel)
      qed
      have "fst ` set (rev xs) = fst ` set ps" by (force simp: xs_def)
      also have "\<dots> = dom ?f"
      proof (intro set_eqI iffI)
        fix i assume "i \<in> fst ` set ps"
        then obtain j where "(i, j) \<in> set ps" by auto
        with name show "i \<in> dom ?f" by blast
      next
        fix i assume "i \<in> dom ?f"
        then obtain p sch where "vertices (\<alpha> s) i = Some (''SCHEMA'', p)" "schema_decode p = Some sch"
          by (auto simp: type_at_def schema_at_def split: if_splits option.splits)
        then have "\<exists>j. (i, j) \<in> set ps"
          by (auto simp: ps schema_decode_def bind_eq_Some_conv split: option.splits)
        then show "i \<in> fst ` set ps" by force
      qed
      finally show "fst ` set (rev xs) = dom ?f" .
    qed
    ultimately show ?case
      by (simp add: yields_def map_of_hash_collect distinct_hash_collect)
  qed auto
qed

text \<open>The graph an import leaves behind.\<close>

abbreviation import_graph :: "'v db_export \<Rightarrow> graph \<Rightarrow> graph" where
  "import_graph ex g \<equiv>
     fold (import_edge SchemaView) (ex_schema_views ex)
       (fold (import_edge (SchemaDefinitionEdge E)) (ex_schema_definitions ex)
         (import_vertices View (ex_views ex)
           (import_vertices Definition (ex_definitions ex)
             (import_vertices Schema (ex_schemas ex) g))))"

lemma into_ok:
  "vertex_ok (db_type Schema) (map_of (into_properties Schema x))"
  "vertex_ok (db_type Definition) (map_of (into_properties Definition y))"
  "vertex_ok (db_type View) (map_of (into_properties View z))"
  using vertex_ok_into by (simp_all add: Schema_def Definition_def View_def)

lemma import_edge_ok:
  assumes "registry_ok E g"
  shows "type_at g (sd_definition_id e) = Some ''DEFINITION'' \<Longrightarrow>
      registry_ok E (import_edge (SchemaDefinitionEdge E) e g)"
    and "type_at g (sv_view_id e') = Some ''VIEW'' \<Longrightarrow> registry_ok E (import_edge SchemaView e' g)"
  using assms
  by (auto simp: import_edge_def SchemaDefinitionEdge_def SchemaView_def edge_ok_def version_roundtrip
      intro!: registry_ok_set_edge)

lemma distinct_edge_info:
  "distinct (map fst (snd (edge_info (SchemaDefinitionEdge E) x)))" "distinct (map fst (snd (edge_info SchemaView y)))"
  by (simp_all add: SchemaDefinitionEdge_def SchemaView_def)

lemma import_edge_loops:
  assumes run: "thenE (forE des (set_edge_properties E (SchemaDefinitionEdge E)))
      (forE ves (set_edge_properties E SchemaView)) s = (r, t)"
    and r: "settled r" and ok: "registry_ok E (\<alpha> s)"
    and des: "\<And>e. e \<in> set des \<Longrightarrow> type_at (\<alpha> s) (sd_definition_id e) = Some ''DEFINITION''"
    and ves: "\<And>e. e \<in> set ves \<Longrightarrow> type_at (\<alpha> s) (sv_view_id e) = Some ''VIEW''"
  shows "r = Inr () \<and> registry_ok E (\<alpha> t) \<and>
    \<alpha> t = fold (import_edge SchemaView) ves (fold (import_edge (SchemaDefinitionEdge E)) des (\<alpha> s))"
proof -
  obtain r1 s1 where 1: "forE des (set_edge_properties E (SchemaDefinitionEdge E)) s = (r1, s1)" by fastforce
  have st1: "settled r1" using run 1 r by auto
  have e1: "registry_ok E (import_edge (SchemaDefinitionEdge E) x g)"
    if "x \<in> set des" "registry_ok E g" "vertices g = vertices (\<alpha> s)" for x g
    using des [OF that(1)] that by (intro import_edge_ok(1)) (simp_all add: type_at_def)
  have 11: "r1 = Inr ()" "\<alpha> s1 = fold (import_edge (SchemaDefinitionEdge E)) des (\<alpha> s)" "registry_ok E (\<alpha> s1)"
    using forE_edges_ok [OF distinct_edge_info(1) e1 1 st1 ok] by auto
  have 2: "forE ves (set_edge_properties E SchemaView) s1 = (r, t)" using run 1 11 by simp
  have vs: "vertices (\<alpha> s1) = vertices (\<alpha> s)" using 11 by simp
  have e2: "registry_ok E (import_edge SchemaView x g)"
    if "x \<in> set ves" "registry_ok E g" "vertices g = vertices (\<alpha> s)" for x g
    using ves [OF that(1)] that by (intro import_edge_ok(2)) (simp_all add: type_at_def)
  note last = forE_edges_ok [OF distinct_edge_info(2) e2 2 r 11(3) vs]
  show ?thesis using last unfolding 11(2) by blast
qed

lemma import_loops:
  assumes run: "thenE (create_all E Schema (ex_schemas ex))
         (thenE (create_all E Definition (ex_definitions ex))
         (thenE (create_all E View (ex_views ex))
         (thenE (forE (ex_schema_definitions ex) (set_edge_properties E (SchemaDefinitionEdge E)))
         (forE (ex_schema_views ex) (set_edge_properties E SchemaView))))) s = (r, t)"
    and r: "settled r" and ok: "registry_ok E (\<alpha> s)" and cok: "call_ok (CallImportAll ex)"
  shows "registry_ok E (\<alpha> t) \<and> (r = Inr () \<longrightarrow> \<alpha> t = import_graph ex (\<alpha> s) \<and>
    distinct (map fst (ex_schemas ex)) \<and> distinct (map fst (ex_definitions ex)) \<and>
    distinct (map fst (ex_views ex)))"
proof -
  note safe = create_all_safe [OF schema_codec.distinct_into into_ok(1)]
    create_all_safe [OF definition_codec.distinct_into into_ok(2)]
    create_all_safe [OF view_codec.distinct_into into_ok(3)]
  obtain r1 s1 where 1: "create_all E Schema (ex_schemas ex) s = (r1, s1)" by fastforce
  have st1: "settled r1" using run 1 r by auto
  note ok1 = safe(1) [OF 1 st1 ok]
  show ?thesis
  proof (cases r1)
    case (Inl e)
    with run 1 ok1 show ?thesis by auto
  next
    case i1: (Inr u1)
    obtain r2 s2 where 2: "create_all E Definition (ex_definitions ex) s1 = (r2, s2)" by fastforce
    have st2: "settled r2" using run 1 i1 2 r by auto
    note ok2 = safe(2) [OF 2 st2 ok1]
    show ?thesis
    proof (cases r2)
      case (Inl e)
      with run 1 i1 2 ok2 show ?thesis by auto
    next
      case i2: (Inr u2)
      obtain r3 s3 where 3: "create_all E View (ex_views ex) s2 = (r3, s3)" by fastforce
      have st3: "settled r3" using run 1 i1 2 i2 3 r by auto
      note ok3 = safe(3) [OF 3 st3 ok2]
      show ?thesis
      proof (cases r3)
        case (Inl e)
        with run 1 i1 2 i2 3 ok3 show ?thesis by auto
      next
        case i3: (Inr u3)
        have run3: "thenE (forE (ex_schema_definitions ex) (set_edge_properties E (SchemaDefinitionEdge E)))
            (forE (ex_schema_views ex) (set_edge_properties E SchemaView)) s3 = (r, t)"
          using run 1 i1 2 i2 3 i3 by simp
        note c = create_all_ok [OF schema_codec.distinct_into 1 [unfolded i1]]
          create_all_ok [OF definition_codec.distinct_into 2 [unfolded i2]]
          create_all_ok [OF view_codec.distinct_into 3 [unfolded i3]]
        have views: "type_at (\<alpha> s3) i = Some ''VIEW''" if "i \<in> fst ` set (ex_views ex)" for i
          using c(3) type_at_import [of "ex_views ex" View "\<alpha> s2" i] that by simp
        have defs: "type_at (\<alpha> s3) i = Some ''DEFINITION''" if "i \<in> fst ` set (ex_definitions ex)" for i
        proof -
          have "type_at (\<alpha> s2) i = Some ''DEFINITION''"
            using c(2) type_at_import [of "ex_definitions ex" Definition "\<alpha> s1" i] that by simp
          moreover from this have "i \<in> dom (vertices (\<alpha> s2))" using type_at_None_iff [of "\<alpha> s2" i] by auto
          ultimately show ?thesis
            using c(3) type_at_import [of "ex_views ex" View "\<alpha> s2" i] by (metis disjoint_iff)
        qed
        have "r = Inr () \<and> registry_ok E (\<alpha> t) \<and> \<alpha> t = fold (import_edge SchemaView) (ex_schema_views ex)
            (fold (import_edge (SchemaDefinitionEdge E)) (ex_schema_definitions ex) (\<alpha> s3))"
          using import_edge_loops [OF run3 r ok3] cok views defs by auto
        then show ?thesis using c by metis
      qed
    qed
  qed
qed

text \<open>
  An import does nothing when a schema is stored, and otherwise adds exactly the file's vertices
  and edges or stops at a duplicated identifier; the graph stays in order either way.
\<close>

lemma import_all_effect:
  assumes run: "import_all E ex s = (r, t)" and r: "settled r" and lim: "within_limit (\<alpha> s)"
    and ok: "registry_ok E (\<alpha> s)" and cok: "call_ok (CallImportAll ex)"
  shows "registry_ok E (\<alpha> t) \<and>
    (if \<exists>i. type_at (\<alpha> s) i = Some ''SCHEMA'' then r = Inr () \<and> \<alpha> t = \<alpha> s
     else r = Inr () \<longrightarrow> \<alpha> t = import_graph ex (\<alpha> s) \<and>
       distinct (map fst (ex_schemas ex)) \<and> distinct (map fst (ex_definitions ex)) \<and>
       distinct (map fst (ex_views ex)))"
proof -
  obtain r0 s0 where n: "get_all_schema_names E s = (r0, s0)" by fastforce
  have "settled r0" using run n r by (auto simp: import_all_def)
  with yields_settled [OF yields_get_all_schema_names [OF lim ok] n] obtain ns where
    ns: "r0 = Inr ns" "map_of ns = (\<lambda>i. if type_at (\<alpha> s) i = Some ''SCHEMA''
      then map_option s_name (schema_at (\<alpha> s) i) else None)" by auto
  have s0: "\<alpha> s0 = \<alpha> s" using keepsD [OF keeps_get_all_schema_names n] .
  have "schema_at (\<alpha> s) i \<noteq> None" if "type_at (\<alpha> s) i = Some ''SCHEMA''" for i
    using that registry_ok_vertex [OF ok, of i]
    by (auto simp: type_at_def schema_at_def vertex_ok_def)
  then have "ns = [] \<longleftrightarrow> (\<forall>i. type_at (\<alpha> s) i \<noteq> Some ''SCHEMA'')"
    using ns(2) by (cases ns) (auto simp: fun_eq_iff split: if_splits)
  show ?thesis
  proof (cases "ns = []")
    case False
    with run n ns s0 ok \<open>ns = [] \<longleftrightarrow> _\<close> show ?thesis by (auto simp: import_all_def)
  next
    case True
    define loops where "loops = thenE (create_all E Schema (ex_schemas ex))
         (thenE (create_all E Definition (ex_definitions ex))
         (thenE (create_all E View (ex_views ex))
         (thenE (forE (ex_schema_definitions ex) (set_edge_properties E (SchemaDefinitionEdge E)))
         (forE (ex_schema_views ex) (set_edge_properties E SchemaView)))))"
    have loops: "loops s0 = (r, t)" using run n ns True by (simp add: import_all_def loops_def)
    have "registry_ok E (\<alpha> t) \<and> (r = Inr () \<longrightarrow> \<alpha> t = import_graph ex (\<alpha> s) \<and>
       distinct (map fst (ex_schemas ex)) \<and> distinct (map fst (ex_definitions ex)) \<and>
       distinct (map fst (ex_views ex)))"
      using import_loops [OF loops [unfolded loops_def] r] ok cok s0 by simp
    with True \<open>ns = [] \<longleftrightarrow> _\<close> show ?thesis by simp
  qed
qed

end

end
