(* ===== verification/Registry_Machine.thy ===== *)
theory Registry_Machine
  imports Registry_Invariant
begin

text \<open>
  The registry as a state machine: every writing method keeps the invariant, so every reachable
  state meets it, and the readers are total on reachable states.
\<close>

section \<open>Updating views\<close>

definition view_update_properties :: "view_update \<Rightarrow> properties" where
  "view_update_properties u =
     (case vu_name u of Some n \<Rightarrow> [(''VIEW_NAME'', JString n)] | None \<Rightarrow> []) @
     (case vu_jmespath u of Some j \<Rightarrow> [(''JMESPATH'', JString j)] | None \<Rightarrow> [])"

definition apply_view_update :: "view_update \<Rightarrow> view \<Rightarrow> view" where
  "apply_view_update u v =
     \<lparr>view_name = (case vu_name u of Some n \<Rightarrow> n | None \<Rightarrow> view_name v),
      view_jmespath = (case vu_jmespath u of Some j \<Rightarrow> j | None \<Rightarrow> view_jmespath v)\<rparr>"

lemma value_ok_simps [simp]:
  "value_ok ''SCHEMA_NAME'' (JString v)" "value_ok ''SCHEMA_TOPIC_NAME'' (JString v)"
  "value_ok ''SCHEMA_QUERY_ADDRESS'' (JString v)" "value_ok ''VIEW_NAME'' (JString v)"
  "value_ok ''JMESPATH'' (JString v)" "value_ok ''SCHEMA_TYPE'' (JString (schema_type_to_string ty))"
  by (simp_all add: value_ok_def)

lemma value_ok_view_update: "(n, j) \<in> set (view_update_properties u) \<Longrightarrow> value_ok n j"
  by (auto simp: view_update_properties_def split: option.splits)

lemma view_at_put_view_update:
  assumes "view_at g i = Some v"
  shows "view_at (fold (\<lambda>(n, j). put_property i n j) (view_update_properties u) g) i =
    Some (apply_view_update u v)"
proof -
  from assms obtain p where p: "vertices g i = Some (''VIEW'', p)" "view_decode p = Some v"
    by (auto simp: view_at_def split: option.splits if_splits)
  then show ?thesis
    by (auto simp: view_at_def fold_put_property view_update_properties_def apply_view_update_def
        view_decode_def split: option.splits)
qed

context registry_env
begin

lemma optional_put_effect:
  assumes run: "(case x of Some v \<Rightarrow> set_vertex_properties E i [(n, JString v)] | None \<Rightarrow> returnE ()) s = (r, t)"
    and r: "settled r"
  shows "r = Inr () \<and> \<alpha> t = fold (\<lambda>(n, j). put_property i n j)
    (case x of Some v \<Rightarrow> [(n, JString v)] | None \<Rightarrow> []) (\<alpha> s)"
proof (cases x)
  case None
  then show ?thesis using run by simp
next
  case (Some v)
  with run r have "r = Inr ()" by (cases r) (auto dest: set_vertex_properties_err)
  with run Some set_vertex_properties_ok [of i "[(n, JString v)]" s "()" t] show ?thesis by simp
qed

lemma update_view_effect:
  assumes run: "update_view E i u s = (r, t)" and r: "settled r" and lim: "within_limit (\<alpha> s)"
  shows "(\<exists>old. r = Inr old \<and> view_at (\<alpha> s) i = Some old \<and>
            \<alpha> t = fold (\<lambda>(n, j). put_property i n j) (view_update_properties u) (\<alpha> s)) \<or>
         ((\<exists>e. r = Inl e) \<and> \<alpha> t = \<alpha> s)"
proof -
  obtain r1 s1 where g: "get_view E i s = (r1, s1)" by fastforce
  have "settled r1" using run g r by (auto simp: update_view_def)
  note r1 = yields_settled [OF yields_get_view [OF lim] g this]
  have s1: "\<alpha> s1 = \<alpha> s" using keepsD [OF keeps_get_view g] .
  obtain r2 s2 where v: "(case vu_jmespath u of Some jmespath \<Rightarrow> validate_view E jmespath
      | None \<Rightarrow> returnE ()) s1 = (r2, s2)" by fastforce
  have s2: "s2 = s1" using v by (auto simp: validate_view_def split: option.splits)
  show ?thesis
  proof (cases "\<exists>old. r1 = Inr old \<and> r2 = Inr ()")
    case False
    with run g v s1 s2 show ?thesis
      by (cases r1; cases r2) (auto simp: update_view_def thenE_def bindE_def)
  next
    case True
    then obtain old where old: "r1 = Inr old" "r2 = Inr ()" by auto
    with r1 have view: "view_at (\<alpha> s) i = Some old"
      by (auto simp: ok_or_def split: option.splits if_splits)
    obtain r3 s3 where n: "(case vu_name u of
               Some name \<Rightarrow> set_vertex_properties E i [(''VIEW_NAME'', JString name)]
             | None \<Rightarrow> returnE ()) s1 = (r3, s3)" by fastforce
    have "settled r3" using run g v old s2 n r by (auto simp: update_view_def)
    note n' = optional_put_effect [OF n this]
    obtain r4 s4 where j: "(case vu_jmespath u of
               Some j \<Rightarrow> set_vertex_properties E i [(''JMESPATH'', JString j)]
             | None \<Rightarrow> returnE ()) s3 = (r4, s4)" by fastforce
    have "settled r4" using run g v old s2 n n' j r by (auto simp: update_view_def)
    note j' = optional_put_effect [OF j this]
    have "r = Inr old" "t = s4" using run g v old s2 n n' j j' by (auto simp: update_view_def)
    with view n' j' s1 show ?thesis by (simp add: view_update_properties_def)
  qed
qed

section \<open>Every call keeps the invariant\<close>

lemma discard_run:
  assumes "discard m s = (r, t)"
  obtains q where "m s = (q, t)" "r = map_sum (\<lambda>e. e) (\<lambda>_. ()) q"
  using assms by (cases "m s"; cases "fst (m s)") (auto simp: discard_def)

lemma settled_discard: "settled (map_sum (\<lambda>e. e) f q) \<longleftrightarrow> settled q"
  by (cases q) auto

lemma exec_update_ok:
  assumes "update_schema_property E n i v s = (r, t)" "settled r" "within_limit (\<alpha> s)" "registry_ok E (\<alpha> s)"
    "value_ok n (JString v)"
  shows "registry_ok E (\<alpha> t)"
  using update_schema_property_effect [OF assms(1-3)] assms(4,5) registry_ok_put_property
  by (auto split: if_splits)

lemma exec_ok:
  assumes run: "exec E c s = (r, t)" and r: "settled r" and lim: "within_limit (\<alpha> s)"
    and ok: "registry_ok E (\<alpha> s)" and cok: "call_ok c"
  shows "registry_ok E (\<alpha> t)"
proof (cases c)
  case (CallAddSchema ns uid)
  with run obtain q where q: "add_schema E ns uid s = (q, t)" "r = map_sum (\<lambda>e. e) (\<lambda>_. ()) q"
    by (auto elim: discard_run)
  with r have "settled q" by (simp only: settled_discard)
  from add_schema_effect [OF q(1) this] ok show ?thesis
    by (auto intro!: registry_ok_with_version registry_ok_with_schema simp: version_roundtrip)
next
  case (CallAddVersion i nv)
  then have "add_new_version_of_schema E i nv s = (r, t)" using run by simp
  from add_new_version_effect [OF this r lim registry_ok_versions [OF ok]] ok show ?thesis
    by (auto intro!: registry_ok_with_version simp: version_roundtrip)
next
  case (CallAddView i v uid)
  with run obtain q where q: "add_view_to_schema E i v uid s = (q, t)" "r = map_sum (\<lambda>e. e) (\<lambda>_. ()) q"
    by (auto elim: discard_run)
  with r have "settled q" by (simp only: settled_discard)
  from add_view_effect [OF q(1) this lim] ok show ?thesis
    by (auto intro!: registry_ok_with_view)
next
  case (CallUpdateView i u)
  with run obtain q where q: "update_view E i u s = (q, t)" "r = map_sum (\<lambda>e. e) (\<lambda>_. ()) q"
    by (auto elim: discard_run)
  with r have "settled q" by (simp only: settled_discard)
  from update_view_effect [OF q(1) this lim] ok show ?thesis
    by (auto intro!: registry_ok_put_properties dest: value_ok_view_update)
next
  case (CallImportAll ex)
  then show ?thesis using import_all_effect [OF _ r lim ok] run cok by simp
qed (use run in \<open>auto simp: update_schema_name_def update_schema_topic_def
    update_schema_query_address_def update_schema_type_def
    intro: exec_update_ok [OF _ r lim ok]\<close>)

lemma reachable_ok: "reachable E \<alpha> s \<Longrightarrow> registry_ok E (\<alpha> s)"
  by (induction rule: reachable.induct) (auto simp: registry_ok_empty intro: exec_ok)

lemma refused_no_change:
  assumes run: "exec E c s = (Inl e, t)" and e: "\<not> db_failure e" and lim: "within_limit (\<alpha> s)"
    and ok: "registry_ok E (\<alpha> s)" and c: "\<And>ex. c \<noteq> CallImportAll ex"
  shows "\<alpha> t = \<alpha> s"
proof -
  have upd: "update_schema_property E n i v s = (Inl e, t) \<Longrightarrow> ?thesis" for n i v
    using update_schema_property_effect [of n i v s "Inl e" t] e lim by (auto split: if_splits)
  have disc: "m s = (Inl e, t)" if "discard m s = (Inl e, t)" for m :: "('s, 'v, 'r, 'a) db_op"
    using that by (auto simp: discard_def thenE_Inl_iff)
  have "settled (Inl e :: (('v, 'r) registry_error, 'a) result)" using e by simp
  with run c show ?thesis
    by (cases c) (auto simp: update_schema_name_def update_schema_topic_def
        update_schema_query_address_def update_schema_type_def intro: upd e
        dest!: disc dest: add_schema_effect add_view_effect [OF _ _ lim] update_view_effect [OF _ _ lim]
          add_new_version_effect [OF _ _ lim registry_ok_versions [OF ok]])
qed

end

end
