(* ===== verification/Mem_Datastore.thy ===== *)
theory Mem_Datastore
  imports Datastore
begin

text \<open>
  An in-memory datastore over association lists: every call of the record \<open>datastore\<close> with
  all query forms and limits, and the proof that it meets the contract \<open>graph_datastore\<close>.
  Fresh identifiers are the smallest unused ones.
\<close>

record mem =
  mem_vertices :: "(uuid \<times> ds_type \<times> properties) list"
  mem_edges :: "(edge_key \<times> properties) list"

definition mem_empty :: mem where
  "mem_empty = \<lparr>mem_vertices = [], mem_edges = []\<rparr>"

definition mem_graph :: "mem \<Rightarrow> graph" where
  "mem_graph m =
     \<lparr>vertices = (\<lambda>i. map_option (\<lambda>(t, p). (t, map_of p)) (map_of (mem_vertices m) i)),
      edges = (\<lambda>k. map_option map_of (map_of (mem_edges m) k))\<rparr>"

definition vertex_ids :: "mem \<Rightarrow> uuid list" where
  "vertex_ids m = remdups (map fst (mem_vertices m))"

definition edge_keys :: "mem \<Rightarrow> edge_key list" where
  "edge_keys m = remdups (map fst (mem_edges m))"

definition vertex_type :: "mem \<Rightarrow> uuid \<Rightarrow> ds_type" where
  "vertex_type m i = (case map_of (mem_vertices m) i of None \<Rightarrow> [] | Some (t, _) \<Rightarrow> t)"

definition vertex_props :: "mem \<Rightarrow> uuid \<Rightarrow> properties" where
  "vertex_props m i = (case map_of (mem_vertices m) i of None \<Rightarrow> [] | Some (_, p) \<Rightarrow> AList.clearjunk p)"

definition edge_props :: "mem \<Rightarrow> edge_key \<Rightarrow> properties" where
  "edge_props m k = (case map_of (mem_edges m) k of None \<Rightarrow> [] | Some p \<Rightarrow> AList.clearjunk p)"

fun mem_vq :: "mem \<Rightarrow> vertex_query \<Rightarrow> uuid list"
  and mem_eq :: "mem \<Rightarrow> edge_query \<Rightarrow> edge_key list" where
  "mem_vq m (SpecificVertexQuery i) = filter (\<lambda>j. j = i) (vertex_ids m)"
| "mem_vq m (RangeVertexQuery n t) = take (unat n) (filter (\<lambda>i. t = None \<or> t = Some (vertex_type m i)) (vertex_ids m))"
| "mem_vq m (InboundVertexQuery q n) =
     take (unat n) (filter (\<lambda>i. i \<in> set (vertex_ids m)) (map inbound_id (mem_eq m q)))"
| "mem_eq m (SpecificEdgeQuery k) = filter (\<lambda>j. j = k) (edge_keys m)"
| "mem_eq m (OutboundEdgeQuery q n t) =
     take (unat n) (filter (\<lambda>k. e_t k = t \<and> outbound_id k \<in> set (mem_vq m q)) (edge_keys m))"

definition mem_put_vertex :: "string \<Rightarrow> json \<Rightarrow> uuid \<Rightarrow> mem \<Rightarrow> mem" where
  "mem_put_vertex n j i m =
     (case map_of (mem_vertices m) i of
        None \<Rightarrow> m
      | Some (t, p) \<Rightarrow> m\<lparr>mem_vertices := AList.update i (t, AList.update n j p) (mem_vertices m)\<rparr>)"

definition mem_put_edge :: "string \<Rightarrow> json \<Rightarrow> edge_key \<Rightarrow> mem \<Rightarrow> mem" where
  "mem_put_edge n j k m =
     (case map_of (mem_edges m) k of
        None \<Rightarrow> m
      | Some p \<Rightarrow> m\<lparr>mem_edges := AList.update k (AList.update n j p) (mem_edges m)\<rparr>)"

definition mem_create_vertex :: "vertex \<Rightarrow> (mem, db_error, bool) op" where
  "mem_create_vertex v m =
     (if v_id v \<in> set (vertex_ids m) then (Inr False, m)
      else (Inr True, m\<lparr>mem_vertices := (v_id v, v_t v, []) # mem_vertices m\<rparr>))"

definition mem_create_vertex_from_type :: "ds_type \<Rightarrow> (mem, db_error, uuid) op" where
  "mem_create_vertex_from_type t m =
     (case find (\<lambda>i. i \<notin> set (vertex_ids m)) (map of_nat [0..<Suc (length (mem_vertices m))]) of
        None \<Rightarrow> (Inl ''no unused identifier'', m)
      | Some i \<Rightarrow> (Inr i, m\<lparr>mem_vertices := (i, t, []) # mem_vertices m\<rparr>))"

definition mem_create_edge :: "edge_key \<Rightarrow> (mem, db_error, bool) op" where
  "mem_create_edge k m =
     (if outbound_id k \<in> set (vertex_ids m) \<and> inbound_id k \<in> set (vertex_ids m)
      then (Inr True, if k \<in> set (edge_keys m) then m else m\<lparr>mem_edges := (k, []) # mem_edges m\<rparr>)
      else (Inr False, m))"

definition mem_datastore :: "mem datastore" where
  "mem_datastore =
     \<lparr>transaction = returnE (),
      create_vertex = mem_create_vertex,
      create_vertex_from_type = mem_create_vertex_from_type,
      put_vertex_property = (\<lambda>q n j m. (Inr (), fold (mem_put_vertex n j) (mem_vq m q) m)),
      create_edge = mem_create_edge,
      put_edge_property = (\<lambda>q n j m. (Inr (), fold (mem_put_edge n j) (mem_eq m q) m)),
      get_vertices = (\<lambda>q m. (Inr (map (\<lambda>i. \<lparr>v_id = i, v_t = vertex_type m i\<rparr>) (mem_vq m q)), m)),
      get_vertex_properties = (\<lambda>q n m.
        (Inr (List.map_filter (\<lambda>i. map_option (Pair i) (map_of (vertex_props m i) n)) (mem_vq m q)), m)),
      get_all_vertex_properties = (\<lambda>q m.
        (Inr (map (\<lambda>i. \<lparr>vp_vertex = \<lparr>v_id = i, v_t = vertex_type m i\<rparr>, vp_props = vertex_props m i\<rparr>)
                (mem_vq m q)), m)),
      get_edge_properties = (\<lambda>q n m.
        (Inr (List.map_filter (\<lambda>k. map_option (Pair k) (map_of (edge_props m k) n)) (mem_eq m q)), m)),
      get_all_edge_properties = (\<lambda>q m.
        (Inr (map (\<lambda>k. \<lparr>ep_key = k, ep_props = edge_props m k\<rparr>) (mem_eq m q)), m))\<rparr>"

section \<open>The abstraction\<close>

lemma dom_map_option_map_of: "dom (\<lambda>i. map_option f (map_of l i)) = fst ` set l"
  by (simp add: dom_map_of_conv_image_fst [symmetric] dom_def)

lemma set_vertex_ids [simp]: "set (vertex_ids m) = dom (vertices (mem_graph m))"
  by (simp add: vertex_ids_def mem_graph_def dom_map_option_map_of)

lemma set_edge_keys [simp]: "set (edge_keys m) = dom (edges (mem_graph m))"
  by (simp add: edge_keys_def mem_graph_def dom_map_option_map_of)

lemma length_ids:
  "length (vertex_ids m) = card (dom (vertices (mem_graph m)))"
  "length (edge_keys m) = card (dom (edges (mem_graph m)))"
  using distinct_card [of "vertex_ids m"] distinct_card [of "edge_keys m"]
  by (simp_all add: vertex_ids_def [symmetric] edge_keys_def [symmetric])
    (simp_all add: vertex_ids_def edge_keys_def)

lemma unat_u32_max [simp]: "unat u32_max = 4294967295"
  by (simp add: u32_max_def unsigned_minus_1_eq_mask mask_eq_exp_minus_1)

lemma vertices_mem_graphD:
  "vertices (mem_graph m) i = Some tp \<Longrightarrow> tp = (vertex_type m i, map_of (vertex_props m i))"
  by (auto simp: mem_graph_def vertex_type_def vertex_props_def map_of_clearjunk)

lemma edges_mem_graphD:
  "edges (mem_graph m) k = Some p \<Longrightarrow> p = map_of (edge_props m k)"
  by (auto simp: mem_graph_def edge_props_def map_of_clearjunk)

lemma vertex_type_iff:
  "i \<in> dom (vertices (mem_graph m)) \<and> (t = None \<or> t = Some (vertex_type m i)) \<longleftrightarrow>
     (\<exists>u p. vertices (mem_graph m) i = Some (u, p) \<and> (t = None \<or> t = Some u))"
  by (auto dest: vertices_mem_graphD)

lemma distinct_mem_eq: "distinct (mem_eq m q)"
  by (cases q) (auto simp: edge_keys_def intro!: distinct_take)

lemma mem_query_sem:
  assumes "within_limit (mem_graph m)"
  shows "vq_unlimited vq \<Longrightarrow> set (mem_vq m vq) = vq_sem (mem_graph m) vq"
    and "eq_unlimited eq \<Longrightarrow> set (mem_eq m eq) = eq_sem (mem_graph m) eq"
proof (induction vq and eq)
  case (RangeVertexQuery n t)
  have "length (filter (\<lambda>i. t = None \<or> t = Some (vertex_type m i)) (vertex_ids m)) \<le> 4294967295"
    using assms length_filter_le [of _ "vertex_ids m"]
    by (auto simp: within_limit_def length_ids intro: order_trans)
  then have "set (mem_vq m (RangeVertexQuery n t)) =
      {i. i \<in> dom (vertices (mem_graph m)) \<and> (t = None \<or> t = Some (vertex_type m i))}"
    using RangeVertexQuery by auto
  then show ?case by (simp only: vertex_type_iff vq_sem.simps)
next
  case (InboundVertexQuery q n)
  have "length (filter (\<lambda>i. i \<in> set (vertex_ids m)) (map inbound_id (mem_eq m q))) \<le> length (mem_eq m q)"
    by (metis length_filter_le length_map)
  also have "\<dots> = card (set (mem_eq m q))" by (simp add: distinct_card distinct_mem_eq)
  also have "\<dots> \<le> card (dom (edges (mem_graph m)))"
  proof (rule card_mono)
    show "set (mem_eq m q) \<subseteq> dom (edges (mem_graph m))"
      by (cases q) (auto dest!: in_set_takeD)
  qed (use assms in \<open>simp add: within_limit_def\<close>)
  also have "\<dots> \<le> 4294967295" using assms by (simp add: within_limit_def)
  finally show ?case using InboundVertexQuery by auto
next
  case (OutboundEdgeQuery q n t)
  have "length (filter (\<lambda>k. e_t k = t \<and> outbound_id k \<in> set (mem_vq m q)) (edge_keys m)) \<le> 4294967295"
    using assms length_filter_le [of _ "edge_keys m"]
    by (auto simp: within_limit_def length_ids intro: order_trans)
  with OutboundEdgeQuery show ?case by auto
qed auto

lemma mem_put_vertex_graph:
  "mem_graph (mem_put_vertex n j i m) = put_property i n j (mem_graph m)"
  by (auto simp: mem_put_vertex_def put_property_def mem_graph_def update_conv' fun_eq_iff
      split: option.splits)

lemma mem_put_edge_graph:
  "mem_graph (mem_put_edge n j k m) = put_on_edge k n j (mem_graph m)"
  by (auto simp: mem_put_edge_def put_on_edge_def mem_graph_def update_conv' fun_eq_iff
      split: option.splits)

lemma put_property_idem: "put_property i n j (put_property i n j g) = put_property i n j g"
  by (auto simp: put_property_def split: option.splits)

lemma put_on_edge_idem: "put_on_edge k n j (put_on_edge k n j g) = put_on_edge k n j g"
  by (auto simp: put_on_edge_def split: option.splits)

lemma filter_eq_distinct:
  "distinct xs \<Longrightarrow> filter (\<lambda>y. y = x) xs = (if x \<in> set xs then [x] else [])"
  by (induction xs) auto

lemma fold_put_specific:
  "mem_graph (fold (mem_put_vertex n j) (mem_vq m (SpecificVertexQuery i)) m) =
     put_property i n j (mem_graph m)"
  "mem_graph (fold (mem_put_edge n j) (mem_eq m (SpecificEdgeQuery k)) m) =
     put_on_edge k n j (mem_graph m)"
proof -
  have "distinct (vertex_ids m)" "distinct (edge_keys m)"
    by (simp_all add: vertex_ids_def edge_keys_def)
  then show "mem_graph (fold (mem_put_vertex n j) (mem_vq m (SpecificVertexQuery i)) m) =
      put_property i n j (mem_graph m)"
    and "mem_graph (fold (mem_put_edge n j) (mem_eq m (SpecificEdgeQuery k)) m) =
      put_on_edge k n j (mem_graph m)"
    by (auto simp: filter_eq_distinct mem_put_vertex_graph mem_put_edge_graph
        put_property_def put_on_edge_def split: option.splits)
qed

lemmas fold_put_specific' = fold_put_specific [simplified]

lemma mem_add_vertex_graph:
  "mem_graph (m\<lparr>mem_vertices := (i, t, []) # mem_vertices m\<rparr>) = add_vertex i t (mem_graph m)"
  by (auto simp: mem_graph_def add_vertex_def fun_eq_iff)

lemma mem_add_edge_graph:
  "edges (mem_graph m) k = None \<Longrightarrow>
     mem_graph (m\<lparr>mem_edges := (k, []) # mem_edges m\<rparr>) = add_edge k (mem_graph m)"
  by (auto simp: mem_graph_def add_edge_def fun_eq_iff split: option.splits)

lemma map_filter_Pair:
  "set (List.map_filter (\<lambda>i. map_option (Pair i) (f i)) xs) = {(i, j). i \<in> set xs \<and> f i = Some j}"
  by (induction xs) (auto simp: List.map_filter_simps split: option.splits)

lemma mem_get_vertex_properties:
  assumes "within_limit (mem_graph m)" and "vq_unlimited q"
  shows "set (List.map_filter (\<lambda>i. map_option (Pair i) (map_of (vertex_props m i) n)) (mem_vq m q)) =
    {(i, j). i \<in> vq_sem (mem_graph m) q \<and>
       (\<exists>t p. vertices (mem_graph m) i = Some (t, p) \<and> p n = Some j)}"
proof -
  have "i \<in> dom (vertices (mem_graph m))" if "i \<in> vq_sem (mem_graph m) q" for i
    using that by (cases q) auto
  then have "(\<exists>t p. vertices (mem_graph m) i = Some (t, p) \<and> p n = Some j) \<longleftrightarrow>
      map_of (vertex_props m i) n = Some j" if "i \<in> vq_sem (mem_graph m) q" for i j
    using that by (metis domD prod.exhaust_sel vertices_mem_graphD prod.inject)
  then show ?thesis using mem_query_sem(1) [OF assms] by (auto simp: map_filter_Pair)
qed

lemma mem_get_edge_properties:
  assumes "within_limit (mem_graph m)" and "eq_unlimited q"
  shows "set (List.map_filter (\<lambda>k. map_option (Pair k) (map_of (edge_props m k) n)) (mem_eq m q)) =
    {(k, j). k \<in> eq_sem (mem_graph m) q \<and> (\<exists>p. edges (mem_graph m) k = Some p \<and> p n = Some j)}"
proof -
  have "k \<in> dom (edges (mem_graph m))" if "k \<in> eq_sem (mem_graph m) q" for k
    using that by (cases q) auto
  then have "(\<exists>p. edges (mem_graph m) k = Some p \<and> p n = Some j) \<longleftrightarrow>
      map_of (edge_props m k) n = Some j" if "k \<in> eq_sem (mem_graph m) q" for k j
    using that edges_mem_graphD by blast
  then show ?thesis using mem_query_sem(2) [OF assms] by (auto simp: map_filter_Pair)
qed

lemma mem_vq_dom: "i \<in> set (mem_vq m q) \<Longrightarrow> i \<in> dom (vertices (mem_graph m))"
  by (cases q) (auto dest!: in_set_takeD simp del: domIff)

lemma mem_eq_dom: "k \<in> set (mem_eq m q) \<Longrightarrow> k \<in> dom (edges (mem_graph m))"
  by (cases q) (auto dest!: in_set_takeD simp del: domIff)

lemma mem_vertex_lookup:
  "i \<in> set (mem_vq m q) \<Longrightarrow>
     vertices (mem_graph m) i = Some (vertex_type m i, map_of (vertex_props m i))"
  using mem_vq_dom vertices_mem_graphD by blast

lemma mem_edge_lookup:
  "k \<in> set (mem_eq m q) \<Longrightarrow> edges (mem_graph m) k = Some (map_of (edge_props m k))"
  using mem_eq_dom edges_mem_graphD by blast

text \<open>The contract holds for the in-memory datastore.\<close>

interpretation mem: graph_datastore mem_datastore mem_graph
proof (unfold_locales, goal_cases)
  case (3 v s inserted s')
  then show ?case
    by (auto simp: mem_datastore_def mem_create_vertex_def mem_add_vertex_graph split: if_splits)
next
  case (5 t s i s')
  then show ?case
    by (auto simp: mem_datastore_def mem_create_vertex_from_type_def mem_add_vertex_graph find_Some_iff
        split: option.splits)
next
  case (9 k s created s')
  then show ?case
    by (auto simp: mem_datastore_def mem_create_edge_def mem_add_edge_graph add_edge_def domIff
        split: if_splits option.splits)
next
  case (13 q s vs s')
  from 13(1) have "vs = map (\<lambda>i. \<lparr>v_id = i, v_t = vertex_type s i\<rparr>) (mem_vq s q)"
    by (auto simp: mem_datastore_def)
  then show ?case by (simp add: image_image mem_query_sem(1) [OF 13(2,3)])
next
  case (15 q n s ps s')
  from 15(1) have "ps = List.map_filter (\<lambda>i. map_option (Pair i) (map_of (vertex_props s i) n)) (mem_vq s q)"
    by (auto simp: mem_datastore_def)
  then show ?case by (simp only: mem_get_vertex_properties [OF 15(2,3)])
next
  case (17 q s vps s')
  from 17(1) have "vps = map (\<lambda>i. \<lparr>vp_vertex = \<lparr>v_id = i, v_t = vertex_type s i\<rparr>,
      vp_props = vertex_props s i\<rparr>) (mem_vq s q)"
    by (auto simp: mem_datastore_def)
  then show ?case by (simp add: image_image mem_query_sem(1) [OF 17(2,3)])
next
  case (18 q s vps s' vp)
  then show ?case by (auto simp: mem_datastore_def mem_vertex_lookup)
next
  case (20 q n s es s')
  from 20(1) have "es = List.map_filter (\<lambda>k. map_option (Pair k) (map_of (edge_props s k) n)) (mem_eq s q)"
    by (auto simp: mem_datastore_def)
  then show ?case by (simp only: mem_get_edge_properties [OF 20(2,3)])
next
  case (22 q s eps s')
  from 22(1) have "eps = map (\<lambda>k. \<lparr>ep_key = k, ep_props = edge_props s k\<rparr>) (mem_eq s q)"
    by (auto simp: mem_datastore_def)
  then show ?case
    by (simp add: image_image comp_def distinct_mem_eq mem_query_sem(2) [OF 22(2,3)])
next
  case (23 q s eps s' ep)
  then show ?case by (auto simp: mem_datastore_def mem_edge_lookup)
qed (auto simp: mem_datastore_def mem_create_vertex_def mem_create_vertex_from_type_def
    mem_create_edge_def fold_put_specific' split: if_splits option.splits)

end
