(* ===== verification/Demo_Env.thy ===== *)
theory Demo_Env
  imports Registry_Laws Mem_Datastore
begin

text \<open>
  A concrete environment for the schema registry: the in-memory datastore, versions as triples of
  64-bit numbers ordered lexicographically, and requirements that are either any version or one
  exact version. It meets \<open>registry_env\<close>, so the registry's laws are not vacuous, and concrete
  runs of the registry can be evaluated in it.
\<close>

type_synonym triple = "u64 \<times> u64 \<times> u64"

fun triple_le :: "triple \<Rightarrow> triple \<Rightarrow> bool" where
  "triple_le (a, b, c) (x, y, z) \<longleftrightarrow> a < x \<or> a = x \<and> (b < y \<or> b = y \<and> c \<le> z)"

fun triple_to_value :: "triple \<Rightarrow> json" where
  "triple_to_value (a, b, c) = JArray [JNumber (PosInt a), JNumber (PosInt b), JNumber (PosInt c)]"

fun triple_from_value :: "json \<Rightarrow> triple option" where
  "triple_from_value (JArray [JNumber (PosInt a), JNumber (PosInt b), JNumber (PosInt c)]) = Some (a, b, c)"
| "triple_from_value _ = None"

text \<open>Identifiers are one character long in the runs below, and longer beyond 255.\<close>

definition char_id :: "string \<Rightarrow> (string, uuid) result" where
  "char_id s =
     (if length s = 1 then Inr (of_nat (of_char (hd s)))
      else if length s < 256 then Inl ''invalid length'' else Inr (of_nat (length s)))"

definition id_char :: "uuid \<Rightarrow> string" where
  "id_char i = (if unat i < 256 then [char_of (unat i)] else replicate (unat i) CHR ''i'')"

lemma char_id_id_char: "char_id (id_char i) = Inr i"
proof (cases "unat i < 256")
  case True
  then have "of_char (char_of (unat i) :: char) = unat i" by (simp add: take_bit_eq_mod)
  with True show ?thesis by (simp add: char_id_def id_char_def)
qed (simp add: char_id_def id_char_def)

definition demo_env :: "(mem, triple, triple option) crates" where
  "demo_env =
     \<lparr>db = mem_datastore, uuid_parse_str = char_id, uuid_to_string = id_char,
      version_new = (\<lambda>a b c. (a, b, c)), version_le = triple_le,
      version_to_value = triple_to_value, version_from_value = triple_from_value,
      version_parse = (\<lambda>s. if s = ''1.0.0'' then Inr (1, 0, 0) else if s = ''2.0.0'' then Inr (2, 0, 0)
        else Inl ''unexpected end of input''),
      version_to_string = (\<lambda>v. if v = (1, 0, 0) then ''1.0.0'' else if v = (2, 0, 0) then ''2.0.0'' else ''version''),
      req_parse = (\<lambda>s. if s = ''*'' then Inr None else Inl ''invalid requirement''), req_to_string = (\<lambda>_. ''*''),
      req_matches = (\<lambda>q v. q = None \<or> q = Some v), req_any = None, req_exact = Some,
      jsonschema_compile = (\<lambda>j. if is_object j then Some (\<lambda>x. if is_null x then [''null is not allowed''] else []) else None),
      jmespath_parse = (\<lambda>s. if s = [] then Inl ''empty expression'' else Inr ()),
      json_from_str = (\<lambda>s. if s = ''{}'' then Inr (JObject []) else if s = ''null'' then Inr JNull
        else Inl ''expected value''),
      json_to_string = (\<lambda>j. Inr ''{}'')\<rparr>"

lemma triple_le_total: "triple_le a b \<or> triple_le b a"
  by (cases a; cases b) auto

lemma triple_le_trans: "triple_le a b \<Longrightarrow> triple_le b c \<Longrightarrow> triple_le a c"
  by (cases a; cases b; cases c) auto

lemma triple_roundtrip: "triple_from_value (triple_to_value v) = Some v"
  by (cases v) auto

lemma demo_registry: "registry_env demo_env mem_graph"
proof (intro registry_env.intro registry_env_axioms.intro)
  show "graph_datastore (db demo_env) mem_graph"
    using mem.graph_datastore_axioms by (simp add: demo_env_def)
qed (use triple_le_total triple_le_trans triple_roundtrip in \<open>auto simp: demo_env_def\<close>)

lemma mem_within_limit:
  assumes "length (mem_vertices m) \<le> 4294967295" and "length (mem_edges m) \<le> 4294967295"
  shows "within_limit (mem_graph m)"
proof -
  have "card (dom (vertices (mem_graph m))) \<le> length (mem_vertices m)"
    "card (dom (edges (mem_graph m))) \<le> length (mem_edges m)"
    using length_remdups_leq [of "map fst (mem_vertices m)"] length_remdups_leq [of "map fst (mem_edges m)"]
    by (simp_all flip: length_ids add: vertex_ids_def edge_keys_def)
  moreover have "finite (dom (vertices (mem_graph m)))" "finite (dom (edges (mem_graph m)))"
    by (simp_all flip: set_vertex_ids set_edge_keys)
  ultimately show ?thesis using assms by (simp add: within_limit_def)
qed

lemma mem_graph_empty: "mem_graph mem_empty = empty_graph"
  by (simp add: mem_graph_def mem_empty_def empty_graph_def)

section \<open>Running the registry\<close>

text \<open>Closed forms of the writes in the in-memory environment, for the evaluation of concrete runs.\<close>

lemma update_new: "k \<notin> fst ` set al \<Longrightarrow> AList.update k v al = al @ [(k, v)]"
  by (induction al) auto

lemma fold_update_new:
  "distinct (map fst (al @ ps)) \<Longrightarrow> fold (\<lambda>(n, v). AList.update n v) ps al = al @ ps"
proof (induction ps arbitrary: al)
  case (Cons nv ps)
  then have "fold (\<lambda>(n, v). AList.update n v) ps (al @ [nv]) = (al @ [nv]) @ ps"
    by (intro Cons.IH) simp
  with Cons.prems show ?case by (cases nv) (simp add: update_new)
qed simp

lemma fold_put_specific_eq:
  "fold (mem_put_vertex n j) (mem_vq m (SpecificVertexQuery i)) m = mem_put_vertex n j i m"
  "fold (mem_put_edge n j) (mem_eq m (SpecificEdgeQuery k)) m = mem_put_edge n j k m"
proof -
  have "distinct (vertex_ids m)" "distinct (edge_keys m)"
    by (simp_all add: vertex_ids_def edge_keys_def)
  moreover have "mem_put_vertex n j i m = m" if "i \<notin> set (vertex_ids m)"
    using that unfolding vertex_ids_def by (auto simp: mem_put_vertex_def split: option.splits dest!: map_of_SomeD) force
  moreover have "mem_put_edge n j k m = m" if "k \<notin> set (edge_keys m)"
    using that unfolding edge_keys_def by (auto simp: mem_put_edge_def split: option.splits dest!: map_of_SomeD) force
  ultimately show "fold (mem_put_vertex n j) (mem_vq m (SpecificVertexQuery i)) m = mem_put_vertex n j i m"
    "fold (mem_put_edge n j) (mem_eq m (SpecificEdgeQuery k)) m = mem_put_edge n j k m"
    by (simp_all del: set_vertex_ids set_edge_keys add: filter_eq_distinct)
qed

lemma run_puts:
  "forE ps (\<lambda>(n, v). dbE (put_vertex_property mem_datastore (SpecificVertexQuery i) n v)) m =
     (Inr (), fold (\<lambda>(n, v). mem_put_vertex n v i) ps m)"
  "forE ps (\<lambda>(n, v). dbE (put_edge_property mem_datastore (SpecificEdgeQuery k) n v)) m =
     (Inr (), fold (\<lambda>(n, v). mem_put_edge n v k) ps m)"
  by (induction ps arbitrary: m)
    (auto simp: mem_datastore_def dbE_def map_errE_def thenE_def bindE_def fold_put_specific_eq
      simp del: mem_vq.simps mem_eq.simps)

lemma fold_put_head:
  "fold (\<lambda>(n, v). mem_put_vertex n v i) ps (m\<lparr>mem_vertices := (i, t, al) # vs\<rparr>) =
     m\<lparr>mem_vertices := (i, t, fold (\<lambda>(n, v). AList.update n v) ps al) # vs\<rparr>"
  "fold (\<lambda>(n, v). mem_put_edge n v k) ps (m\<lparr>mem_edges := (k, al) # es\<rparr>) =
     m\<lparr>mem_edges := (k, fold (\<lambda>(n, v). AList.update n v) ps al) # es\<rparr>"
  by (induction ps arbitrary: al) (auto simp: mem_put_vertex_def mem_put_edge_def)

lemma demo_env_select [simp]:
  "db demo_env = mem_datastore" "uuid_parse_str demo_env = char_id"
  "version_new demo_env a b c = (a, b, c)" "version_le demo_env = triple_le"
  "version_to_value demo_env = triple_to_value" "version_from_value demo_env = triple_from_value"
  "req_matches demo_env q v = (q = None \<or> q = Some v)" "req_any demo_env = None"
  "jsonschema_compile demo_env j =
    (if is_object j then Some (\<lambda>x. if is_null x then [''null is not allowed''] else []) else None)"
  "jmespath_parse demo_env e = (if e = [] then Inl ''empty expression'' else Inr ())"
  by (simp_all add: demo_env_def)

definition fresh_id :: "mem \<Rightarrow> uuid option" where
  "fresh_id m = find (\<lambda>i. i \<notin> set (vertex_ids m)) (map of_nat [0..<Suc (length (mem_vertices m))])"

lemma run_create:
  assumes "distinct (map fst (into_properties V x))"
  shows "create_vertex_with_properties demo_env V x (Some i) m =
      (if i \<in> fst ` set (mem_vertices m) then (Inl (DuplicatedUuid i), m)
       else (Inr i, m\<lparr>mem_vertices := (i, db_type V, into_properties V x) # mem_vertices m\<rparr>))"
    and "fresh_id m = Some j \<Longrightarrow> create_vertex_with_properties demo_env V x None m =
      (Inr j, m\<lparr>mem_vertices := (j, db_type V, into_properties V x) # mem_vertices m\<rparr>)"
proof -
  have t: "transaction mem_datastore = returnE ()" "create_vertex mem_datastore = mem_create_vertex"
    "create_vertex_from_type mem_datastore = mem_create_vertex_from_type"
    by (simp_all add: mem_datastore_def)
  show "create_vertex_with_properties demo_env V x (Some i) m =
      (if i \<in> fst ` set (mem_vertices m) then (Inl (DuplicatedUuid i), m)
       else (Inr i, m\<lparr>mem_vertices := (i, db_type V, into_properties V x) # mem_vertices m\<rparr>))"
    using assms fold_update_new [of "[]" "into_properties V x"]
    by (simp add: create_vertex_with_properties_def connect_def t thenE_def bindE_def map_errE_def run_puts
        dbE_def [of "mem_create_vertex _"] mem_create_vertex_def fold_put_head vertex_ids_def del: set_vertex_ids)
  show "create_vertex_with_properties demo_env V x None m =
      (Inr j, m\<lparr>mem_vertices := (j, db_type V, into_properties V x) # mem_vertices m\<rparr>)"
    if "fresh_id m = Some j"
    using assms that fold_update_new [of "[]" "into_properties V x"]
    by (simp add: create_vertex_with_properties_def connect_def t thenE_def bindE_def map_errE_def run_puts
        dbE_def [of "mem_create_vertex_from_type _"] mem_create_vertex_from_type_def fold_put_head fresh_id_def)
qed

lemma run_set_edge:
  assumes "edge_info T e = (k, props)" and "distinct (map fst props)"
    and "outbound_id k \<in> fst ` set (mem_vertices m)" "inbound_id k \<in> fst ` set (mem_vertices m)"
    and "k \<notin> fst ` set (mem_edges m)"
  shows "set_edge_properties demo_env T e m = (Inr (), m\<lparr>mem_edges := (k, props) # mem_edges m\<rparr>)"
proof -
  have t: "transaction mem_datastore = returnE ()" "create_edge mem_datastore = mem_create_edge"
    by (simp_all add: mem_datastore_def)
  show ?thesis
    using assms fold_update_new [of "[]" props]
    by (simp add: set_edge_properties_def connect_def t thenE_def bindE_def map_errE_def run_puts
        dbE_def [of "mem_create_edge _"] mem_create_edge_def fold_put_head vertex_ids_def edge_keys_def
        del: set_vertex_ids set_edge_keys)
qed

lemma mem_datastore_run [simp]:
  "transaction mem_datastore m = (Inr (), m)"
  "get_vertices mem_datastore q m = (Inr (map (\<lambda>i. \<lparr>v_id = i, v_t = vertex_type m i\<rparr>) (mem_vq m q)), m)"
  "get_vertex_properties mem_datastore q n m =
     (Inr (List.map_filter (\<lambda>i. map_option (Pair i) (map_of (vertex_props m i) n)) (mem_vq m q)), m)"
  "get_all_vertex_properties mem_datastore q m =
     (Inr (map (\<lambda>i. \<lparr>vp_vertex = \<lparr>v_id = i, v_t = vertex_type m i\<rparr>, vp_props = vertex_props m i\<rparr>)
             (mem_vq m q)), m)"
  "get_edge_properties mem_datastore q' n m =
     (Inr (List.map_filter (\<lambda>k. map_option (Pair k) (map_of (edge_props m k) n)) (mem_eq m q')), m)"
  "get_all_edge_properties mem_datastore q' m =
     (Inr (map (\<lambda>k. \<lparr>ep_key = k, ep_props = edge_props m k\<rparr>) (mem_eq m q')), m)"
  by (simp_all add: mem_datastore_def)

lemma run_put: "put_vertex_property mem_datastore (SpecificVertexQuery i) n j m = (Inr (), mem_put_vertex n j i m)"
  by (simp add: mem_datastore_def fold_put_specific_eq del: mem_vq.simps)

lemma run_simps:
  "connect demo_env m = (Inr (), m)"
  "dbE f0 m = (case f0 m of (Inl e, t) \<Rightarrow> (Inl (DbError e), t) | (Inr y, t) \<Rightarrow> (Inr y, t))"
  "bindE o1 f m = (case o1 m of (Inl e, t) \<Rightarrow> (Inl e, t) | (Inr x, t) \<Rightarrow> f x t)"
  "thenE o1 o2 m = (case o1 m of (Inl e, t) \<Rightarrow> (Inl e, t) | (Inr x, t) \<Rightarrow> o2 t)"
  by (simp_all add: connect_def dbE_def map_errE_def bindE_def thenE_def)

lemma run_congs:
  "s = t \<Longrightarrow> bindE m f s = bindE m f t" "s = t \<Longrightarrow> thenE m n s = thenE m n t"
  "s = t \<Longrightarrow> xs = ys \<Longrightarrow> forE xs h s = forE ys h t"
  by simp_all

lemmas run_ops = run_simps run_put mem_put_vertex_def run_create run_set_edge fresh_id_def vertex_ids_def edge_keys_def vertex_type_def
  vertex_props_def edge_props_def ok_or_def map_err_def mem_empty_def schema_codec.distinct_into
  definition_codec.distinct_into view_codec.distinct_into Schema_def Definition_def View_def
  SchemaDefinitionEdge_def SchemaView_def schema_into_properties_def definition_into_properties_def
  view_into_properties_def build_full_schema_def new_schema_vertex_def ensure_schema_exists_def
  get_schema_versions_def validate_view_def

section \<open>A sample history\<close>

text \<open>A schema \<open>A\<close> (65), its second version, and a view \<open>V\<close> (86) of it.\<close>

definition demo_schema :: new_schema where
  "demo_schema = \<lparr>ns_name = ''orders'', ns_definition = JObject [], ns_kafka_topic = ''t'',
     ns_query_address = ''q'', ns_schema_type = Timeseries\<rparr>"

definition demo_s1 :: mem where
  "demo_s1 =
     \<lparr>mem_vertices =
        [(0, ''DEFINITION'', [(''DEFINITION'', JObject [])]),
         (65, ''SCHEMA'', schema_into_properties (fst (new_schema_vertex demo_schema)))],
      mem_edges = [(\<lparr>outbound_id = 65, e_t = ''SCHEMA_DEFINITION'', inbound_id = 0\<rparr>,
         [(''VERSION'', triple_to_value (1, 0, 0))])]\<rparr>"

definition demo_version :: "triple new_schema_version" where
  "demo_version = \<lparr>nv_version = (2, 0, 0), nv_definition = JObject [(''type'', JNull)]\<rparr>"

definition demo_s2 :: mem where
  "demo_s2 =
     \<lparr>mem_vertices = (1, ''DEFINITION'', [(''DEFINITION'', nv_definition demo_version)]) # mem_vertices demo_s1,
      mem_edges = (\<lparr>outbound_id = 65, e_t = ''SCHEMA_DEFINITION'', inbound_id = 1\<rparr>,
         [(''VERSION'', triple_to_value (2, 0, 0))]) # mem_edges demo_s1\<rparr>"

definition demo_view :: view where
  "demo_view = \<lparr>view_name = ''v'', view_jmespath = ''@''\<rparr>"

definition demo_s3 :: mem where
  "demo_s3 =
     \<lparr>mem_vertices = (86, ''VIEW'', view_into_properties demo_view) # mem_vertices demo_s2,
      mem_edges = (\<lparr>outbound_id = 65, e_t = ''SCHEMA_VIEW'', inbound_id = 86\<rparr>, []) # mem_edges demo_s2\<rparr>"

lemma demo_add_schema: "add_schema demo_env demo_schema (Some 65) mem_empty = (Inr 65, demo_s1)"
  by (simp add: demo_s1_def demo_schema_def add_schema_def run_ops cong: run_congs)

lemma demo_add_version: "add_new_version_of_schema demo_env 65 demo_version demo_s1 = (Inr (), demo_s2)"
  by (simp add: demo_s1_def demo_s2_def demo_schema_def demo_version_def add_new_version_of_schema_def run_ops
      cong: run_congs)

lemma demo_old_version: "add_new_version_of_schema demo_env 65 demo_version demo_s2 =
    (Inl (NewVersionMustBeGreatest 65 (2, 0, 0)), demo_s2)"
  by (simp add: demo_s1_def demo_s2_def demo_schema_def demo_version_def add_new_version_of_schema_def run_ops
      cong: run_congs)

lemma demo_add_view: "add_view_to_schema demo_env 65 demo_view (Some 86) demo_s2 = (Inr 86, demo_s3)"
  by (simp add: demo_s1_def demo_s2_def demo_s3_def demo_schema_def demo_version_def demo_view_def
      add_view_to_schema_def run_ops cong: run_congs)

lemma demo_limits:
  "within_limit (mem_graph mem_empty)" "within_limit (mem_graph demo_s1)"
  "within_limit (mem_graph demo_s2)" "within_limit (mem_graph demo_s3)"
  by (intro mem_within_limit; simp add: mem_empty_def demo_s1_def demo_s2_def demo_s3_def)+

end
