(* ===== verification/Registry_Props.thy ===== *)
theory Registry_Props
  imports Registry_Machine Demo_Env
begin

text \<open>
  The properties of the schema registry's database layer, with concrete runs in \<open>Demo_Env\<close>.
\<close>

section \<open>Versions and lookups after a write\<close>

lemma no_edge_to_new:
  assumes "registry_ok E g" "i \<notin> dom (vertices g)" "edges g k = Some p"
  shows "outbound_id k \<noteq> i" "inbound_id k \<noteq> i"
  using assms by (auto simp: edge_ok_def dest!: registry_ok_edge)

lemma version_values_iff:
  "(j, d) \<in> version_values g i \<longleftrightarrow> i \<in> dom (vertices g) \<and>
     (\<exists>p. edges g (definition_key i d) = Some p \<and> p ''VERSION'' = Some j)"
proof -
  have "k = definition_key i d \<longleftrightarrow> outbound_id k = i \<and> e_t k = ''SCHEMA_DEFINITION'' \<and> inbound_id k = d" for k
    by (cases k) auto
  then have "(j, d) \<in> version_values g i \<longleftrightarrow> (\<exists>k p. edges g k = Some p \<and> k = definition_key i d \<and>
      p ''VERSION'' = Some j \<and> i \<in> dom (vertices g))"
    by (simp add: version_values_def) metis
  then show ?thesis by blast
qed

lemma version_values_with_schema:
  assumes "registry_ok E g" "i \<notin> dom (vertices g)"
  shows "version_values (with_schema i sch g) k = version_values g k"
proof -
  have "edges g (definition_key i d) = None" for d
    using no_edge_to_new(1) [OF assms, of "definition_key i d"]
    by (cases "edges g (definition_key i d)") auto
  then have "(j, d) \<in> version_values (with_schema i sch g) k \<longleftrightarrow> (j, d) \<in> version_values g k" for j d
    unfolding version_values_iff by (cases "k = i") (auto simp: with_schema_def)
  then show ?thesis by auto
qed

lemma versions_at_with_schema:
  assumes "registry_ok E g" "i \<notin> dom (vertices g)"
  shows "versions_at E (with_schema i sch g) k = versions_at E g k"
  by (simp add: versions_at_def version_values_with_schema [OF assms])

lemma versions_at_unknown: "i \<notin> dom (vertices g) \<Longrightarrow> versions_at E g i = {}"
  by (simp add: versions_at_def version_values_def)

lemma versions_at_with_version:
  assumes ok: "registry_ok E g" and i: "i \<in> dom (vertices g)" and d: "d \<notin> dom (vertices g)"
    and rt: "version_from_value E (version_to_value E v) = Some v"
  shows "versions_at E (with_version E i d v j g) k =
    (if k = i then insert (v, d) (versions_at E g i) else versions_at E g k)"
proof -
  have new: "edges g (definition_key i d) = None"
    using no_edge_to_new(2) [OF ok d, of "definition_key i d"] by (cases "edges g (definition_key i d)") auto
  have "edges g (definition_key d d') = None" for d'
    using no_edge_to_new(1) [OF ok d, of "definition_key d d'"]
    by (cases "edges g (definition_key d d')") auto
  then have "(x, y) \<in> version_values (with_version E i d v j g) k \<longleftrightarrow>
      (x, y) \<in> (if k = i then insert (version_to_value E v, d) (version_values g i) else version_values g k)" for x y
    using new i unfolding version_values_iff
    by (cases "k = i"; cases "y = d") (auto simp: version_values_iff with_version_def)
  then have "version_values (with_version E i d v j g) k =
      (if k = i then insert (version_to_value E v, d) (version_values g i) else version_values g k)"
    by auto
  then show ?thesis using rt by (auto simp: versions_at_def)
qed

lemma vertices_with_version [simp]:
  "vertices (with_version E i d v j g) = (vertices g)(d \<mapsto> (''DEFINITION'', [''DEFINITION'' \<mapsto> j]))"
  by (simp add: with_version_def)

lemma definition_at_with_version [simp]:
  "definition_at (with_version E i d v j g) d = Some j"
  by (simp add: definition_at_def)

lemma greatest_singleton: "greatest_version E {m} n \<Longrightarrow> n = m"
  by (simp add: greatest_version_def)

context registry_env
begin

lemma definition_lookup:
  assumes "within_limit (\<alpha> s)" "registry_ok E (\<alpha> s)" "matching_versions E (\<alpha> s) u \<noteq> {}"
    and "\<And>v d. greatest_version E (matching_versions E (\<alpha> s) u) (v, d) \<Longrightarrow> v = w \<and> definition_at (\<alpha> s) d = Some j"
  shows "yields (get_schema_definition E u) s (\<lambda>r. r = Inr \<lparr>sdef_version = w, sdef_definition = j\<rparr>)"
  by (rule yields_mono [OF yields_get_schema_definition [OF assms(1) registry_ok_versions [OF assms(2)]]])
    (use assms(3,4) in \<open>auto simp: ok_or_def\<close>)

lemma add_schema_lookups:
  assumes ok: "registry_ok E (\<alpha> s)" and run: "add_schema E ns uid s = (Inr i, t)" and lim: "within_limit (\<alpha> t)"
  shows "\<exists>j. fst (build_full_schema E (ns_definition ns) s) = Inr \<lparr>d_definition = j\<rparr> \<and>
    i \<notin> dom (vertices (\<alpha> s)) \<and> (\<forall>u. uid = Some u \<longrightarrow> i = u) \<and>
    yields (get_schema E i) t (\<lambda>r. r = Inr (fst (new_schema_vertex ns))) \<and>
    (\<forall>q. req_matches E q (version_new E 1 0 0) \<longrightarrow>
       yields (get_schema_definition E \<lparr>vu_id = i, vu_version_req = q\<rparr>) t
         (\<lambda>r. r = Inr \<lparr>sdef_version = version_new E 1 0 0, sdef_definition = j\<rparr>)) \<and>
    (\<forall>k \<in> dom (vertices (\<alpha> s)). vertices (\<alpha> t) k = vertices (\<alpha> s) k \<and>
       versions_at E (\<alpha> t) k = versions_at E (\<alpha> s) k)"
proof -
  define g where "g = with_schema i (fst (new_schema_vertex ns)) (\<alpha> s)"
  from add_schema_effect [OF run] obtain d j where
    i: "i \<notin> dom (vertices (\<alpha> s))" "\<forall>u. uid = Some u \<longrightarrow> i = u" and d: "d \<notin> insert i (dom (vertices (\<alpha> s)))" and
    j: "fst (build_full_schema E (ns_definition ns) s) = Inr \<lparr>d_definition = j\<rparr>" and
    t: "\<alpha> t = with_version E i d (version_new E 1 0 0) j g"
    by (auto simp: g_def)
  have g: "registry_ok E g" "i \<in> dom (vertices g)" "d \<notin> dom (vertices g)"
    using registry_ok_with_schema [OF ok i(1)] d by (auto simp: g_def)
  note ver = versions_at_with_version [OF g version_roundtrip]
  have okt: "registry_ok E (\<alpha> t)" unfolding t by (rule registry_ok_with_version [OF g version_roundtrip])
  have vi: "versions_at E (\<alpha> t) i = {(version_new E 1 0 0, d)}"
    unfolding t ver unfolding g_def
    by (simp add: versions_at_with_schema [OF ok i(1)] versions_at_unknown [OF i(1)])
  have "vertices (\<alpha> t) i = Some (''SCHEMA'', map_of (schema_into_properties (fst (new_schema_vertex ns))))"
    using d by (auto simp: t g_def)
  then have "yields (get_schema E i) t (\<lambda>r. r = Inr (fst (new_schema_vertex ns)))"
    by (intro yields_mono [OF yields_get_schema [OF lim]]) (simp add: domI schema_at_def decode_into_ok)
  moreover have "yields (get_schema_definition E \<lparr>vu_id = i, vu_version_req = q\<rparr>) t
      (\<lambda>r. r = Inr \<lparr>sdef_version = version_new E 1 0 0, sdef_definition = j\<rparr>)"
    if "req_matches E q (version_new E 1 0 0)" for q
  proof (rule definition_lookup [OF lim okt])
    have M: "matching_versions E (\<alpha> t) \<lparr>vu_id = i, vu_version_req = q\<rparr> = {(version_new E 1 0 0, d)}"
      using that by (auto simp: matching_versions_def vi)
    then show "matching_versions E (\<alpha> t) \<lparr>vu_id = i, vu_version_req = q\<rparr> \<noteq> {}" by simp
    fix v d' assume "greatest_version E (matching_versions E (\<alpha> t) \<lparr>vu_id = i, vu_version_req = q\<rparr>) (v, d')"
    with M show "v = version_new E 1 0 0 \<and> definition_at (\<alpha> t) d' = Some j"
      by (auto dest: greatest_singleton simp: t)
  qed
  moreover have "vertices (\<alpha> t) k = vertices (\<alpha> s) k \<and> versions_at E (\<alpha> t) k = versions_at E (\<alpha> s) k"
    if "k \<in> dom (vertices (\<alpha> s))" for k
  proof -
    from that i d have "k \<noteq> i" "k \<noteq> d" by auto
    then show ?thesis using ver versions_at_with_schema [OF ok i(1)] by (simp add: t g_def)
  qed
  ultimately show ?thesis using i j by blast
qed

lemma new_version_lookups:
  assumes ok: "registry_ok E (\<alpha> s)" and lims: "within_limit (\<alpha> s)"
    and run: "add_new_version_of_schema E i nv s = (Inr u, t)" and lim: "within_limit (\<alpha> t)"
  shows "\<exists>j s'. \<alpha> s' = \<alpha> s \<and> fst (build_full_schema E (nv_definition nv) s') = Inr \<lparr>d_definition = j\<rparr> \<and>
    (\<forall>(v, d) \<in> versions_at E (\<alpha> s) i. \<not> version_le E (nv_version nv) v) \<and>
    (\<forall>q. req_matches E q (nv_version nv) \<longrightarrow>
       yields (get_schema_definition E \<lparr>vu_id = i, vu_version_req = q\<rparr>) t
         (\<lambda>r. r = Inr \<lparr>sdef_version = nv_version nv, sdef_definition = j\<rparr>)) \<and>
    (\<forall>k. k \<noteq> i \<longrightarrow> versions_at E (\<alpha> t) k = versions_at E (\<alpha> s) k) \<and>
    (\<forall>k \<in> dom (vertices (\<alpha> s)). vertices (\<alpha> t) k = vertices (\<alpha> s) k)"
proof -
  from add_new_version_effect [OF run _ lims registry_ok_versions [OF ok]] obtain d j s' where
    i: "i \<in> dom (vertices (\<alpha> s))" and new: "\<forall>(v, d) \<in> versions_at E (\<alpha> s) i. \<not> version_le E (nv_version nv) v"
    and d: "d \<notin> dom (vertices (\<alpha> s))" and s': "\<alpha> s' = \<alpha> s"
      "fst (build_full_schema E (nv_definition nv) s') = Inr \<lparr>d_definition = j\<rparr>"
    and t: "\<alpha> t = with_version E i d (nv_version nv) j (\<alpha> s)" by auto
  note ver = versions_at_with_version [OF ok i d version_roundtrip]
  have okt: "registry_ok E (\<alpha> t)" unfolding t by (rule registry_ok_with_version [OF ok i d version_roundtrip])
  have "yields (get_schema_definition E \<lparr>vu_id = i, vu_version_req = q\<rparr>) t
      (\<lambda>r. r = Inr \<lparr>sdef_version = nv_version nv, sdef_definition = j\<rparr>)"
    if q: "req_matches E q (nv_version nv)" for q
  proof (rule definition_lookup [OF lim okt])
    have mem: "(nv_version nv, d) \<in> matching_versions E (\<alpha> t) \<lparr>vu_id = i, vu_version_req = q\<rparr>"
      using ver q by (simp add: matching_versions_def t)
    then show "matching_versions E (\<alpha> t) \<lparr>vu_id = i, vu_version_req = q\<rparr> \<noteq> {}" by auto
    fix v d' assume gr: "greatest_version E (matching_versions E (\<alpha> t) \<lparr>vu_id = i, vu_version_req = q\<rparr>) (v, d')"
    then have "version_le E (nv_version nv) v" using mem by (auto simp: greatest_version_def)
    with new have "(v, d') \<notin> versions_at E (\<alpha> s) i" by auto
    with gr ver have "(v, d') = (nv_version nv, d)"
      by (auto simp: greatest_version_def matching_versions_def t)
    then show "v = nv_version nv \<and> definition_at (\<alpha> t) d' = Some j" by (simp add: t)
  qed
  with new s' d ver t show ?thesis by (intro exI [of _ j] exI [of _ s']) auto
qed

end

section \<open>Sample states are reachable\<close>

lemma demo_reachable:
  "reachable demo_env mem_graph mem_empty" "reachable demo_env mem_graph demo_s1"
  "reachable demo_env mem_graph demo_s2" "reachable demo_env mem_graph demo_s3"
proof -
  show r0: "reachable demo_env mem_graph mem_empty"
    by (rule reachable_empty, rule mem_graph_empty)
  show r1: "reachable demo_env mem_graph demo_s1"
    by (rule reachable_call [OF r0 demo_limits(1), of "CallAddSchema demo_schema (Some 65)" "Inr ()"])
      (simp_all add: discard_def run_simps demo_add_schema)
  show r2: "reachable demo_env mem_graph demo_s2"
    by (rule reachable_call [OF r1 demo_limits(2), of "CallAddVersion 65 demo_version" "Inr ()"])
      (simp_all add: demo_add_version)
  show "reachable demo_env mem_graph demo_s3"
    by (rule reachable_call [OF r2 demo_limits(3), of "CallAddView 65 demo_view (Some 86)" "Inr ()"])
      (simp_all add: discard_def run_simps demo_add_view)
qed

interpretation demo: registry_env demo_env mem_graph
  by (rule demo_registry)

lemmas demo_ok = demo_reachable [THEN demo.reachable_ok]

section \<open>Properties\<close>



text \<open>
  C8. A schema that was added can be read back: under its identifier \<open>get_schema\<close> returns its
  fields, and a lookup with any requirement that accepts 1.0.0 returns the full schema that was
  built from its definition; the identifier was unused, and every other stored object is as it
  was.
\<close>

theorem added_schema_is_found:
  assumes "registry_env E \<alpha>" and "reachable E \<alpha> s" and "add_schema E ns uid s = (Inr i, t)"
    and "within_limit (\<alpha> t)"
  shows "\<exists>j. fst (build_full_schema E (ns_definition ns) s) = Inr \<lparr>d_definition = j\<rparr> \<and>
    i \<notin> dom (vertices (\<alpha> s)) \<and> (\<forall>u. uid = Some u \<longrightarrow> i = u) \<and>
    yields (get_schema E i) t (\<lambda>r. r = Inr (fst (new_schema_vertex ns))) \<and>
    (\<forall>q. req_matches E q (version_new E 1 0 0) \<longrightarrow>
       yields (get_schema_definition E \<lparr>vu_id = i, vu_version_req = q\<rparr>) t
         (\<lambda>r. r = Inr \<lparr>sdef_version = version_new E 1 0 0, sdef_definition = j\<rparr>)) \<and>
    (\<forall>k \<in> dom (vertices (\<alpha> s)). vertices (\<alpha> t) k = vertices (\<alpha> s) k \<and>
       versions_at E (\<alpha> t) k = versions_at E (\<alpha> s) k)"
  using registry_env.add_schema_lookups [OF assms(1) registry_env.reachable_ok [OF assms(1,2)] assms(3,4)] .

theorem added_schema_is_found_witness:
  "yields (get_schema demo_env 65) demo_s1 (\<lambda>r. r = Inr (fst (new_schema_vertex demo_schema)))"
  using added_schema_is_found [OF demo_registry demo_reachable(1) demo_add_schema demo_limits(2)] by blast



text \<open>
  A version that is not greater than every stored one is refused with the greatest stored
  version in the error, and the graph stays as it was.
\<close>

theorem stale_version_is_refused:
  assumes "registry_env E \<alpha>" and "reachable E \<alpha> s" and "within_limit (\<alpha> s)"
    and "add_new_version_of_schema E i nv s = (r, t)" and "settled r"
    and "(v, d) \<in> versions_at E (\<alpha> s) i" and "version_le E (nv_version nv) v"
  shows "\<alpha> t = \<alpha> s \<and> (\<exists>m d. greatest_version E (versions_at E (\<alpha> s) i) (m, d) \<and>
    r = Inl (NewVersionMustBeGreatest i m))"
proof -
  have "i \<in> dom (vertices (\<alpha> s))"
    using assms(6) versions_at_unknown by fastforce
  with registry_env.add_new_version_effect [OF assms(1,4,5,3)
      registry_ok_versions [OF registry_env.reachable_ok [OF assms(1,2)]]] assms(6,7)
  show ?thesis by fastforce
qed

theorem stale_version_is_refused_witness:
  "\<exists>m d. greatest_version demo_env (versions_at demo_env (mem_graph demo_s2) 65) (m, d) \<and>
     fst (add_new_version_of_schema demo_env 65 demo_version demo_s2) = Inl (NewVersionMustBeGreatest 65 m)"
proof -
  have "(nv_version demo_version, 1) \<in> versions_at demo_env (mem_graph demo_s2) 65"
    unfolding versions_at_def version_values_iff mem_Collect_eq
    by (simp add: version_values_iff demo_s2_def demo_s1_def mem_graph_def demo_version_def dom_def)
  moreover have "version_le demo_env (nv_version demo_version) (nv_version demo_version)"
    by (simp add: demo_version_def)
  ultimately show ?thesis
    using stale_version_is_refused [OF demo_registry demo_reachable(3) demo_limits(3) demo_old_version]
    by (simp add: demo_old_version)
qed

text \<open>
  C20. A lookup of a schema's definition returns the greatest stored version that meets the
  requirement with the definition stored for it, and \<open>NoVersionMatchesRequirement\<close> exactly
  when there is none; it changes nothing.
\<close>

theorem definition_lookup_is_greatest:
  assumes "registry_env E \<alpha>" and "reachable E \<alpha> s" and "within_limit (\<alpha> s)"
    and "get_schema_definition E u s = (r, t)" and "settled r"
  shows "\<alpha> t = \<alpha> s \<and>
    (if matching_versions E (\<alpha> s) u = {} then r = Inl (NoVersionMatchesRequirement u)
     else \<exists>v d j. greatest_version E (matching_versions E (\<alpha> s) u) (v, d) \<and>
       definition_at (\<alpha> s) d = Some j \<and> r = Inr \<lparr>sdef_version = v, sdef_definition = j\<rparr>)"
proof -
  note ok = registry_env.reachable_ok [OF assms(1,2)]
  have "\<exists>j. definition_at (\<alpha> s) d = Some j" if "(v, d) \<in> matching_versions E (\<alpha> s) u" for v d
  proof -
    from that obtain x where "(x, d) \<in> version_values (\<alpha> s) (vu_id u)"
      by (auto simp: matching_versions_def versions_at_def)
    then obtain p where "edges (\<alpha> s) (definition_key (vu_id u) d) = Some p" by (auto simp: version_values_iff)
    from registry_ok_edge [OF ok this] obtain q where "vertices (\<alpha> s) d = Some (''DEFINITION'', q)"
      by (auto simp: edge_ok_def type_at_def)
    with registry_ok_vertex [OF ok this] show ?thesis
      by (auto simp: definition_at_def vertex_ok_def definition_decode_def)
  qed
  then have def: "\<exists>j. definition_at (\<alpha> s) d = Some j"
    if "greatest_version E (matching_versions E (\<alpha> s) u) (v, d)" for v d
    using that by (auto simp: greatest_version_def)
  have "\<alpha> t = \<alpha> s"
    using registry_env.keepsD [OF assms(1) registry_env.keeps_get_schema_definition [OF assms(1)] assms(4)] .
  with registry_env.yields_settled [OF assms(1) registry_env.yields_get_schema_definition
      [OF assms(1,3) registry_ok_versions [OF ok]] assms(4,5)] def
  show ?thesis by (fastforce split: if_splits)
qed

theorem definition_lookup_is_greatest_witness:
  "greatest_version demo_env (matching_versions demo_env (mem_graph demo_s2) \<lparr>vu_id = 65, vu_version_req = None\<rparr>)
     ((2, 0, 0), 1)"
proof -
  have "get_schema_definition demo_env \<lparr>vu_id = 65, vu_version_req = None\<rparr> demo_s2 =
    (Inr \<lparr>sdef_version = (2, 0, 0), sdef_definition = JObject [(''type'', JNull)]\<rparr>, demo_s2)"
    by (simp add: demo_s1_def demo_s2_def demo_schema_def demo_version_def get_schema_definition_def
        get_latest_valid_schema_version_def run_ops cong: run_congs)
  from definition_lookup_is_greatest [OF demo_registry demo_reachable(3) demo_limits(3) this]
  obtain d where "greatest_version demo_env (matching_versions demo_env (mem_graph demo_s2)
      \<lparr>vu_id = 65, vu_version_req = None\<rparr>) ((2, 0, 0), d)" and
    "definition_at (mem_graph demo_s2) d = Some (JObject [(''type'', JNull)])"
    by (auto split: if_splits)
  moreover from this have "d = 1"
    by (auto simp: definition_at_def mem_graph_def demo_s2_def demo_s1_def demo_version_def
        schema_into_properties_def split: if_splits option.splits)
  ultimately show ?thesis by simp
qed



definition set_field :: "string \<Rightarrow> string \<Rightarrow> schema \<Rightarrow> schema" where
  "set_field n v sch =
     (if n = ''SCHEMA_NAME'' then sch\<lparr>s_name := v\<rparr>
      else if n = ''SCHEMA_TOPIC_NAME'' then sch\<lparr>s_kafka_topic := v\<rparr>
      else if n = ''SCHEMA_QUERY_ADDRESS'' then sch\<lparr>s_query_address := v\<rparr> else sch)"

lemma schema_decode_Some_iff:
  "schema_decode p = Some sch \<longleftrightarrow>
     Option.bind (p ''SCHEMA_NAME'') as_str = Some (s_name sch) \<and>
     Option.bind (p ''SCHEMA_TOPIC_NAME'') as_str = Some (s_kafka_topic sch) \<and>
     Option.bind (p ''SCHEMA_QUERY_ADDRESS'') as_str = Some (s_query_address sch) \<and>
     Option.bind (p ''SCHEMA_TYPE'') schema_type_from_value = Some (s_schema_type sch)"
  by (cases sch) (auto simp: schema_decode_def split: option.splits)

lemma schema_decode_upd:
  assumes "schema_decode p = Some sch"
    and "n \<in> {''SCHEMA_NAME'', ''SCHEMA_TOPIC_NAME'', ''SCHEMA_QUERY_ADDRESS''}"
  shows "schema_decode (p(n \<mapsto> JString v)) = Some (set_field n v sch)"
  using assms(2) assms(1) [unfolded schema_decode_Some_iff]
  by (elim insertE emptyE; hypsubst) (simp_all add: schema_decode_Some_iff set_field_def)

text \<open>
  Changing one field of a schema changes that field of that schema and nothing else: the
  schema reads back with the new value, and every other vertex, every edge and every version is
  as it was. An identifier without a vertex is refused.
\<close>

theorem field_update_is_local:
  assumes "registry_env E \<alpha>" and "reachable E \<alpha> s" and "within_limit (\<alpha> s)"
    and "update_schema_property E n i v s = (r, t)" and "settled r"
    and "n \<in> {''SCHEMA_NAME'', ''SCHEMA_TOPIC_NAME'', ''SCHEMA_QUERY_ADDRESS''}"
  shows "(r = Inr () \<longleftrightarrow> i \<in> dom (vertices (\<alpha> s))) \<and> (r \<noteq> Inr () \<longrightarrow> r = Inl (NoSchemaWithId i)) \<and>
    (type_at (\<alpha> s) i = Some ''SCHEMA'' \<longrightarrow>
       schema_at (\<alpha> t) i = map_option (set_field n v) (schema_at (\<alpha> s) i)) \<and>
    (\<forall>k. k \<noteq> i \<longrightarrow> vertices (\<alpha> t) k = vertices (\<alpha> s) k) \<and> edges (\<alpha> t) = edges (\<alpha> s)"
proof -
  note eff = registry_env.update_schema_property_effect [OF assms(1,4,5,3)]
  have "schema_at (put_property i n (JString v) (\<alpha> s)) i = map_option (set_field n v) (schema_at (\<alpha> s) i)"
    if sch: "type_at (\<alpha> s) i = Some ''SCHEMA''"
  proof -
    from sch obtain p where p: "vertices (\<alpha> s) i = Some (''SCHEMA'', p)" by (auto simp: type_at_def)
    from registry_ok_vertex [OF registry_env.reachable_ok [OF assms(1,2)] p] obtain sch where "schema_decode p = Some sch" by (auto simp: vertex_ok_def)
    with p assms(6) show ?thesis
      by (simp add: schema_at_def vertices_put_property schema_decode_upd)
  qed
  with eff show ?thesis
    by (cases "i \<in> dom (vertices (\<alpha> s))") (auto simp: vertices_put_property type_at_def domIff)
qed

theorem field_update_is_local_witness:
  "\<exists>t. update_schema_property demo_env ''SCHEMA_NAME'' 65 ''bills'' demo_s1 = (Inr (), t) \<and>
     schema_at (mem_graph t) 65 = map_option (set_field ''SCHEMA_NAME'' ''bills'') (schema_at (mem_graph demo_s1) 65)"
proof -
  obtain r t where run: "update_schema_property demo_env ''SCHEMA_NAME'' 65 ''bills'' demo_s1 = (r, t)"
    by fastforce
  have "r = Inr ()" using run
    by (simp add: demo_s1_def demo_schema_def update_schema_property_def set_vertex_properties_def run_puts
        run_ops cong: run_congs)
  moreover have "type_at (mem_graph demo_s1) 65 = Some ''SCHEMA''"
    by (simp add: type_at_def mem_graph_def demo_s1_def)
  ultimately show ?thesis
    using field_update_is_local [OF demo_registry demo_reachable(2) demo_limits(2) run] run by simp
qed

end
