(* ===== verification/Registry_Export.thy ===== *)
theory Registry_Export
  imports Registry_Props
begin

text \<open>
  Exporting and importing the registry. \<open>content_of\<close> says what an export of a graph holds; an
  export of a registry in order holds it, and importing the export into an empty database gives a
  registry with the same content: the same identifiers of each type with the same schemas,
  definitions and views, the same versions of every schema and the same view edges. Properties
  that were put on a vertex of another type are not part of an export.
\<close>

section \<open>The content of a registry\<close>

definition typed_lookup :: "ds_type \<Rightarrow> (graph \<Rightarrow> uuid \<Rightarrow> 'a option) \<Rightarrow> graph \<Rightarrow> uuid \<rightharpoonup> 'a" where
  "typed_lookup t at g i = (if type_at g i = Some t then at g i else None)"

definition view_edges :: "graph \<Rightarrow> (uuid \<times> uuid) set" where
  "view_edges g = {(i, w). edges g (view_key i w) \<noteq> None}"

definition same_content :: "('s, 'v, 'r) crates \<Rightarrow> graph \<Rightarrow> graph \<Rightarrow> bool" where
  "same_content E g h \<longleftrightarrow>
     type_at g = type_at h \<and>
     typed_lookup ''SCHEMA'' schema_at g = typed_lookup ''SCHEMA'' schema_at h \<and>
     typed_lookup ''DEFINITION'' definition_at g = typed_lookup ''DEFINITION'' definition_at h \<and>
     view_at g = view_at h \<and> versions_at E g = versions_at E h \<and> view_edges g = view_edges h"

definition decode_at :: "ds_type \<Rightarrow> ((string \<rightharpoonup> json) \<Rightarrow> 'a option) \<Rightarrow> graph \<Rightarrow> uuid \<rightharpoonup> 'a" where
  "decode_at ty decode g i =
     (case vertices g i of Some (t, p) \<Rightarrow> if t = ty then decode p else None | None \<Rightarrow> None)"

definition content_of :: "('s, 'v, 'r) crates \<Rightarrow> graph \<Rightarrow> 'v db_export \<Rightarrow> bool" where
  "content_of E g ex \<longleftrightarrow>
     distinct (map fst (ex_schemas ex)) \<and> map_of (ex_schemas ex) = decode_at ''SCHEMA'' schema_decode g \<and>
     distinct (map fst (ex_definitions ex)) \<and> map_of (ex_definitions ex) = decode_at ''DEFINITION'' definition_decode g \<and>
     distinct (map fst (ex_views ex)) \<and> map_of (ex_views ex) = decode_at ''VIEW'' view_decode g \<and>
     distinct (map (\<lambda>e. (sd_schema_id e, sd_definition_id e)) (ex_schema_definitions ex)) \<and>
     set (ex_schema_definitions ex) = {e. \<exists>p. edges g (definition_key (sd_schema_id e) (sd_definition_id e)) = Some p \<and>
       Option.bind (p ''VERSION'') (version_from_value E) = Some (sd_version e)} \<and>
     distinct (map (\<lambda>e. (sv_schema_id e, sv_view_id e)) (ex_schema_views ex)) \<and>
     set (ex_schema_views ex) = {e. edges g (view_key (sv_schema_id e) (sv_view_id e)) \<noteq> None}"

lemma edge_key_eta: "e_t k = ty \<Longrightarrow> \<lparr>outbound_id = outbound_id k, e_t = ty, inbound_id = inbound_id k\<rparr> = k"
  by (cases k) simp

context registry_env
begin

lemma collect_vertices_content:
  assumes codec: "vertex_codec V decode names"
    and run: "get_all_vertex_properties (db E) (RangeVertexQuery u32_max (Some (db_type V))) s = (Inr vps, s')"
    and lim: "within_limit (\<alpha> s)"
    and total: "\<And>i p. vertices (\<alpha> s) i = Some (db_type V, p) \<Longrightarrow> decode p \<noteq> None"
  shows "\<exists>xs. collect_vertices V malformed vps = (Inr xs :: (('v, 'r) registry_error, _) result) \<and> distinct (map fst xs) \<and>
    map_of xs = decode_at (db_type V) decode (\<alpha> s)"
proof -
  let ?id = "\<lambda>vp. v_id (vp_vertex vp)"
  have ids: "?id ` set vps = {i. \<exists>p. vertices (\<alpha> s) i = Some (db_type V, p)}"
    using get_all_vertex_properties_ids [OF run lim] by auto
  have at: "vertices (\<alpha> s) (?id vp) = Some (db_type V, map_of (vp_props vp))" if "vp \<in> set vps" for vp
  proof -
    from that ids obtain p where "vertices (\<alpha> s) (?id vp) = Some (db_type V, p)" by blast
    with get_all_vertex_properties_ok [OF run that] show ?thesis by simp
  qed
  define f where "f vp = (?id vp, the (decode (map_of (vp_props vp))))" for vp :: vertex_properties
  have decoded: "from_properties V vp = Some (f vp)" if "vp \<in> set vps" for vp
    using total [OF at [OF that]] by (auto simp: vertex_codec.from_properties_decode [OF codec] f_def)
  have "collectR (map (\<lambda>props. ok_or (MalformedError (malformed (?id props))) (from_properties V props)) vps) =
      (Inr (map f vps) :: (('v, 'r) registry_error, _) result)"
    using decoded by (induction vps) (simp_all add: ok_or_def)
  then have xs: "collect_vertices V malformed vps = (Inr (hash_collect (map f vps)) :: (('v, 'r) registry_error, _) result)"
    by (simp add: collect_vertices_def bindR_def)
  have "map_of (rev (map f vps)) = decode_at (db_type V) decode (\<alpha> s)"
  proof (rule map_of_functional)
    fix i x assume "(i, x) \<in> set (rev (map f vps))"
    then obtain vp where vp: "vp \<in> set vps" "f vp = (i, x)" by auto
    with decoded [OF vp(1)] at [OF vp(1)] total [OF at [OF vp(1)]] show "decode_at (db_type V) decode (\<alpha> s) i = Some x"
      by (auto simp: decode_at_def f_def)
  next
    have "dom (decode_at (db_type V) decode (\<alpha> s)) = ?id ` set vps"
      unfolding ids using total by (fastforce simp: decode_at_def dom_def split: option.splits if_splits)
    then show "fst ` set (rev (map f vps)) = dom (decode_at (db_type V) decode (\<alpha> s))"
      by (simp add: f_def image_image)
  qed
  with xs show ?thesis by (simp add: map_of_hash_collect distinct_hash_collect)
qed

text \<open>The edges of a type are read with their keys once each.\<close>

lemma typed_edges:
  assumes run: "get_all_edge_properties (db E) (OutboundEdgeQuery (RangeVertexQuery u32_max None) u32_max ty) s = (Inr eps, s')"
    and lim: "within_limit (\<alpha> s)" and ok: "registry_ok E (\<alpha> s)"
  shows "distinct (map (\<lambda>ep. (outbound_id (ep_key ep), inbound_id (ep_key ep))) eps)"
    and "ep_key ` set eps = {k \<in> dom (edges (\<alpha> s)). e_t k = ty}"
    and "ep \<in> set eps \<Longrightarrow> edges (\<alpha> s) (ep_key ep) = Some (map_of (ep_props ep))"
proof -
  have ends: "outbound_id k \<in> dom (vertices (\<alpha> s))" if "k \<in> dom (edges (\<alpha> s))" for k
    using that registry_ok_edge [OF ok] by (auto simp: edge_ok_def)
  have "eq_sem (\<alpha> s) (OutboundEdgeQuery (RangeVertexQuery u32_max None) u32_max ty) =
      {k \<in> dom (edges (\<alpha> s)). e_t k = ty}"
    using ends by (fastforce simp: dom_def)
  with get_all_edge_properties_keys [OF run lim]
  have keys: "distinct (map ep_key eps)" "ep_key ` set eps = {k \<in> dom (edges (\<alpha> s)). e_t k = ty}"
    by simp_all
  show "ep_key ` set eps = {k \<in> dom (edges (\<alpha> s)). e_t k = ty}" by (rule keys(2))
  have "inj_on (\<lambda>k. (outbound_id k, inbound_id k)) (ep_key ` set eps)"
    unfolding keys(2) by (rule inj_onI) (auto intro: edge_key.equality)
  then show "distinct (map (\<lambda>ep. (outbound_id (ep_key ep), inbound_id (ep_key ep))) eps)"
    using keys(1) by (auto simp: distinct_map inj_on_def)
  show "ep \<in> set eps \<Longrightarrow> edges (\<alpha> s) (ep_key ep) = Some (map_of (ep_props ep))"
    by (rule get_all_edge_properties_ok [OF run])
qed

lemma definition_edges_content:
  assumes run: "get_all_edge_properties (db E) (OutboundEdgeQuery (RangeVertexQuery u32_max None) u32_max ''SCHEMA_DEFINITION'') s = (Inr eps, s')"
    and lim: "within_limit (\<alpha> s)" and ok: "registry_ok E (\<alpha> s)"
  shows "\<exists>xs. collectR (map (\<lambda>props. ok_or (err props) (edge_from_properties (SchemaDefinitionEdge E) props)) eps) = Inr xs \<and>
    distinct (map (\<lambda>e. (sd_schema_id e, sd_definition_id e)) xs) \<and>
    set xs = {e. \<exists>p. edges (\<alpha> s) (definition_key (sd_schema_id e) (sd_definition_id e)) = Some p \<and>
       Option.bind (p ''VERSION'') (version_from_value E) = Some (sd_version e)}"
proof -
  note es = typed_edges [OF run lim ok]
  let ?version = "\<lambda>p. Option.bind (p ''VERSION'') (version_from_value E)"
  define f where "f ep = \<lparr>sd_schema_id = outbound_id (ep_key ep), sd_definition_id = inbound_id (ep_key ep),
      sd_version = the (?version (map_of (ep_props ep)))\<rparr>" for ep :: edge_properties
  have key: "ep_key ep = definition_key (outbound_id (ep_key ep)) (inbound_id (ep_key ep))" if "ep \<in> set eps" for ep
  proof -
    have "e_t (ep_key ep) = ''SCHEMA_DEFINITION''" using that es(2) by blast
    then show ?thesis by (simp add: edge_key_eta)
  qed
  have version: "?version (map_of (ep_props ep)) = Some (sd_version (f ep))" if "ep \<in> set eps" for ep
  proof -
    have "e_t (ep_key ep) = ''SCHEMA_DEFINITION''" using that es(2) by blast
    with registry_ok_edge [OF ok es(3) [OF that]] show ?thesis by (auto simp: edge_ok_def f_def)
  qed
  have decoded: "edge_from_properties (SchemaDefinitionEdge E) ep = Some (f ep)" if "ep \<in> set eps" for ep
    using version [OF that]
    by (cases "?version (map_of (ep_props ep))") (simp_all add: SchemaDefinitionEdge_def extract_property_def f_def)
  have "collectR (map (\<lambda>props. ok_or (err props) (edge_from_properties (SchemaDefinitionEdge E) props)) eps) = Inr (map f eps)"
    using decoded by (induction eps) (simp_all add: ok_or_def)
  moreover have "distinct (map (\<lambda>e. (sd_schema_id e, sd_definition_id e)) (map f eps))"
    using es(1) by (simp add: f_def comp_def)
  moreover have "set (map f eps) = {e. \<exists>p. edges (\<alpha> s) (definition_key (sd_schema_id e) (sd_definition_id e)) = Some p \<and>
       ?version p = Some (sd_version e)}" (is "_ = ?R")
  proof (intro set_eqI iffI)
    fix e assume "e \<in> set (map f eps)"
    then obtain ep where ep: "ep \<in> set eps" "e = f ep" by auto
    have "definition_key (sd_schema_id e) (sd_definition_id e) = ep_key ep"
      using key [OF ep(1)] by (simp add: ep(2) f_def)
    with es(3) [OF ep(1)] version [OF ep(1)] ep(2) show "e \<in> ?R" by auto
  next
    fix e assume "e \<in> ?R"
    then obtain p where p: "edges (\<alpha> s) (definition_key (sd_schema_id e) (sd_definition_id e)) = Some p"
      "?version p = Some (sd_version e)" by blast
    then have "definition_key (sd_schema_id e) (sd_definition_id e) \<in> {k \<in> dom (edges (\<alpha> s)). e_t k = ''SCHEMA_DEFINITION''}"
      by auto
    then have "definition_key (sd_schema_id e) (sd_definition_id e) \<in> ep_key ` set eps" unfolding es(2) .
    then obtain ep where ep': "definition_key (sd_schema_id e) (sd_definition_id e) = ep_key ep" "ep \<in> set eps" by (rule imageE)
    note ep = ep'(2) ep'(1) [symmetric]
    have "map_of (ep_props ep) = p" using p(1) es(3) [OF ep(1)] ep(2) by simp
    then have "sd_version (f ep) = sd_version e" using p(2) by (simp add: f_def)
    then have "f ep = e" using ep(2) by (simp add: f_def)
    then show "e \<in> set (map f eps)" using imageI [OF ep(1), of f] by simp
  qed
  ultimately show ?thesis by blast
qed

lemma view_edges_content:
  assumes run: "get_all_edge_properties (db E) (OutboundEdgeQuery (RangeVertexQuery u32_max None) u32_max ''SCHEMA_VIEW'') s = (Inr eps, s')"
    and lim: "within_limit (\<alpha> s)" and ok: "registry_ok E (\<alpha> s)"
  shows "distinct (map (\<lambda>e. (sv_schema_id e, sv_view_id e)) (List.map_filter (edge_from_properties SchemaView) eps)) \<and>
    set (List.map_filter (edge_from_properties SchemaView) eps) =
      {e. edges (\<alpha> s) (view_key (sv_schema_id e) (sv_view_id e)) \<noteq> None}"
proof -
  note es = typed_edges [OF run lim ok]
  define f where "f ep = \<lparr>sv_schema_id = outbound_id (ep_key ep), sv_view_id = inbound_id (ep_key ep)\<rparr>"
    for ep :: edge_properties
  have filtered: "List.map_filter (edge_from_properties SchemaView) eps = map f eps"
    by (simp add: List.map_filter_def SchemaView_def f_def comp_def)
  have "set (map f eps) = {e. edges (\<alpha> s) (view_key (sv_schema_id e) (sv_view_id e)) \<noteq> None}" (is "_ = ?R")
  proof (intro set_eqI iffI)
    fix e assume "e \<in> set (map f eps)"
    then obtain ep where ep: "ep \<in> set eps" "e = f ep" by auto
    have "e_t (ep_key ep) = ''SCHEMA_VIEW''" using ep(1) es(2) by blast
    then have "view_key (sv_schema_id e) (sv_view_id e) = ep_key ep" by (simp add: ep(2) f_def edge_key_eta)
    then have "edges (\<alpha> s) (view_key (sv_schema_id e) (sv_view_id e)) \<noteq> None" using es(3) [OF ep(1)] by simp
    then show "e \<in> ?R" by (rule CollectI)
  next
    fix e assume "e \<in> ?R"
    then have "view_key (sv_schema_id e) (sv_view_id e) \<in> {k \<in> dom (edges (\<alpha> s)). e_t k = ''SCHEMA_VIEW''}" by auto
    then have "view_key (sv_schema_id e) (sv_view_id e) \<in> ep_key ` set eps" unfolding es(2) .
    then obtain ep where ep': "view_key (sv_schema_id e) (sv_view_id e) = ep_key ep" "ep \<in> set eps" by (rule imageE)
    note ep = ep'(2) ep'(1) [symmetric]
    then have "f ep = e" by (simp add: f_def)
    then show "e \<in> set (map f eps)" using imageI [OF ep(1), of f] by simp
  qed
  with filtered es(1) show ?thesis by (simp add: f_def comp_def)
qed

lemma yields_read:
  assumes "keeps (dbE m)" and "\<And>x t. m s = (Inr x, t) \<Longrightarrow> \<alpha> t = \<alpha> s \<Longrightarrow> yields (f x) t P"
  shows "yields (bindE (dbE m) f) s P"
proof (cases "m s")
  case (Pair r t)
  then show ?thesis
  proof (cases r)
    case (Inl e)
    with Pair show ?thesis by (simp add: yields_def bindE_def dbE_def map_errE_def)
  next
    case (Inr x)
    with Pair have "dbE m s = (Inr x, t)" by simp
    with keepsD [OF assms(1) this] assms(2) [of x t] Pair Inr show ?thesis by (simp add: yields_def)
  qed
qed

lemma decodes_when_ok:
  assumes "registry_ok E g"
  shows "vertices g i = Some (''SCHEMA'', p) \<Longrightarrow> schema_decode p \<noteq> None"
    and "vertices g i = Some (''DEFINITION'', p) \<Longrightarrow> definition_decode p \<noteq> None"
    and "vertices g i = Some (''VIEW'', p) \<Longrightarrow> view_decode p \<noteq> None"
  using registry_ok_vertex [OF assms, of i _ p] by (simp_all add: vertex_ok_def)

lemma yields_export_all:
  assumes lim: "within_limit (\<alpha> s)" and ok: "registry_ok E (\<alpha> s)"
  shows "yields (export_all E) s (\<lambda>r. \<exists>ex. r = Inr ex \<and> content_of E (\<alpha> s) ex)"
  unfolding export_all_def
proof (rule yields_connect_thenE, (rule yields_read [OF keeps_dbE_reads(3)] yields_read [OF keeps_dbE_reads(5)])+, goal_cases)
  case (1 s0 defs s1 schemas s2 vws s3 des s4 ves s5)
  from 1 have a: "\<alpha> s0 = \<alpha> s" "\<alpha> s1 = \<alpha> s" "\<alpha> s2 = \<alpha> s" "\<alpha> s3 = \<alpha> s" "\<alpha> s4 = \<alpha> s" by simp_all
  note dec = decodes_when_ok [OF ok]
  obtain ds where ds: "collect_vertices Definition MalformedDefinition defs = (Inr ds :: (('v, 'r) registry_error, _) result)"
    "distinct (map fst ds)" "map_of ds = decode_at ''DEFINITION'' definition_decode (\<alpha> s)"
    using collect_vertices_content [OF definition_codec.vertex_codec_axioms 1(2)] lim dec(2) a by fastforce
  obtain ss where ss: "collect_vertices Schema MalformedSchema schemas = (Inr ss :: (('v, 'r) registry_error, _) result)"
    "distinct (map fst ss)" "map_of ss = decode_at ''SCHEMA'' schema_decode (\<alpha> s)"
    using collect_vertices_content [OF schema_codec.vertex_codec_axioms 1(4)] lim dec(1) a by fastforce
  obtain vs where vs: "collect_vertices View MalformedView vws = (Inr vs :: (('v, 'r) registry_error, _) result)"
    "distinct (map fst vs)" "map_of vs = decode_at ''VIEW'' view_decode (\<alpha> s)"
    using collect_vertices_content [OF view_codec.vertex_codec_axioms 1(6)] lim dec(3) a by fastforce
  have de: "get_all_edge_properties (db E) (OutboundEdgeQuery (RangeVertexQuery u32_max None) u32_max ''SCHEMA_DEFINITION'') s3 = (Inr des, s4)"
    and ve: "get_all_edge_properties (db E) (OutboundEdgeQuery (RangeVertexQuery u32_max None) u32_max ''SCHEMA_VIEW'') s4 = (Inr ves, s5)"
    using 1(8,10) by simp_all
  obtain es where es: "collectR (map (\<lambda>props. ok_or (MalformedError (MalformedSchemaVersion (outbound_id (ep_key props))))
        (edge_from_properties (SchemaDefinitionEdge E) props)) des) = (Inr es :: (('v, 'r) registry_error, _) result)"
    "distinct (map (\<lambda>e. (sd_schema_id e, sd_definition_id e)) es)"
    "set es = {e. \<exists>p. edges (\<alpha> s) (definition_key (sd_schema_id e) (sd_definition_id e)) = Some p \<and>
       Option.bind (p ''VERSION'') (version_from_value E) = Some (sd_version e)}"
    using definition_edges_content [OF de, of "\<lambda>props. MalformedError (MalformedSchemaVersion (outbound_id (ep_key props)))"]
      lim ok a by auto
  note ws = view_edges_content [OF ve, unfolded a, OF lim ok]
  show ?case
    using ds(1) ss(1) vs(1) es(1)
    by (simp add: yields_def bindE_def content_of_def ds(2,3) ss(2,3) vs(2,3) es(2,3) ws)
qed

section \<open>Importing an export\<close>

lemma create_all_succeeds:
  assumes dist: "\<And>x. distinct (map fst (into_properties V x))"
  shows "create_all E V xs s = (r, t) \<Longrightarrow> settled r \<Longrightarrow> distinct (map fst xs) \<Longrightarrow>
    fst ` set xs \<inter> dom (vertices (\<alpha> s)) = {} \<Longrightarrow> r = Inr ()"
proof (induction xs arbitrary: s)
  case (Cons ix xs)
  obtain i x where ix: "ix = (i, x)" by (cases ix)
  obtain r1 s1 where c: "create_vertex_with_properties E V x (Some i) s = (r1, s1)" by fastforce
  have "settled r1" using Cons.prems(1,2) ix c by auto
  from create_vertex_effect [OF c this dist] Cons.prems(4) ix
  have r1: "r1 = Inr i" and s1: "\<alpha> s1 = set_vertex i (db_type V) (map_of (into_properties V x)) (\<alpha> s)"
    by auto
  have "create_all E V (ix # xs) s =
      thenE (thenE (create_vertex_with_properties E V x (Some i)) (returnE ())) (create_all E V xs) s"
    by (simp only: ix forE.simps prod.case)
  then have "create_all E V (ix # xs) s = create_all E V xs s1" by (simp add: thenE_def bindE_def c r1)
  then have "create_all E V xs s1 = (r, t)" using Cons.prems(1) by (rule trans [OF sym])
  moreover have "fst ` set xs \<inter> dom (vertices (\<alpha> s1)) = {}" using Cons.prems(3,4) ix s1 by auto
  moreover have "distinct (map fst xs)" using Cons.prems(3) by simp
  ultimately show ?case by (intro Cons.IH [OF _ Cons.prems(2)])
qed simp

lemma forE_edges_err: "forE xs (set_edge_properties E T) s = (Inl e, t) \<Longrightarrow> db_failure e"
  by (induction xs arbitrary: s) (auto simp: thenE_Inl_iff dest: set_edge_properties_err)

lemma dom_import_vertices [simp]: "dom (vertices (import_vertices V xs g)) = fst ` set xs \<union> dom (vertices g)"
proof (induction xs arbitrary: g)
  case (Cons ix xs)
  have "dom (vertices (set_vertex i t p g)) = insert i (dom (vertices g))" for i t p by auto
  with Cons.IH show ?case by (cases ix) (simp del: vertices_set_vertex)
qed simp

lemma import_loops_succeed:
  assumes run: "thenE (create_all E Schema (ex_schemas ex))
         (thenE (create_all E Definition (ex_definitions ex))
         (thenE (create_all E View (ex_views ex))
         (thenE (forE (ex_schema_definitions ex) (set_edge_properties E (SchemaDefinitionEdge E)))
         (forE (ex_schema_views ex) (set_edge_properties E SchemaView))))) s = (r, t)"
    and r: "settled r"
    and dist: "distinct (map fst (ex_schemas ex) @ map fst (ex_definitions ex) @ map fst (ex_views ex))"
    and new: "dom (vertices (\<alpha> s)) = {}"
  shows "r = Inr ()"
proof -
  obtain r1 s1 where 1: "create_all E Schema (ex_schemas ex) s = (r1, s1)" by fastforce
  have "settled r1" using run 1 r by auto
  then have r1: "r1 = Inr ()"
    using create_all_succeeds [OF schema_codec.distinct_into 1] dist new by simp
  note s1 = create_all_ok [OF schema_codec.distinct_into 1 [unfolded r1]]
  obtain r2 s2 where 2: "create_all E Definition (ex_definitions ex) s1 = (r2, s2)" by fastforce
  have "settled r2" using run 1 r1 2 r by auto
  moreover have "fst ` set (ex_definitions ex) \<inter> dom (vertices (\<alpha> s1)) = {}" using s1 dist new by auto
  ultimately have r2: "r2 = Inr ()" using create_all_succeeds [OF definition_codec.distinct_into 2] dist by simp
  note s2 = create_all_ok [OF definition_codec.distinct_into 2 [unfolded r2]]
  obtain r3 s3 where 3: "create_all E View (ex_views ex) s2 = (r3, s3)" by fastforce
  have "settled r3" using run 1 r1 2 r2 3 r by auto
  moreover have "fst ` set (ex_views ex) \<inter> dom (vertices (\<alpha> s2)) = {}" using s1 s2 dist new by auto
  ultimately have r3: "r3 = Inr ()" using create_all_succeeds [OF view_codec.distinct_into 3] dist by simp
  have run': "thenE (forE (ex_schema_definitions ex) (set_edge_properties E (SchemaDefinitionEdge E)))
      (forE (ex_schema_views ex) (set_edge_properties E SchemaView)) s3 = (r, t)"
    using run 1 r1 2 r2 3 r3 by simp
  show ?thesis
  proof (cases r)
    case (Inl e)
    with run' have "db_failure e" by (auto simp: thenE_Inl_iff dest: forE_edges_err)
    with r Inl show ?thesis by simp
  qed simp
qed

lemma edges_fold_import_edge:
  assumes "distinct (map (\<lambda>x. fst (edge_info T x)) xs)"
    and "\<And>x. x \<in> set xs \<Longrightarrow> outbound_id (fst (edge_info T x)) \<in> dom (vertices g) \<and>
      inbound_id (fst (edge_info T x)) \<in> dom (vertices g) \<and> edges g (fst (edge_info T x)) = None"
  shows "edges (fold (import_edge T) xs g) =
    edges g ++ map_of (map (\<lambda>x. (fst (edge_info T x), map_of (snd (edge_info T x)))) xs)"
  using assms
proof (induction xs arbitrary: g)
  case (Cons x xs)
  obtain k props where info: "edge_info T x = (k, props)" by fastforce
  have step: "import_edge T x g = set_edge k (map_of props) g"
    using Cons.prems(2) [of x] info by (auto simp: import_edge_def)
  have new: "edges g k = None" using Cons.prems(2) [of x] info by simp
  have later: "outbound_id (fst (edge_info T y)) \<in> dom (vertices (import_edge T x g)) \<and>
      inbound_id (fst (edge_info T y)) \<in> dom (vertices (import_edge T x g)) \<and>
      edges (import_edge T x g) (fst (edge_info T y)) = None" if y: "y \<in> set xs" for y
  proof -
    have "fst (edge_info T y) \<noteq> k" using Cons.prems(1) info y by (auto simp: image_iff)
    then show ?thesis using Cons.prems(2) [of y] y by (simp add: step)
  qed
  have k: "map_of (map (\<lambda>x. (fst (edge_info T x), map_of (snd (edge_info T x)))) xs) k = None"
    using Cons.prems(1) info by (auto simp: map_of_eq_None_iff image_iff)
  have "edges (fold (import_edge T) (x # xs) g) = (edges g)(k \<mapsto> map_of props) ++
      map_of (map (\<lambda>x. (fst (edge_info T x), map_of (snd (edge_info T x)))) xs)"
    using Cons.IH [of "import_edge T x g"] Cons.prems(1) later by (simp add: step new fun_upd_def)
  then show ?case using k info by (auto simp: map_add_def fun_eq_iff split: option.splits)
qed simp

text \<open>The vertices and edges of the imported graph.\<close>

lemma decode_at_dom:
  assumes "registry_ok E g"
  shows "dom (decode_at ''SCHEMA'' schema_decode g) = {i. type_at g i = Some ''SCHEMA''}"
    and "dom (decode_at ''DEFINITION'' definition_decode g) = {i. type_at g i = Some ''DEFINITION''}"
    and "dom (decode_at ''VIEW'' view_decode g) = {i. type_at g i = Some ''VIEW''}"
  using decodes_when_ok [OF assms]
  by (fastforce simp: decode_at_def type_at_def dom_def split: option.splits if_splits)+

lemma content_ids:
  assumes "content_of E g ex" and "registry_ok E g"
  shows "fst ` set (ex_schemas ex) = {i. type_at g i = Some ''SCHEMA''}"
    and "fst ` set (ex_definitions ex) = {i. type_at g i = Some ''DEFINITION''}"
    and "fst ` set (ex_views ex) = {i. type_at g i = Some ''VIEW''}"
  using assms(1) decode_at_dom [OF assms(2)]
  by (simp_all add: content_of_def flip: dom_map_of_conv_image_fst)

lemma content_distinct:
  assumes "content_of E g ex" and "registry_ok E g"
  shows "distinct (map fst (ex_schemas ex) @ map fst (ex_definitions ex) @ map fst (ex_views ex))"
proof -
  have "distinct (map fst (ex_schemas ex))" "distinct (map fst (ex_definitions ex))" "distinct (map fst (ex_views ex))"
    using assms(1) by (simp_all add: content_of_def)
  then show ?thesis by (auto simp: content_ids [OF assms])
qed

definition vertices_of :: "'v db_export \<Rightarrow> uuid \<rightharpoonup> ds_type \<times> (string \<rightharpoonup> json)" where
  "vertices_of ex i =
     (case map_of (ex_views ex) i of
        Some v \<Rightarrow> Some (''VIEW'', map_of (view_into_properties v))
      | None \<Rightarrow> (case map_of (ex_definitions ex) i of
          Some d \<Rightarrow> Some (''DEFINITION'', map_of (definition_into_properties d))
        | None \<Rightarrow> map_option (\<lambda>s. (''SCHEMA'', map_of (schema_into_properties s))) (map_of (ex_schemas ex) i)))"

lemma vertices_import_graph:
  assumes "content_of E g ex" and "vertices h = Map.empty"
  shows "vertices (import_graph ex h) = vertices_of ex"
proof
  fix i
  have "distinct (map fst (ex_schemas ex))" "distinct (map fst (ex_definitions ex))" "distinct (map fst (ex_views ex))"
    using assms(1) by (simp_all add: content_of_def)
  then show "vertices (import_graph ex h) i = vertices_of ex i"
    by (auto simp: vertices_import_vertices assms(2) vertices_of_def map_add_def Schema_def Definition_def View_def
        split: option.splits)
qed

lemma vertices_of_content:
  assumes "content_of E g ex" and "registry_ok E g"
  shows "case vertices g i of
      None \<Rightarrow> vertices_of ex i = None
    | Some (t, p) \<Rightarrow> (\<exists>q. vertices_of ex i = Some (t, q) \<and>
        (t = ''SCHEMA'' \<longrightarrow> schema_decode q = schema_decode p) \<and>
        (t = ''DEFINITION'' \<longrightarrow> definition_decode q = definition_decode p) \<and>
        (t = ''VIEW'' \<longrightarrow> view_decode q = view_decode p))"
proof -
  have lookups: "map_of (ex_schemas ex) = decode_at ''SCHEMA'' schema_decode g"
    "map_of (ex_definitions ex) = decode_at ''DEFINITION'' definition_decode g"
    "map_of (ex_views ex) = decode_at ''VIEW'' view_decode g"
    using assms(1) by (simp_all add: content_of_def)
  show ?thesis
  proof (cases "vertices g i")
    case None
    then show ?thesis by (simp add: vertices_of_def lookups decode_at_def)
  next
    case (Some tp)
    obtain t p where tp: "tp = (t, p)" by (cases tp)
    with Some have "known_type t" using registry_ok_vertex [OF assms(2), of i t p] by (simp add: vertex_ok_def)
    then consider "t = ''SCHEMA''" | "t = ''DEFINITION''" | "t = ''VIEW''" by (auto simp: known_type_def)
    then show ?thesis
      using decodes_when_ok [OF assms(2), of i p] Some tp
      by cases (auto simp: vertices_of_def lookups decode_at_def decode_into_ok)
  qed
qed

lemma dom_vertices_of:
  assumes "content_of E g ex" and "registry_ok E g"
  shows "dom (vertices_of ex) = dom (vertices g)"
  using vertices_of_content [OF assms] by (fastforce simp: dom_def split: option.splits)

definition edges_of :: "'v db_export \<Rightarrow> edge_key \<rightharpoonup> (string \<rightharpoonup> json)" where
  "edges_of ex =
     map_of (map (\<lambda>e. (definition_key (sd_schema_id e) (sd_definition_id e),
       [''VERSION'' \<mapsto> version_to_value E (sd_version e)])) (ex_schema_definitions ex)) ++
     map_of (map (\<lambda>e. (view_key (sv_schema_id e) (sv_view_id e), Map.empty)) (ex_schema_views ex))"

lemma edges_import_graph:
  assumes c: "content_of E g ex" and ok: "registry_ok E g" and h: "vertices h = Map.empty" "edges h = Map.empty"
  shows "edges (import_graph ex h) = edges_of ex"
proof -
  let ?g1 = "import_vertices View (ex_views ex) (import_vertices Definition (ex_definitions ex)
      (import_vertices Schema (ex_schemas ex) h))"
  let ?g2 = "fold (import_edge (SchemaDefinitionEdge E)) (ex_schema_definitions ex) ?g1"
  have dom: "dom (vertices ?g1) = dom (vertices g)"
    using vertices_import_graph [OF c h(1)] dom_vertices_of [OF c ok] by simp
  have key: "fst (edge_info (SchemaDefinitionEdge E) x) = definition_key (sd_schema_id x) (sd_definition_id x)"
    "fst (edge_info SchemaView y) = view_key (sv_schema_id y) (sv_view_id y)"
    "snd (edge_info (SchemaDefinitionEdge E) x) = [(''VERSION'', version_to_value E (sd_version x))]"
    "snd (edge_info SchemaView y) = []" for x y
    by (simp_all add: SchemaDefinitionEdge_def SchemaView_def)
  have ends: "outbound_id k \<in> dom (vertices g) \<and> inbound_id k \<in> dom (vertices g)" if "edges g k \<noteq> None" for k
    using that registry_ok_edge [OF ok, of k] by (auto simp: edge_ok_def)
  have d1: "distinct (map (\<lambda>x. fst (edge_info (SchemaDefinitionEdge E) x)) (ex_schema_definitions ex))"
    and d2: "distinct (map (\<lambda>x. fst (edge_info SchemaView x)) (ex_schema_views ex))"
  proof -
    have "distinct (map (\<lambda>e. (sd_schema_id e, sd_definition_id e)) (ex_schema_definitions ex))"
      "distinct (map (\<lambda>e. (sv_schema_id e, sv_view_id e)) (ex_schema_views ex))"
      using c by (simp_all add: content_of_def)
    then show "distinct (map (\<lambda>x. fst (edge_info (SchemaDefinitionEdge E) x)) (ex_schema_definitions ex))"
      "distinct (map (\<lambda>x. fst (edge_info SchemaView x)) (ex_schema_views ex))"
      by (simp_all add: key distinct_map inj_on_def)
  qed
  have e2: "edges ?g2 = map_of (map (\<lambda>e. (definition_key (sd_schema_id e) (sd_definition_id e),
       [''VERSION'' \<mapsto> version_to_value E (sd_version e)])) (ex_schema_definitions ex))"
  proof (subst edges_fold_import_edge [OF d1])
    fix x assume "x \<in> set (ex_schema_definitions ex)"
    then have "edges g (definition_key (sd_schema_id x) (sd_definition_id x)) \<noteq> None"
      using c by (auto simp: content_of_def)
    from ends [OF this] show "outbound_id (fst (edge_info (SchemaDefinitionEdge E) x)) \<in> dom (vertices ?g1) \<and>
        inbound_id (fst (edge_info (SchemaDefinitionEdge E) x)) \<in> dom (vertices ?g1) \<and>
        edges ?g1 (fst (edge_info (SchemaDefinitionEdge E) x)) = None"
      by (simp add: dom key h(2) del: dom_import_vertices)
  qed (simp add: key h(2))
  show ?thesis
  proof (subst edges_fold_import_edge [OF d2])
    fix x assume "x \<in> set (ex_schema_views ex)"
    then have "edges g (view_key (sv_schema_id x) (sv_view_id x)) \<noteq> None"
      using c by (auto simp: content_of_def)
    from ends [OF this] show "outbound_id (fst (edge_info SchemaView x)) \<in> dom (vertices ?g2) \<and>
        inbound_id (fst (edge_info SchemaView x)) \<in> dom (vertices ?g2) \<and> edges ?g2 (fst (edge_info SchemaView x)) = None"
      unfolding e2 by (simp add: dom key map_of_eq_None_iff image_iff del: dom_import_vertices)
  qed (simp add: e2 key edges_of_def)
qed

lemma edges_of_definition:
  assumes c: "content_of E g ex"
  shows "edges_of ex (definition_key i d) = Some p \<longleftrightarrow>
    (\<exists>v. \<lparr>sd_schema_id = i, sd_definition_id = d, sd_version = v\<rparr> \<in> set (ex_schema_definitions ex) \<and>
      p = [''VERSION'' \<mapsto> version_to_value E v])"
proof -
  let ?es = "map (\<lambda>e. (definition_key (sd_schema_id e) (sd_definition_id e),
       [''VERSION'' \<mapsto> version_to_value E (sd_version e)])) (ex_schema_definitions ex)"
  have "distinct (map (\<lambda>e. (sd_schema_id e, sd_definition_id e)) (ex_schema_definitions ex))"
    using c by (simp add: content_of_def)
  then have "distinct (map fst ?es)" by (simp add: comp_def distinct_map inj_on_def)
  then have "map_of ?es (definition_key i d) = Some p \<longleftrightarrow> (definition_key i d, p) \<in> set ?es"
    by (rule map_of_eq_Some_iff)
  moreover have "map_of (map (\<lambda>e. (view_key (sv_schema_id e) (sv_view_id e), Map.empty :: string \<rightharpoonup> json)) (ex_schema_views ex))
      (definition_key i d) = None"
    by (auto simp: map_of_eq_None_iff)
  ultimately have "edges_of ex (definition_key i d) = Some p \<longleftrightarrow> (definition_key i d, p) \<in> set ?es"
    by (simp add: edges_of_def map_add_Some_iff)
  also have "\<dots> \<longleftrightarrow> (\<exists>e \<in> set (ex_schema_definitions ex). sd_schema_id e = i \<and> sd_definition_id e = d \<and>
      p = [''VERSION'' \<mapsto> version_to_value E (sd_version e)])"
    by auto
  also have "\<dots> \<longleftrightarrow> (\<exists>v. \<lparr>sd_schema_id = i, sd_definition_id = d, sd_version = v\<rparr> \<in> set (ex_schema_definitions ex) \<and>
      p = [''VERSION'' \<mapsto> version_to_value E v])"
  proof
    assume "\<exists>e \<in> set (ex_schema_definitions ex). sd_schema_id e = i \<and> sd_definition_id e = d \<and>
      p = [''VERSION'' \<mapsto> version_to_value E (sd_version e)]"
    then obtain e where e: "e \<in> set (ex_schema_definitions ex)" "sd_schema_id e = i" "sd_definition_id e = d"
      "p = [''VERSION'' \<mapsto> version_to_value E (sd_version e)]" by blast
    then have "\<lparr>sd_schema_id = i, sd_definition_id = d, sd_version = sd_version e\<rparr> = e" by simp
    with e(1,4) show "\<exists>v. \<lparr>sd_schema_id = i, sd_definition_id = d, sd_version = v\<rparr> \<in> set (ex_schema_definitions ex) \<and>
        p = [''VERSION'' \<mapsto> version_to_value E v]" by (intro exI [of _ "sd_version e"]) simp
  qed (auto intro: rev_bexI)
  finally show ?thesis .
qed

lemma view_edge_mem:
  "(\<exists>e \<in> A. sv_schema_id e = i \<and> sv_view_id e = w) \<longleftrightarrow> \<lparr>sv_schema_id = i, sv_view_id = w\<rparr> \<in> A"
proof
  assume "\<exists>e \<in> A. sv_schema_id e = i \<and> sv_view_id e = w"
  then obtain e where e: "e \<in> A" "sv_schema_id e = i" "sv_view_id e = w" by blast
  then have "\<lparr>sv_schema_id = i, sv_view_id = w\<rparr> = e" by simp
  with e(1) show "\<lparr>sv_schema_id = i, sv_view_id = w\<rparr> \<in> A" by simp
qed (rule bexI [rotated], auto)

lemma edges_of_view:
  assumes c: "content_of E g ex"
  shows "edges_of ex (view_key i w) \<noteq> None \<longleftrightarrow> edges g (view_key i w) \<noteq> None"
proof -
  let ?vs = "map (\<lambda>e. (view_key (sv_schema_id e) (sv_view_id e), Map.empty :: string \<rightharpoonup> json)) (ex_schema_views ex)"
  have "map_of (map (\<lambda>e. (definition_key (sd_schema_id e) (sd_definition_id e),
       [''VERSION'' \<mapsto> version_to_value E (sd_version e)])) (ex_schema_definitions ex)) (view_key i w) = None"
    by (auto simp: map_of_eq_None_iff)
  then have "edges_of ex (view_key i w) = (map_of ?vs (view_key i w) :: (string \<rightharpoonup> json) option)"
    by (simp add: edges_of_def map_add_def split: option.split)
  then have "edges_of ex (view_key i w) = None \<longleftrightarrow> view_key i w \<notin> fst ` set ?vs"
    by (simp only: map_of_eq_None_iff)
  also have "\<dots> \<longleftrightarrow> \<lparr>sv_schema_id = i, sv_view_id = w\<rparr> \<notin> set (ex_schema_views ex)"
    unfolding view_edge_mem [symmetric] by (auto simp: image_iff)
  also have "\<dots> \<longleftrightarrow> edges g (view_key i w) = None" using c by (simp add: content_of_def)
  finally show ?thesis by simp
qed

lemma content_determines:
  assumes c: "content_of E g ex" and ok: "registry_ok E g" and h: "vertices h = vertices_of ex" "edges h = edges_of ex"
  shows "same_content E g h"
proof -
  note vs = vertices_of_content [OF c ok, folded h(1)]
  have lookups: "type_at g i = type_at h i \<and> typed_lookup ''SCHEMA'' schema_at g i = typed_lookup ''SCHEMA'' schema_at h i \<and>
    typed_lookup ''DEFINITION'' definition_at g i = typed_lookup ''DEFINITION'' definition_at h i \<and>
    view_at g i = view_at h i" for i
  proof (cases "vertices g i")
    case None
    with vs [of i] have "vertices h i = None" by simp
    with None show ?thesis
      by (simp add: type_at_def typed_lookup_def view_at_def)
  next
    case (Some tp)
    obtain t p where tp: "tp = (t, p)" by (cases tp)
    with vs [of i] Some obtain q where q: "vertices h i = Some (t, q)"
      and dec: "t = ''SCHEMA'' \<Longrightarrow> schema_decode q = schema_decode p"
        "t = ''DEFINITION'' \<Longrightarrow> definition_decode q = definition_decode p"
        "t = ''VIEW'' \<Longrightarrow> view_decode q = view_decode p" by auto
    have "t = ''DEFINITION'' \<Longrightarrow> q ''DEFINITION'' = p ''DEFINITION''"
      using dec(2) by (cases "q ''DEFINITION''"; cases "p ''DEFINITION''") (simp_all add: definition_decode_def)
    with dec show ?thesis
      by (simp add: type_at_def typed_lookup_def view_at_def schema_at_def definition_at_def Some tp q)
  qed
  have dom: "dom (vertices h) = dom (vertices g)" using dom_vertices_of [OF c ok] h(1) by simp
  have versions: "(v, d) \<in> versions_at E g i \<longleftrightarrow> (v, d) \<in> versions_at E h i" for v d i
  proof -
    have "(v, d) \<in> versions_at E g i \<longleftrightarrow> i \<in> dom (vertices g) \<and>
        \<lparr>sd_schema_id = i, sd_definition_id = d, sd_version = v\<rparr> \<in> set (ex_schema_definitions ex)"
      using c by (auto simp: versions_at_def version_values_iff content_of_def bind_eq_Some_conv)
    moreover have "(v, d) \<in> versions_at E h i \<longleftrightarrow> i \<in> dom (vertices g) \<and>
        \<lparr>sd_schema_id = i, sd_definition_id = d, sd_version = v\<rparr> \<in> set (ex_schema_definitions ex)"
    proof
      assume "(v, d) \<in> versions_at E h i"
      then show "i \<in> dom (vertices g) \<and>
          \<lparr>sd_schema_id = i, sd_definition_id = d, sd_version = v\<rparr> \<in> set (ex_schema_definitions ex)"
        unfolding versions_at_def version_values_iff dom h(2) edges_of_definition [OF c]
        by (auto simp: version_roundtrip)
    next
      assume "i \<in> dom (vertices g) \<and>
          \<lparr>sd_schema_id = i, sd_definition_id = d, sd_version = v\<rparr> \<in> set (ex_schema_definitions ex)"
      then have "(version_to_value E v, d) \<in> version_values h i"
        unfolding version_values_iff dom h(2) edges_of_definition [OF c]
        by (intro conjI exI [of _ "[''VERSION'' \<mapsto> version_to_value E v]"] exI [of _ v]) auto
      then show "(v, d) \<in> versions_at E h i" by (auto simp: versions_at_def version_roundtrip)
    qed
    ultimately show ?thesis by simp
  qed
  have "view_edges g = view_edges h" by (simp only: view_edges_def h(2) edges_of_view [OF c])
  moreover have "versions_at E g = versions_at E h" using versions by (intro ext set_eqI) (metis prod.collapse)
  ultimately show ?thesis using lookups by (simp add: same_content_def fun_eq_iff)
qed

lemma import_of_content:
  assumes c: "content_of E g ex" and ok: "registry_ok E g" and empty: "\<alpha> u = empty_graph"
    and run: "import_all E ex u = (r, t)" and r: "settled r"
  shows "r = Inr () \<and> same_content E g (\<alpha> t)"
proof -
  have ev: "vertices (\<alpha> u) = Map.empty" "edges (\<alpha> u) = Map.empty" by (simp_all add: empty empty_graph_def)
  have lim: "within_limit (\<alpha> u)" by (simp add: within_limit_def ev)
  have oku: "registry_ok E (\<alpha> u)" by (simp add: empty registry_ok_empty)
  have ends: "edge_ok E g k p" if "edges g k = Some p" for k p using ok that by (rule registry_ok_edge)
  have "call_ok (CallImportAll ex)"
  proof (simp add: content_ids [OF c ok], intro conjI ballI)
    fix e assume "e \<in> set (ex_schema_definitions ex)"
    then obtain p where "edges g (definition_key (sd_schema_id e) (sd_definition_id e)) = Some p"
      using c by (auto simp: content_of_def)
    from ends [OF this] show "type_at g (sd_definition_id e) = Some ''DEFINITION''" by (simp add: edge_ok_def)
  next
    fix e assume "e \<in> set (ex_schema_views ex)"
    then obtain p where "edges g (view_key (sv_schema_id e) (sv_view_id e)) = Some p"
      using c by (auto simp: content_of_def)
    from ends [OF this] show "type_at g (sv_view_id e) = Some ''VIEW''" by (simp add: edge_ok_def)
  qed
  note effect = import_all_effect [OF run r lim oku this]
  have none: "\<not> (\<exists>i. type_at (\<alpha> u) i = Some ''SCHEMA'')" by (simp add: type_at_def ev)
  obtain r0 s0 where n: "get_all_schema_names E u = (r0, s0)" by fastforce
  have "settled r0" using run n r by (auto simp: import_all_def)
  with yields_settled [OF yields_get_all_schema_names [OF lim oku] n] none have r0: "r0 = Inr []" by auto
  have s0: "\<alpha> s0 = \<alpha> u" using keepsD [OF keeps_get_all_schema_names n] .
  have "r = Inr ()"
    by (rule import_loops_succeed [OF _ r content_distinct [OF c ok], of s0])
      (use run n r0 s0 in \<open>simp_all add: import_all_def ev\<close>)
  with effect none have t: "\<alpha> t = import_graph ex (\<alpha> u)" by simp
  have "same_content E g (\<alpha> t)"
    by (rule content_determines [OF c ok])
      (simp_all only: t vertices_import_graph [OF c ev(1)] edges_import_graph [OF c ok ev])
  with \<open>r = Inr ()\<close> show ?thesis by simp
qed

end

text \<open>An export of a registry that was reached by any calls holds the registry's content.\<close>

lemma export_has_content:
  assumes "registry_env E \<alpha>" and "reachable E \<alpha> s" and "within_limit (\<alpha> s)"
    and "export_all E s = (q, s')" and "settled q"
  shows "\<exists>ex. q = Inr ex \<and> content_of E (\<alpha> s) ex \<and> registry_ok E (\<alpha> s) \<and> \<alpha> s' = \<alpha> s"
proof -
  have ok: "registry_ok E (\<alpha> s)" by (rule registry_env.reachable_ok [OF assms(1,2)])
  have "\<alpha> s' = \<alpha> s"
    by (rule registry_env.keepsD [OF assms(1) registry_env.keeps_export_all [OF assms(1)] assms(4)])
  with ok registry_env.yields_settled [OF assms(1) registry_env.yields_export_all [OF assms(1,3) ok] assms(4,5)]
  show ?thesis by blast
qed

lemma import_gives_content:
  assumes "registry_env E \<alpha>" and "content_of E g ex" and "registry_ok E g" and "\<alpha> u = empty_graph"
  shows "case import_all E ex u of (Inr _, t) \<Rightarrow> same_content E g (\<alpha> t) | (Inl e, _) \<Rightarrow> db_failure e"
proof -
  obtain r t where run: "import_all E ex u = (r, t)" by fastforce
  show ?thesis
  proof (cases "settled r")
    case True
    from registry_env.import_of_content [OF assms run True] run show ?thesis by simp
  qed (use run in auto)
qed

text \<open>
  C40. An export is a faithful copy. Exporting a registry that was reached by any calls never fails
  by itself, and importing the export into an empty database succeeds, unless the database fails,
  and gives a registry with the same schemas, definitions, views, versions and view edges under the
  same identifiers.
\<close>

theorem export_import_roundtrip:
  assumes "registry_env E \<alpha>" and "reachable E \<alpha> s" and "within_limit (\<alpha> s)"
    and "export_all E s = (q, s')" and "settled q" and "\<alpha> u = empty_graph"
  shows "\<exists>ex. q = Inr ex \<and> \<alpha> s' = \<alpha> s \<and>
    (case import_all E ex u of
       (Inr _, t) \<Rightarrow> same_content E (\<alpha> s) (\<alpha> t)
     | (Inl e, _) \<Rightarrow> db_failure e)"
proof -
  obtain ex where "q = Inr ex" "content_of E (\<alpha> s) ex" "registry_ok E (\<alpha> s)" "\<alpha> s' = \<alpha> s"
    using export_has_content [OF assms(1-5)] by blast
  with import_gives_content [OF assms(1) this(2,3) assms(6)] show ?thesis by (intro exI [of _ ex] conjI)
qed

text \<open>The sample history with a schema, two versions and a view.\<close>

lemma demo_export:
  "\<exists>ex s'. export_all demo_env demo_s3 = (Inr ex, s')"
proof -
  obtain q s' where run: "export_all demo_env demo_s3 = (q, s')" by fastforce
  have "settled q"
  proof (intro allI impI)
    fix e assume "q = Inl e"
    show "\<not> db_failure e" using run \<open>q = Inl e\<close>
      by (auto simp: export_all_def run_simps collect_vertices_def bindR_def ok_or_def split: sum.splits option.splits
          dest!: collectR_Inl_mem)
  qed
  with export_has_content [OF demo_registry demo_reachable(4) demo_limits(4) run] run show ?thesis by auto
qed

theorem export_import_roundtrip_witness:
  "\<exists>ex. fst (export_all demo_env demo_s3) = Inr ex \<and>
     (case import_all demo_env ex mem_empty of
        (Inr _, t) \<Rightarrow> same_content demo_env (mem_graph demo_s3) (mem_graph t)
      | (Inl e, _) \<Rightarrow> db_failure e)"
proof -
  from demo_export obtain ex s' where run: "export_all demo_env demo_s3 = (Inr ex, s')" by blast
  from export_import_roundtrip [OF demo_registry demo_reachable(4) demo_limits(4) run _ mem_graph_empty] run
  show ?thesis by auto
qed

end
