(* ===== verification/Registry_Replication.thy ===== *)
theory Registry_Replication
  imports Registry_Machine
begin

text \<open>
  Replication of the schema registry: \<open>replication/mod.rs\<close>, \<open>replication/master.rs\<close> and
  \<open>replication/slave.rs\<close>. A node in the master role has a thread that receives the events of
  its own writes over an mpsc channel, to publish them; a node in the slave role has a task
  that applies events from the message queue to its database. \<open>set_role\<close> ends the current task
  by a oneshot signal and starts the next one. The tasks a node has started are the list
  \<open>tasks\<close>; the channel ends that \<open>ReplicationState\<close> owns are indices into it.

  \<open>replicate_db_events\<close> is an async function, and the closure of \<open>thread::spawn\<close> in
  \<open>start_replication_master\<close> only calls it: the thread returns the future, which nobody polls,
  and it is dropped with the channel ends it owns. \<open>consume_mq\<close> on the other hand is handed to
  \<open>tokio::spawn\<close>, which polls it. The field \<open>rt_polled\<close> says whether a task's future is polled.

  Publishing is a spawned task of the tokio runtime; the list \<open>published\<close> holds the events handed
  to the producer, in the order the thread received them.
\<close>

section \<open>Events and roles\<close>

datatype 'v replication_event =
    AddSchema new_schema uuid
  | AddSchemaVersion uuid "'v new_schema_version"
  | UpdateSchemaMetadata uuid "string option" "string option" "string option" "schema_type option"
  | AddViewToSchema uuid view uuid
  | UpdateView uuid view_update

text \<open>The key a message is published under: the identifier that decides its partition.\<close>

fun event_key :: "'v replication_event \<Rightarrow> uuid" where
  "event_key (AddSchema schema uid) = uid"
| "event_key (AddSchemaVersion uid new_version) = uid"
| "event_key (AddViewToSchema schema_id view view_id) = schema_id"
| "event_key (UpdateSchemaMetadata uid name topic query_address schema_type) = uid"
| "event_key (UpdateView uid view) = uid"

text \<open>The source's third role is called \<open>None\<close>.\<close>

datatype replication_role = Master | Slave | NoRole

section \<open>The state of replication\<close>

text \<open>
  A task: its inbox (the mpsc buffer of a master thread), whether the sender of that channel is
  still alive, whether the stop signal was sent, whether its future is polled at all, and whether
  it still holds its ends of the channels.
\<close>

record 'v repl_task =
  rt_role :: replication_role
  rt_inbox :: "'v replication_event list"
  rt_sender :: bool
  rt_killed :: bool
  rt_polled :: bool
  rt_running :: bool

record 'v replication_state =
  replication_role :: replication_role
  stop_channel :: "nat option"
  master_replication_channel :: "nat option"
  tasks :: "'v repl_task list"
  published :: "'v replication_event list"
  aborted :: bool

definition replication_state_new :: "'v replication_state" where
  "replication_state_new =
     \<lparr>replication_role = NoRole, stop_channel = None, master_replication_channel = None,
      tasks = [], published = [], aborted = False\<rparr>"

definition new_task :: "replication_role \<Rightarrow> 'v repl_task" where
  "new_task role =
     \<lparr>rt_role = role, rt_inbox = [], rt_sender = (role = Master), rt_killed = False,
      rt_polled = (role = Slave), rt_running = True\<rparr>"

definition update_task :: "nat \<Rightarrow> ('v repl_task \<Rightarrow> 'v repl_task) \<Rightarrow> 'v replication_state \<Rightarrow> 'v replication_state" where
  "update_task k f st = st\<lparr>tasks := (tasks st)[k := f (tasks st ! k)]\<rparr>"

text \<open>\<open>master_replication_channel.take()\<close> drops the sender.\<close>

definition take_master_channel :: "'v replication_state \<Rightarrow> 'v replication_state" where
  "take_master_channel st =
     (case master_replication_channel st of
        None \<Rightarrow> st
      | Some k \<Rightarrow> update_task k (\<lambda>t. t\<lparr>rt_sender := False\<rparr>) (st\<lparr>master_replication_channel := None\<rparr>))"

definition start_replication_master :: "'v replication_state \<Rightarrow> 'v replication_state" where
  "start_replication_master st =
     st\<lparr>master_replication_channel := Some (length (tasks st)), tasks := tasks st @ [new_task Master]\<rparr>"

definition start_replication_slave :: "'v replication_state \<Rightarrow> 'v replication_state" where
  "start_replication_slave st = st\<lparr>tasks := tasks st @ [new_task Slave]\<rparr>"

text \<open>
  \<open>old_channel.send(()).unwrap()\<close> panics when the receiver is gone; the outcome \<open>None\<close> is that
  panic.
\<close>

definition set_role :: "replication_role \<Rightarrow> 'v replication_state \<Rightarrow> 'v replication_state option" where
  "set_role role st =
     map_option
       (\<lambda>st. let st = (take_master_channel st)\<lparr>replication_role := role\<rparr> in
          (case role of
             Master \<Rightarrow> start_replication_master (st\<lparr>stop_channel := Some (length (tasks st))\<rparr>)
           | Slave \<Rightarrow> start_replication_slave (st\<lparr>stop_channel := Some (length (tasks st))\<rparr>)
           | NoRole \<Rightarrow> st))
       (case stop_channel st of
          None \<Rightarrow> Some st
        | Some k \<Rightarrow>
            if rt_running (tasks st ! k)
            then Some (update_task k (\<lambda>t. t\<lparr>rt_killed := True\<rparr>) (st\<lparr>stop_channel := None\<rparr>))
            else None)"

text \<open>Sending on the channel fails, and is only logged, when the receiving thread has ended.\<close>

definition replicate_message :: "'v replication_event \<Rightarrow> 'v replication_state \<Rightarrow> 'v replication_state" where
  "replicate_message event st =
     (if replication_role st \<noteq> Master then st
      else case master_replication_channel st of
        None \<Rightarrow> st
      | Some k \<Rightarrow>
          if rt_running (tasks st ! k)
          then update_task k (\<lambda>t. t\<lparr>rt_inbox := rt_inbox t @ [event]\<rparr>) st else st)"

text \<open>
  One turn of the loop of \<open>replicate_db_events\<close> in task \<open>k\<close>: \<open>recv\<close> waits while the buffer is
  empty and a sender lives (\<open>None\<close>), and an empty buffer without a sender is the error that
  aborts the process.
\<close>

definition replicate_db_events :: "nat \<Rightarrow> 'v replication_state \<Rightarrow> 'v replication_state option" where
  "replicate_db_events k st =
     (let t = tasks st ! k in
      case rt_inbox t of
        event # rest \<Rightarrow>
          (let st = update_task k (\<lambda>t. t\<lparr>rt_inbox := rest\<rparr>) st in
           if rt_killed t then Some (update_task k (\<lambda>t. t\<lparr>rt_running := False\<rparr>) st)
           else Some (st\<lparr>published := published st @ [event]\<rparr>))
      | [] \<Rightarrow> if rt_sender t then None else Some (st\<lparr>aborted := True\<rparr>))"

section \<open>The slave\<close>

datatype ('v, 'r) consume_error =
    PayloadError string
  | DeserializationFailed string
  | DbRefused "('v, 'r) registry_error"
  | AckFailed string

text \<open>\<open>if let Some(x) = x { f(x)?; }\<close>\<close>

definition if_some :: "'a option \<Rightarrow> ('a \<Rightarrow> ('s, 'e, unit) op) \<Rightarrow> ('s, 'e, unit) op" where
  "if_some x f = (case x of None \<Rightarrow> returnE () | Some y \<Rightarrow> f y)"

fun apply_event :: "('s, 'v, 'r) crates \<Rightarrow> 'v replication_event \<Rightarrow> ('s, 'v, 'r, unit) db_op" where
  "apply_event E (AddSchema schema uid) = discard (add_schema E schema (Some uid))"
| "apply_event E (AddSchemaVersion uid new_version) = add_new_version_of_schema E uid new_version"
| "apply_event E (AddViewToSchema schema_id view view_id) =
     discard (add_view_to_schema E schema_id view (Some view_id))"
| "apply_event E (UpdateSchemaMetadata uid name topic query_address schema_type) =
     thenE (if_some name (update_schema_name E uid))
     (thenE (if_some topic (update_schema_topic E uid))
     (thenE (if_some query_address (update_schema_query_address E uid))
     (if_some schema_type (update_schema_type E uid))))"
| "apply_event E (UpdateView uid view) = discard (update_view E uid view)"

text \<open>
  A message of the queue: its payload, if that is text, and what acknowledging it returns.
\<close>

record queue_message =
  qm_payload :: "(string, string) result"
  qm_ack :: "(string, unit) result"

definition consume_message ::
  "('s, 'v, 'r) crates \<Rightarrow> (string \<Rightarrow> (string, 'v replication_event) result) \<Rightarrow> queue_message \<Rightarrow>
   ('s, ('v, 'r) consume_error, unit) op" where
  "consume_message E event_from_str message =
     bindE (liftR (map_err PayloadError (qm_payload message))) (\<lambda>payload.
     bindE (liftR (map_err DeserializationFailed (event_from_str payload))) (\<lambda>event.
     thenE (map_errE DbRefused (apply_event E event))
     (liftR (map_err AckFailed (qm_ack message)))))"

text \<open>
  The loop of \<open>consume_mq\<close> over the messages the stream delivers; each comes with whether the
  stop signal has been sent by the time it is received. A message that fails is logged and left
  unacknowledged, and the loop goes on. The result lists the payloads that were processed.
\<close>

primrec consume_mq ::
  "('s, 'v, 'r) crates \<Rightarrow> (string \<Rightarrow> (string, 'v replication_event) result) \<Rightarrow>
   (bool \<times> (string, queue_message) result) list \<Rightarrow> 's \<Rightarrow> (('v, 'r) consume_error, unit) result list \<times> 's" where
  "consume_mq E event_from_str [] s = ([], s)"
| "consume_mq E event_from_str (m # ms) s =
     (case m of (killed, message) \<Rightarrow>
        if killed then ([], s)
        else case message of
          Inl error \<Rightarrow> consume_mq E event_from_str ms s
        | Inr message \<Rightarrow>
            (case consume_message E event_from_str message s of (r, t) \<Rightarrow>
             case consume_mq E event_from_str ms t of (rs, u) \<Rightarrow> (r # rs, u)))"

section \<open>The replication machine\<close>

text \<open>
  What can happen to the replication state of a running process: the role is set, a write is
  replicated, a polled master loop takes a turn, the thread of a master whose future is not polled
  returns and the future is dropped, a slave task ends because its stream ended, or a slave task
  that was told to stop receives its next message.
\<close>

inductive repl_step :: "'v replication_state \<Rightarrow> 'v replication_state \<Rightarrow> bool" where
  step_role: "\<not> aborted st \<Longrightarrow> set_role role st = Some st' \<Longrightarrow> repl_step st st'"
| step_event: "\<not> aborted st \<Longrightarrow> repl_step st (replicate_message event st)"
| step_master: "\<not> aborted st \<Longrightarrow> k < length (tasks st) \<Longrightarrow> rt_role (tasks st ! k) = Master \<Longrightarrow>
    rt_polled (tasks st ! k) \<Longrightarrow> rt_running (tasks st ! k) \<Longrightarrow> replicate_db_events k st = Some st' \<Longrightarrow> repl_step st st'"
| step_end: "\<not> aborted st \<Longrightarrow> k < length (tasks st) \<Longrightarrow>
    rt_role (tasks st ! k) = Slave \<or> \<not> rt_polled (tasks st ! k) \<Longrightarrow>
    rt_running (tasks st ! k) \<Longrightarrow> repl_step st (update_task k (\<lambda>t. t\<lparr>rt_running := False\<rparr>) st)"

inductive repl_reachable :: "'v replication_state \<Rightarrow> bool" where
  repl_init: "repl_reachable replication_state_new"
| repl_next: "repl_reachable st \<Longrightarrow> repl_step st st' \<Longrightarrow> repl_reachable st'"

text \<open>
  The invariant: the two channel ends point at existing tasks; only the task that can still be
  told to stop has not been; the task events go to is the one that can be told to stop, and there
  is one exactly in the master role; only slave tasks are polled, so nothing was published.
\<close>

definition repl_ok :: "'v replication_state \<Rightarrow> bool" where
  "repl_ok st \<longleftrightarrow>
     (\<forall>k. stop_channel st = Some k \<longrightarrow> k < length (tasks st) \<and> \<not> rt_killed (tasks st ! k) \<and>
        rt_role (tasks st ! k) = replication_role st) \<and>
     (\<forall>k. master_replication_channel st = Some k \<longrightarrow> stop_channel st = Some k \<and>
        rt_role (tasks st ! k) = Master \<and> rt_sender (tasks st ! k)) \<and>
     (\<forall>k < length (tasks st). \<not> rt_killed (tasks st ! k) \<longrightarrow> stop_channel st = Some k) \<and>
     (\<forall>k < length (tasks st). rt_sender (tasks st ! k) \<longrightarrow> master_replication_channel st = Some k) \<and>
     (replication_role st = Master \<longrightarrow> master_replication_channel st \<noteq> None) \<and>
     (replication_role st = NoRole \<longrightarrow> stop_channel st = None) \<and>
     (\<forall>k < length (tasks st). rt_polled (tasks st ! k) \<longrightarrow> rt_role (tasks st ! k) = Slave) \<and>
     published st = [] \<and> \<not> aborted st"

lemma length_update_task [simp]: "length (tasks (update_task k f st)) = length (tasks st)"
  by (simp add: update_task_def)

lemma update_task_fields [simp]:
  "replication_role (update_task k f st) = replication_role st"
  "stop_channel (update_task k f st) = stop_channel st"
  "master_replication_channel (update_task k f st) = master_replication_channel st"
  "published (update_task k f st) = published st" "aborted (update_task k f st) = aborted st"
  by (simp_all add: update_task_def)

lemma nth_update_task:
  "j < length (tasks st) \<Longrightarrow> tasks (update_task k f st) ! j = (if j = k then f (tasks st ! k) else tasks st ! j)"
  by (auto simp: update_task_def nth_list_update)

lemma repl_okI:
  assumes "\<And>k. stop_channel st = Some k \<Longrightarrow> k < length (tasks st) \<and> \<not> rt_killed (tasks st ! k) \<and>
        rt_role (tasks st ! k) = replication_role st"
    and "\<And>k. master_replication_channel st = Some k \<Longrightarrow> stop_channel st = Some k \<and>
        rt_role (tasks st ! k) = Master \<and> rt_sender (tasks st ! k)"
    and "\<And>k. k < length (tasks st) \<Longrightarrow> \<not> rt_killed (tasks st ! k) \<Longrightarrow> stop_channel st = Some k"
    and "\<And>k. k < length (tasks st) \<Longrightarrow> rt_sender (tasks st ! k) \<Longrightarrow> master_replication_channel st = Some k"
    and "replication_role st = Master \<Longrightarrow> master_replication_channel st \<noteq> None"
    and "replication_role st = NoRole \<Longrightarrow> stop_channel st = None"
    and "\<And>k. k < length (tasks st) \<Longrightarrow> rt_polled (tasks st ! k) \<Longrightarrow> rt_role (tasks st ! k) = Slave"
    and "published st = []" and "\<not> aborted st"
  shows "repl_ok st"
  unfolding repl_ok_def using assms by blast

lemma repl_okD:
  assumes "repl_ok st"
  shows "stop_channel st = Some k \<Longrightarrow> k < length (tasks st) \<and> \<not> rt_killed (tasks st ! k) \<and>
        rt_role (tasks st ! k) = replication_role st"
    and "master_replication_channel st = Some k \<Longrightarrow> stop_channel st = Some k \<and>
        rt_role (tasks st ! k) = Master \<and> rt_sender (tasks st ! k)"
    and "k < length (tasks st) \<Longrightarrow> \<not> rt_killed (tasks st ! k) \<Longrightarrow> stop_channel st = Some k"
    and "k < length (tasks st) \<Longrightarrow> rt_sender (tasks st ! k) \<Longrightarrow> master_replication_channel st = Some k"
    and "replication_role st = Master \<Longrightarrow> master_replication_channel st \<noteq> None"
    and "replication_role st = NoRole \<Longrightarrow> stop_channel st = None"
    and "k < length (tasks st) \<Longrightarrow> rt_polled (tasks st ! k) \<Longrightarrow> rt_role (tasks st ! k) = Slave"
    and "published st = []" and "\<not> aborted st"
  using assms unfolding repl_ok_def by blast+

text \<open>After the first half of \<open>set_role\<close> nothing is running that was not told to stop.\<close>

definition quiesced :: "'v replication_state \<Rightarrow> bool" where
  "quiesced st \<longleftrightarrow> stop_channel st = None \<and> master_replication_channel st = None \<and>
     (\<forall>k < length (tasks st). rt_killed (tasks st ! k) \<and> \<not> rt_sender (tasks st ! k) \<and>
        (rt_polled (tasks st ! k) \<longrightarrow> rt_role (tasks st ! k) = Slave)) \<and>
     published st = [] \<and> \<not> aborted st"

definition stop_current :: "'v replication_state \<Rightarrow> 'v replication_state option" where
  "stop_current st =
     (case stop_channel st of
        None \<Rightarrow> Some st
      | Some k \<Rightarrow>
          if rt_running (tasks st ! k)
          then Some (update_task k (\<lambda>t. t\<lparr>rt_killed := True\<rparr>) (st\<lparr>stop_channel := None\<rparr>))
          else None)"

lemma stop_current_quiesced:
  assumes ok: "repl_ok st" and st: "stop_current st = Some st'"
  shows "quiesced (take_master_channel st')"
proof (cases "stop_channel st")
  case None
  then have "master_replication_channel st = None"
    using repl_okD(2) [OF ok] by (cases "master_replication_channel st") auto
  moreover have "rt_killed (tasks st ! k) \<and> \<not> rt_sender (tasks st ! k)" if "k < length (tasks st)" for k
    using repl_okD(3,4) [OF ok that] None calculation by auto
  ultimately show ?thesis using st None repl_okD(7-9) [OF ok]
    by (simp add: stop_current_def take_master_channel_def quiesced_def)
next
  case (Some j)
  note j = repl_okD(1) [OF ok Some]
  have st': "st' = update_task j (\<lambda>t. t\<lparr>rt_killed := True\<rparr>) (st\<lparr>stop_channel := None\<rparr>)"
    using st Some by (auto simp: stop_current_def split: if_splits)
  have killed: "rt_killed (tasks st' ! k)" if "k < length (tasks st)" for k
    using that repl_okD(3) [OF ok that] Some unfolding st' by (cases "k = j") (auto simp: nth_update_task)
  have sender: "rt_sender (tasks st' ! k) \<Longrightarrow> master_replication_channel st = Some k" if "k < length (tasks st)" for k
    using that repl_okD(4) [OF ok that] unfolding st' by (cases "k = j") (auto simp: nth_update_task)
  have polled: "rt_polled (tasks st' ! k) \<longrightarrow> rt_role (tasks st' ! k) = Slave" if "k < length (tasks st)" for k
    using that repl_okD(7) [OF ok that] unfolding st' by (cases "k = j") (auto simp: nth_update_task)
  have fields: "published st' = []" "\<not> aborted st'" using repl_okD(8,9) [OF ok] by (simp_all add: st')
  have fields': "stop_channel st' = None" "master_replication_channel st' = master_replication_channel st"
    "length (tasks st') = length (tasks st)" by (simp_all add: st')
  show ?thesis
  proof (cases "master_replication_channel st")
    case None
    then show ?thesis using killed sender polled fields fields' by (auto simp: take_master_channel_def quiesced_def)
  next
    case ch: (Some m)
    then show ?thesis using killed sender polled fields fields'
      by (auto simp: take_master_channel_def quiesced_def nth_update_task)
  qed
qed

lemma set_role_stop_current:
  "set_role role st = map_option (\<lambda>st. let st = (take_master_channel st)\<lparr>replication_role := role\<rparr> in
     (case role of
        Master \<Rightarrow> start_replication_master (st\<lparr>stop_channel := Some (length (tasks st))\<rparr>)
      | Slave \<Rightarrow> start_replication_slave (st\<lparr>stop_channel := Some (length (tasks st))\<rparr>)
      | NoRole \<Rightarrow> st)) (stop_current st)"
  by (simp add: set_role_def stop_current_def)

lemma set_role_ok:
  assumes ok: "repl_ok st" and st: "set_role role st = Some st'"
  shows "repl_ok st'"
proof -
  obtain q where "stop_current st = Some q" and
    st': "st' = (let st = (take_master_channel q)\<lparr>replication_role := role\<rparr> in
     (case role of
        Master \<Rightarrow> start_replication_master (st\<lparr>stop_channel := Some (length (tasks st))\<rparr>)
      | Slave \<Rightarrow> start_replication_slave (st\<lparr>stop_channel := Some (length (tasks st))\<rparr>)
      | NoRole \<Rightarrow> st))"
    using st by (auto simp: set_role_stop_current)
  then have "quiesced (take_master_channel q)" using stop_current_quiesced [OF ok] by simp
  then show ?thesis unfolding st'
    by (intro repl_okI; cases role)
      (auto simp: quiesced_def start_replication_master_def start_replication_slave_def new_task_def
        Let_def nth_append less_Suc_eq)
qed

text \<open>Changing inboxes, ending a task or publishing keeps the invariant.\<close>

lemma repl_ok_frame:
  assumes ok: "repl_ok st"
    and fields: "replication_role st' = replication_role st" "stop_channel st' = stop_channel st"
      "master_replication_channel st' = master_replication_channel st" "length (tasks st') = length (tasks st)"
    and same: "\<And>k. k < length (tasks st) \<Longrightarrow> rt_role (tasks st' ! k) = rt_role (tasks st ! k) \<and>
      rt_killed (tasks st' ! k) = rt_killed (tasks st ! k) \<and> rt_sender (tasks st' ! k) = rt_sender (tasks st ! k) \<and>
      rt_polled (tasks st' ! k) = rt_polled (tasks st ! k)"
    and out: "published st' = published st" "aborted st' = aborted st"
  shows "repl_ok st'"
proof (rule repl_okI)
  show "stop_channel st' = Some k \<Longrightarrow> k < length (tasks st') \<and> \<not> rt_killed (tasks st' ! k) \<and>
      rt_role (tasks st' ! k) = replication_role st'" for k
    using repl_okD(1) [OF ok] same fields by metis
  show "master_replication_channel st' = Some k \<Longrightarrow> stop_channel st' = Some k \<and>
      rt_role (tasks st' ! k) = Master \<and> rt_sender (tasks st' ! k)" for k
    using repl_okD(1,2) [OF ok] same fields by metis
  show "k < length (tasks st') \<Longrightarrow> \<not> rt_killed (tasks st' ! k) \<Longrightarrow> stop_channel st' = Some k" for k
    using repl_okD(3) [OF ok] same fields by metis
  show "k < length (tasks st') \<Longrightarrow> rt_sender (tasks st' ! k) \<Longrightarrow> master_replication_channel st' = Some k" for k
    using repl_okD(4) [OF ok] same fields by metis
  show "replication_role st' = Master \<Longrightarrow> master_replication_channel st' \<noteq> None"
    using repl_okD(5) [OF ok] fields by metis
  show "replication_role st' = NoRole \<Longrightarrow> stop_channel st' = None"
    using repl_okD(6) [OF ok] fields by metis
  show "k < length (tasks st') \<Longrightarrow> rt_polled (tasks st' ! k) \<Longrightarrow> rt_role (tasks st' ! k) = Slave" for k
    using repl_okD(7) [OF ok] same fields by metis
  show "published st' = []" "\<not> aborted st'" using repl_okD(8,9) [OF ok] out by simp_all
qed

lemma replicate_message_ok:
  assumes ok: "repl_ok st"
  shows "repl_ok (replicate_message event st)"
proof (cases "master_replication_channel st")
  case None
  then show ?thesis using ok by (simp add: replicate_message_def)
next
  case (Some m)
  show ?thesis
  proof (cases "replication_role st = Master \<and> rt_running (tasks st ! m)")
    case True
    show ?thesis
      by (rule repl_ok_frame [OF ok]) (use True Some in \<open>auto simp: replicate_message_def nth_update_task\<close>)
  qed (use ok Some in \<open>auto simp: replicate_message_def\<close>)
qed

lemma repl_step_ok:
  assumes "repl_step st st'" and ok: "repl_ok st"
  shows "repl_ok st'"
  using assms(1)
proof (cases rule: repl_step.cases)
  case (step_role role)
  then show ?thesis using set_role_ok [OF ok] by simp
next
  case (step_event event)
  then show ?thesis using replicate_message_ok [OF ok] by simp
next
  case (step_master k)
  then show ?thesis using repl_okD(7) [OF ok, of k] by simp
next
  case (step_end k)
  show ?thesis unfolding step_end(1)
    by (intro repl_ok_frame [OF ok]) (use step_end(3) in \<open>auto simp: nth_update_task\<close>)
qed

lemma repl_reachable_ok: "repl_reachable st \<Longrightarrow> repl_ok st"
proof (induction rule: repl_reachable.induct)
  case repl_init
  show ?case by (rule repl_okI) (simp_all add: replication_state_new_def)
next
  case (repl_next st st')
  then show ?case using repl_step_ok by blast
qed

section \<open>Properties\<close>

text \<open>
  C25. Of all the replication tasks a node ever started, at most one has not been told to stop; it
  has the node's current role, and it is the only one whose inbox a replicated message can reach.
\<close>

theorem one_live_task:
  assumes "repl_reachable st"
  shows "(\<forall>j < length (tasks st). \<forall>k < length (tasks st).
      \<not> rt_killed (tasks st ! j) \<and> \<not> rt_killed (tasks st ! k) \<longrightarrow>
        j = k \<and> rt_role (tasks st ! k) = replication_role st) \<and>
    (\<forall>k < length (tasks st). rt_inbox (tasks (replicate_message event st) ! k) \<noteq> rt_inbox (tasks st ! k) \<longrightarrow>
        \<not> rt_killed (tasks st ! k) \<and> replication_role st = Master \<and>
        rt_inbox (tasks (replicate_message event st) ! k) = rt_inbox (tasks st ! k) @ [event])"
proof -
  note ok = repl_okD [OF repl_reachable_ok [OF assms]]
  have "j = k \<and> rt_role (tasks st ! k) = replication_role st"
    if "j < length (tasks st)" "k < length (tasks st)" "\<not> rt_killed (tasks st ! j)" "\<not> rt_killed (tasks st ! k)" for j k
    using ok(3) [OF that(1,3)] ok(3) [OF that(2,4)] ok(1) [of k] by auto
  moreover have "\<not> rt_killed (tasks st ! k) \<and> replication_role st = Master \<and>
      rt_inbox (tasks (replicate_message event st) ! k) = rt_inbox (tasks st ! k) @ [event]"
    if "k < length (tasks st)"
      "rt_inbox (tasks (replicate_message event st) ! k) \<noteq> rt_inbox (tasks st ! k)" for k
    using that ok(1,2) [of k]
    by (auto simp: replicate_message_def nth_update_task split: option.splits if_splits)
  ultimately show ?thesis by blast
qed


text \<open>
  C24. A node that has been made master panics on its next role change once its thread has
  returned, and the thread can always return: the receiver of the stop signal is gone with it. The
  first role change of a process never panics.
\<close>

theorem role_change_after_master_panics:
  assumes "repl_reachable st" and "replication_role st = Master"
  shows "\<exists>st'. (st' = st \<or> repl_step st st') \<and> replication_role st' = Master \<and>
    (\<forall>role. set_role role st' = None) \<and> (\<forall>event. replicate_message event st' = st')"
proof -
  note ok = repl_okD [OF repl_reachable_ok [OF assms(1)]]
  from ok(5) [OF assms(2)] obtain k where ch: "master_replication_channel st = Some k" by auto
  note k = ok(2) [OF ch] and k' = ok(1) [of k]
  show ?thesis
  proof (cases "rt_running (tasks st ! k)")
    case False
    then show ?thesis using k k' ch assms(2)
      by (intro exI [of _ st]) (simp add: set_role_def replicate_message_def)
  next
    case True
    define st' where "st' = update_task k (\<lambda>t. t\<lparr>rt_running := False\<rparr>) st"
    have "\<not> rt_polled (tasks st ! k)" using ok(7) [of k] k k' by auto
    then have "repl_step st st'"
      unfolding st'_def using True k k' ok(9) by (intro step_end) auto
    moreover have "\<forall>role. set_role role st' = None" "\<forall>event. replicate_message event st' = st'"
      using k k' ch by (auto simp: set_role_def replicate_message_def st'_def nth_update_task)
    ultimately show ?thesis using assms(2) by (intro exI [of _ st']) (simp add: st'_def)
  qed
qed

text \<open>
  C18. What the loop of a master would do if it were polled: events that were queued while no stop
  signal was sent are handed to the producer in the order of the writes, one per turn, and the loop
  then waits; after a role change, which drops the sender, an empty inbox aborts the process and
  a queued event is thrown away unpublished.
\<close>

primrec turns :: "nat \<Rightarrow> nat \<Rightarrow> 'v replication_state \<Rightarrow> 'v replication_state option" where
  "turns 0 k st = Some st"
| "turns (Suc n) k st = Option.bind (replicate_db_events k st) (turns n k)"

lemma turns_publish:
  assumes "rt_inbox (tasks st ! k) = events @ rest" and "\<not> rt_killed (tasks st ! k)" and "k < length (tasks st)"
  shows "\<exists>st'. turns (length events) k st = Some st' \<and> published st' = published st @ events \<and>
    tasks st' ! k = (tasks st ! k)\<lparr>rt_inbox := rest\<rparr> \<and> length (tasks st') = length (tasks st) \<and>
    aborted st' = aborted st"
  using assms
proof (induction events arbitrary: st)
  case (Cons event events)
  define u where "u = (update_task k (\<lambda>t. t\<lparr>rt_inbox := events @ rest\<rparr>) st)\<lparr>published := published st @ [event]\<rparr>"
  have step: "replicate_db_events k st = Some u"
    using Cons.prems by (simp add: replicate_db_events_def u_def Let_def)
  have u: "tasks u ! k = (tasks st ! k)\<lparr>rt_inbox := events @ rest\<rparr>" "length (tasks u) = length (tasks st)"
    "published u = published st @ [event]" "aborted u = aborted st"
    using Cons.prems(3) by (simp_all add: u_def nth_update_task)
  from Cons.IH [of u] u Cons.prems show ?case by (auto simp: step)
qed auto

theorem polled_master_loop:
  assumes "k < length (tasks st)"
  shows "(\<not> rt_killed (tasks st ! k) \<and> rt_sender (tasks st ! k) \<longrightarrow>
      (\<exists>st'. turns (length (rt_inbox (tasks st ! k))) k st = Some st' \<and>
         published st' = published st @ rt_inbox (tasks st ! k) \<and> replicate_db_events k st' = None)) \<and>
    (rt_killed (tasks st ! k) \<and> \<not> rt_sender (tasks st ! k) \<longrightarrow>
      (\<exists>st'. replicate_db_events k st = Some st' \<and> published st' = published st \<and>
         (rt_inbox (tasks st ! k) = [] \<longrightarrow> aborted st') \<and>
         (rt_inbox (tasks st ! k) \<noteq> [] \<longrightarrow> \<not> rt_running (tasks st' ! k))))"
proof -
  have "\<exists>st'. turns (length (rt_inbox (tasks st ! k))) k st = Some st' \<and>
         published st' = published st @ rt_inbox (tasks st ! k) \<and> replicate_db_events k st' = None"
    if "\<not> rt_killed (tasks st ! k)" "rt_sender (tasks st ! k)"
    using turns_publish [of st k "rt_inbox (tasks st ! k)" "[]"] that assms
    by (auto simp: replicate_db_events_def)
  moreover have "\<exists>st'. replicate_db_events k st = Some st' \<and> published st' = published st \<and>
         (rt_inbox (tasks st ! k) = [] \<longrightarrow> aborted st') \<and>
         (rt_inbox (tasks st ! k) \<noteq> [] \<longrightarrow> \<not> rt_running (tasks st' ! k))"
    if "rt_killed (tasks st ! k)" "\<not> rt_sender (tasks st ! k)"
    using that assms
    by (cases "rt_inbox (tasks st ! k)") (auto simp: replicate_db_events_def Let_def nth_update_task)
  ultimately show ?thesis by blast
qed

text \<open>A sample run: a node is made master, then replicates one event.\<close>

definition demo_master :: "unit replication_state" where
  "demo_master =
     (case set_role Master replication_state_new of None \<Rightarrow> replication_state_new | Some st \<Rightarrow>
        replicate_message (UpdateView 7 \<lparr>vu_name = None, vu_jmespath = None\<rparr>) st)"

lemma demo_master_state:
  "tasks demo_master = [\<lparr>rt_role = Master, rt_inbox = [UpdateView 7 \<lparr>vu_name = None, vu_jmespath = None\<rparr>],
     rt_sender = True, rt_killed = False, rt_polled = False, rt_running = True\<rparr>]"
  "replication_role demo_master = Master" "published demo_master = []"
  by (simp_all add: demo_master_def set_role_def take_master_channel_def replication_state_new_def
      start_replication_master_def new_task_def replicate_message_def update_task_def Let_def)

lemma demo_master_reachable: "repl_reachable demo_master"
proof -
  have "set_role Master (replication_state_new :: unit replication_state) \<noteq> None"
    by (simp add: set_role_def replication_state_new_def)
  then obtain st :: "unit replication_state" where st: "set_role Master replication_state_new = Some st" by auto
  have "repl_reachable st"
    by (rule repl_next [OF repl_init step_role [OF _ st]]) (simp add: replication_state_new_def)
  moreover from this have "\<not> aborted st" using repl_okD(9) repl_reachable_ok by blast
  ultimately show ?thesis by (auto simp: demo_master_def st intro: repl_next step_event)
qed

theorem one_live_task_witness:
  "\<not> rt_killed (tasks demo_master ! 0) \<and> rt_role (tasks demo_master ! 0) = replication_role demo_master"
  using one_live_task [OF demo_master_reachable] by (auto simp: demo_master_state)


theorem role_change_after_master_panics_witness:
  "\<exists>st'. (st' = demo_master \<or> repl_step demo_master st') \<and> set_role Slave st' = None"
  using role_change_after_master_panics [OF demo_master_reachable demo_master_state(2)] by blast

theorem polled_master_loop_witness:
  "\<exists>st'. turns 1 0 demo_master = Some st' \<and>
     published st' = [UpdateView 7 \<lparr>vu_name = None, vu_jmespath = None\<rparr>]"
  using polled_master_loop [of 0 demo_master] by (auto simp: demo_master_state)

end
