(* ===== verification/Registry_Rpc.thy ===== *)
theory Registry_Rpc
  imports Registry_Replication
begin

text \<open>
  The gRPC service of the schema registry, \<open>rpc.rs\<close>: one operation per method of
  \<open>SchemaRegistryImpl\<close>, over the state of a node (its database and its replication state). The
  replication state is behind a mutex; a panic while it is held poisons the mutex, and the next
  lock aborts the process. The message queue's metadata lookup is the parameter \<open>topic_exists\<close>.
\<close>

section \<open>Requests and responses\<close>

record rq_new_schema =
  rns_id :: string
  rns_name :: string
  rns_query_address :: string
  rns_topic :: string
  rns_definition :: string
  rns_schema_type :: i32

record rq_new_schema_version =
  rnv_id :: string
  rnv_version :: string
  rnv_definition :: string

record rq_schema_metadata_update =
  rmu_id :: string
  rmu_name :: "string option"
  rmu_topic :: "string option"
  rmu_address :: "string option"
  rmu_schema_type :: "i32 option"

record rq_new_schema_view =
  rsv_schema_id :: string
  rsv_view_id :: string
  rsv_name :: string
  rsv_jmespath :: string

record rq_updated_view =
  ruv_id :: string
  ruv_name :: "string option"
  ruv_jmespath :: "string option"

record rq_versioned_id =
  rvi_id :: string
  rvi_version_req :: string

record rq_value_to_validate =
  rvv_schema_id :: string
  rvv_value :: string

record rs_schema =
  rs_name :: string
  rs_topic :: string
  rs_query_address :: string
  rs_schema_type :: i32

record rs_schema_definition =
  rsd_version :: string
  rsd_definition :: string

record rs_view =
  rs_view_name :: string
  rs_view_jmespath :: string

section \<open>The node\<close>

datatype rpc_failure = Refused status | Panicked | Aborted

record ('s, 'v) node =
  node_db :: 's
  node_repl :: "'v replication_state"
  node_poisoned :: bool

type_synonym ('s, 'v, 'a) rpc_op = "(('s, 'v) node, rpc_failure, 'a) op"

definition status_new :: "status_code \<Rightarrow> string \<Rightarrow> status" where
  "status_new code message = \<lparr>st_code = code, st_message = message\<rparr>"

text \<open>The question mark operator on a call of the database, and on a pure parser.\<close>

definition rpc_db :: "('s, 'v, 'r) crates \<Rightarrow> ('s, 'v, 'r, 'a) db_op \<Rightarrow> ('s, 'v, 'a) rpc_op" where
  "rpc_db E m n =
     (case m (node_db n) of
        (Inl e, s) \<Rightarrow> (Inl (Refused (status_of_error E e)), n\<lparr>node_db := s\<rparr>)
      | (Inr x, s) \<Rightarrow> (Inr x, n\<lparr>node_db := s\<rparr>))"

definition rpc_pure :: "(status, 'a) result \<Rightarrow> ('s, 'v, 'a) rpc_op" where
  "rpc_pure r = liftR (map_err Refused r)"

definition rpc_error :: "('s, 'v, 'r) crates \<Rightarrow> ('v, 'r) registry_error \<Rightarrow> ('s, 'v, 'a) rpc_op" where
  "rpc_error E e = throwE (Refused (status_of_error E e))"

text \<open>\<open>self.replication.lock().unwrap_or_else(abort_on_poison)\<close>\<close>

definition lock_replication :: "('s, 'v, unit) rpc_op" where
  "lock_replication n = (if node_poisoned n then (Inl Aborted, n) else (Inr (), n))"

definition rpc_replicate_message :: "'v replication_event \<Rightarrow> ('s, 'v, unit) rpc_op" where
  "rpc_replicate_message event =
     thenE lock_replication (\<lambda>n. (Inr (), n\<lparr>node_repl := replicate_message event (node_repl n)\<rparr>))"

definition set_replication_role :: "replication_role \<Rightarrow> ('s, 'v, unit) rpc_op" where
  "set_replication_role role =
     thenE lock_replication (\<lambda>n.
       case set_role role (node_repl n) of
         None \<Rightarrow> (Inl Panicked, n\<lparr>node_poisoned := True\<rparr>)
       | Some st \<Rightarrow> (Inr (), n\<lparr>node_repl := st\<rparr>))"

text \<open>\<open>SchemaRegistryImpl::new\<close>, after the clients have connected.\<close>

definition registry_new :: "'s \<Rightarrow> replication_role \<Rightarrow> (rpc_failure, unit) result \<times> ('s, 'v) node" where
  "registry_new database role =
     set_replication_role role
       \<lparr>node_db = database, node_repl = replication_state_new, node_poisoned = False\<rparr>"

text \<open>
  \<open>export_all\<close> and \<open>import_all\<close> of the node: the database's error with the context that is put
  around it.
\<close>

definition node_db_op :: "string \<Rightarrow> ('s, 'v, 'r, 'a) db_op \<Rightarrow>
    (('s, 'v) node, string \<times> ('v, 'r) registry_error, 'a) op" where
  "node_db_op message m n =
     (case m (node_db n) of (r, s) \<Rightarrow> (map_err (Pair message) r, n\<lparr>node_db := s\<rparr>))"

definition node_export_all :: "('s, 'v, 'r) crates \<Rightarrow> (('s, 'v) node, string \<times> ('v, 'r) registry_error, 'v db_export) op" where
  "node_export_all E = node_db_op ''Failed to export the entire database'' (export_all E)"

definition node_import_all ::
  "('s, 'v, 'r) crates \<Rightarrow> 'v db_export \<Rightarrow> (('s, 'v) node, string \<times> ('v, 'r) registry_error, unit) op" where
  "node_import_all E imported = node_db_op ''failed to import database'' (import_all E imported)"

section \<open>Parsing requests\<close>

definition parse_version_req :: "('s, 'v, 'r) crates \<Rightarrow> string \<Rightarrow> (status, 'r) result" where
  "parse_version_req E req =
     map_err (\<lambda>err. status_new InvalidArgument (''Invalid version requirement provided: '' @ err)) (req_parse E req)"

definition parse_version :: "('s, 'v, 'r) crates \<Rightarrow> string \<Rightarrow> (status, 'v) result" where
  "parse_version E req =
     map_err (\<lambda>err. status_new InvalidArgument (''Invalid version provided: '' @ err)) (version_parse E req)"

definition parse_json :: "('s, 'v, 'r) crates \<Rightarrow> string \<Rightarrow> (status, json) result" where
  "parse_json E js =
     map_err (\<lambda>err. status_new InvalidArgument (''Invalid JSON provided: '' @ err)) (json_from_str E js)"

definition parse_uuid :: "('s, 'v, 'r) crates \<Rightarrow> string \<Rightarrow> (status, uuid) result" where
  "parse_uuid E uid =
     map_err (\<lambda>err. status_new InvalidArgument (''Failed to parse UUID: '' @ err)) (uuid_parse_str E uid)"

definition parse_optional_uuid :: "('s, 'v, 'r) crates \<Rightarrow> string \<Rightarrow> (status, uuid option) result" where
  "parse_optional_uuid E uid =
     (if uid = [] then Inr None
      else bindR (map_err (\<lambda>err. status_new InvalidArgument (''Failed to parse optional UUID: '' @ err))
             (uuid_parse_str E uid)) (\<lambda>u. Inr (Some u)))"

definition serialize_json :: "('s, 'v, 'r) crates \<Rightarrow> json \<Rightarrow> (status, string) result" where
  "serialize_json E js =
     map_err (\<lambda>err. status_new Internal (''Unable to serialize JSON: '' @ err)) (json_to_string E js)"

section \<open>Writes\<close>

text \<open>Fails unless the topic or exchange exists.\<close>

definition require_topic ::
  "('s, 'v, 'r) crates \<Rightarrow> (string \<Rightarrow> (string, bool) result) \<Rightarrow> string \<Rightarrow> ('s, 'v, unit) rpc_op" where
  "require_topic E topic_exists topic =
     (case topic_exists topic of
        Inl err \<Rightarrow> rpc_error E (MQError err)
      | Inr found \<Rightarrow> if \<not> found then rpc_error E (NoTopic topic) else returnE ())"

definition rpc_add_schema ::
  "('s, 'v, 'r) crates \<Rightarrow> (string \<Rightarrow> (string, bool) result) \<Rightarrow> rq_new_schema \<Rightarrow> ('s, 'v, string) rpc_op" where
  "rpc_add_schema E topic_exists request =
     bindE (rpc_pure (parse_optional_uuid E (rns_id request))) (\<lambda>schema_id.
     bindE (rpc_pure (parse_json E (rns_definition request))) (\<lambda>definition.
     let new_schema =
       \<lparr>ns_name = rns_name request, ns_definition = definition, ns_kafka_topic = rns_topic request,
        ns_query_address = rns_query_address request,
        ns_schema_type = schema_type_getter (rns_schema_type request)\<rparr>
     in
     thenE (require_topic E topic_exists (ns_kafka_topic new_schema))
     (bindE (rpc_db E (add_schema E new_schema schema_id)) (\<lambda>new_id.
      thenE (rpc_replicate_message (AddSchema new_schema new_id))
      (returnE (uuid_to_string E new_id))))))"

definition rpc_add_schema_version ::
  "('s, 'v, 'r) crates \<Rightarrow> rq_new_schema_version \<Rightarrow> ('s, 'v, unit) rpc_op" where
  "rpc_add_schema_version E request =
     bindE (rpc_pure (parse_uuid E (rnv_id request))) (\<lambda>schema_id.
     bindE (rpc_pure (parse_version E (rnv_version request))) (\<lambda>version.
     bindE (rpc_pure (parse_json E (rnv_definition request))) (\<lambda>definition.
     let new_version = \<lparr>nv_version = version, nv_definition = definition\<rparr> in
     thenE (rpc_db E (add_new_version_of_schema E schema_id new_version))
     (rpc_replicate_message (AddSchemaVersion schema_id new_version)))))"

text \<open>
  The replicated event carries no schema type, whatever the request says
  (\<open>schema_type: None\<close> in the source).
\<close>

definition rpc_update_schema_metadata ::
  "('s, 'v, 'r) crates \<Rightarrow> (string \<Rightarrow> (string, bool) result) \<Rightarrow> rq_schema_metadata_update \<Rightarrow>
   ('s, 'v, unit) rpc_op" where
  "rpc_update_schema_metadata E topic_exists request =
     bindE (rpc_pure (parse_uuid E (rmu_id request))) (\<lambda>schema_id.
     thenE (if_some (rmu_topic request) (require_topic E topic_exists))
     (thenE (if_some (rmu_name request) (\<lambda>name. rpc_db E (update_schema_name E schema_id name)))
     (thenE (if_some (rmu_topic request) (\<lambda>topic. rpc_db E (update_schema_topic E schema_id topic)))
     (thenE (if_some (rmu_address request) (\<lambda>address. rpc_db E (update_schema_query_address E schema_id address)))
     (thenE (if_some (rmu_schema_type request) (\<lambda>schema_type.
        case schema_type_from_i32 schema_type of
          None \<Rightarrow> rpc_error E InvalidSchemaType
        | Some schema_type \<Rightarrow> rpc_db E (update_schema_type E schema_id schema_type)))
     (rpc_replicate_message (UpdateSchemaMetadata schema_id (rmu_name request) (rmu_topic request)
        (rmu_address request) None)))))))"

definition rpc_add_view_to_schema ::
  "('s, 'v, 'r) crates \<Rightarrow> rq_new_schema_view \<Rightarrow> ('s, 'v, string) rpc_op" where
  "rpc_add_view_to_schema E request =
     bindE (rpc_pure (parse_uuid E (rsv_schema_id request))) (\<lambda>schema_id.
     bindE (rpc_pure (parse_optional_uuid E (rsv_view_id request))) (\<lambda>replicated_view_id.
     let view = \<lparr>view_name = rsv_name request, view_jmespath = rsv_jmespath request\<rparr> in
     bindE (rpc_db E (add_view_to_schema E schema_id view replicated_view_id)) (\<lambda>view_id.
     thenE (rpc_replicate_message (AddViewToSchema schema_id view view_id))
     (returnE (uuid_to_string E view_id)))))"

definition view_response :: "view \<Rightarrow> rs_view" where
  "view_response v = \<lparr>rs_view_name = view_name v, rs_view_jmespath = view_jmespath v\<rparr>"

definition rpc_update_view :: "('s, 'v, 'r) crates \<Rightarrow> rq_updated_view \<Rightarrow> ('s, 'v, rs_view) rpc_op" where
  "rpc_update_view E request =
     bindE (rpc_pure (parse_uuid E (ruv_id request))) (\<lambda>view_id.
     let view = \<lparr>vu_name = ruv_name request, vu_jmespath = ruv_jmespath request\<rparr> in
     bindE (rpc_db E (update_view E view_id view)) (\<lambda>old_view.
     thenE (rpc_replicate_message (UpdateView view_id view))
     (returnE (view_response old_view))))"

section \<open>Reads\<close>

definition rpc_get_schema ::
  "('s, 'v, 'r) crates \<Rightarrow> rq_versioned_id \<Rightarrow> ('s, 'v, rs_schema_definition) rpc_op" where
  "rpc_get_schema E request =
     bindE (rpc_pure (parse_uuid E (rvi_id request))) (\<lambda>uid.
     bindE (rpc_pure (parse_version_req E (rvi_version_req request))) (\<lambda>version_req.
     bindE (rpc_db E (get_schema_definition E \<lparr>vu_id = uid, vu_version_req = version_req\<rparr>)) (\<lambda>def.
     bindE (rpc_pure (serialize_json E (sdef_definition def))) (\<lambda>text.
     returnE \<lparr>rsd_version = version_to_string E (sdef_version def), rsd_definition = text\<rparr>))))"

definition schema_response :: "schema \<Rightarrow> rs_schema" where
  "schema_response s =
     \<lparr>rs_name = s_name s, rs_topic = s_kafka_topic s, rs_query_address = s_query_address s,
      rs_schema_type = schema_type_to_i32 (s_schema_type s)\<rparr>"

text \<open>The readers of one identifier parse it, call the database and convert the result.\<close>

definition rpc_by_id ::
  "('s, 'v, 'r) crates \<Rightarrow> (uuid \<Rightarrow> ('s, 'v, 'r, 'a) db_op) \<Rightarrow> ('a \<Rightarrow> 'b) \<Rightarrow> string \<Rightarrow> ('s, 'v, 'b) rpc_op" where
  "rpc_by_id E getter convert request =
     bindE (rpc_pure (parse_uuid E request)) (\<lambda>uid.
     bindE (rpc_db E (getter uid)) (\<lambda>x. returnE (convert x)))"

definition rpc_get_schema_metadata :: "('s, 'v, 'r) crates \<Rightarrow> string \<Rightarrow> ('s, 'v, rs_schema) rpc_op" where
  "rpc_get_schema_metadata E = rpc_by_id E (get_schema E) schema_response"

definition rpc_get_schema_topic :: "('s, 'v, 'r) crates \<Rightarrow> string \<Rightarrow> ('s, 'v, string) rpc_op" where
  "rpc_get_schema_topic E = rpc_by_id E (get_schema_topic E) (\<lambda>topic. topic)"

definition rpc_get_schema_query_address :: "('s, 'v, 'r) crates \<Rightarrow> string \<Rightarrow> ('s, 'v, string) rpc_op" where
  "rpc_get_schema_query_address E = rpc_by_id E (get_schema_query_address E) (\<lambda>address. address)"

definition rpc_get_schema_versions :: "('s, 'v, 'r) crates \<Rightarrow> string \<Rightarrow> ('s, 'v, string list) rpc_op" where
  "rpc_get_schema_versions E =
     rpc_by_id E (get_schema_versions E) (map (\<lambda>(version, vertex_id). version_to_string E version))"

definition rpc_get_schema_type :: "('s, 'v, 'r) crates \<Rightarrow> string \<Rightarrow> ('s, 'v, i32) rpc_op" where
  "rpc_get_schema_type E = rpc_by_id E (get_schema_type E) schema_type_to_i32"

definition rpc_get_view :: "('s, 'v, 'r) crates \<Rightarrow> string \<Rightarrow> ('s, 'v, rs_view) rpc_op" where
  "rpc_get_view E = rpc_by_id E (get_view E) view_response"

definition string_keys ::
  "('s, 'v, 'r) crates \<Rightarrow> ('a \<Rightarrow> 'b) \<Rightarrow> (uuid \<times> 'a) list \<Rightarrow> (string \<times> 'b) list" where
  "string_keys E convert xs = hash_collect (map (\<lambda>(uid, x). (uuid_to_string E uid, convert x)) xs)"

definition rpc_get_all_schemas :: "('s, 'v, 'r) crates \<Rightarrow> ('s, 'v, (string \<times> rs_schema) list) rpc_op" where
  "rpc_get_all_schemas E =
     bindE (rpc_db E (get_all_schemas E)) (\<lambda>schemas. returnE (string_keys E schema_response schemas))"

definition rpc_get_all_schema_names :: "('s, 'v, 'r) crates \<Rightarrow> ('s, 'v, (string \<times> string) list) rpc_op" where
  "rpc_get_all_schema_names E =
     bindE (rpc_db E (get_all_schema_names E)) (\<lambda>names. returnE (string_keys E (\<lambda>name. name) names))"

definition rpc_get_all_views_of_schema ::
  "('s, 'v, 'r) crates \<Rightarrow> string \<Rightarrow> ('s, 'v, (string \<times> rs_view) list) rpc_op" where
  "rpc_get_all_views_of_schema E = rpc_by_id E (get_all_views_of_schema E) (string_keys E view_response)"

definition rpc_validate_value ::
  "('s, 'v, 'r) crates \<Rightarrow> rq_value_to_validate \<Rightarrow> ('s, 'v, string list) rpc_op" where
  "rpc_validate_value E request =
     bindE (rpc_pure (parse_uuid E (rvv_schema_id request))) (\<lambda>schema_id.
     bindE (rpc_pure (parse_json E (rvv_value request))) (\<lambda>js.
     bindE (rpc_db E (get_schema_definition E (versioned_uuid_any E schema_id))) (\<lambda>full_schema.
     case jsonschema_compile E (sdef_definition full_schema) of
       None \<Rightarrow> rpc_error E InvalidSchema
     | Some validate \<Rightarrow> returnE (validate js))))"

definition rpc_promote_to_master :: "string option \<Rightarrow> ('s, 'v, string) rpc_op" where
  "rpc_promote_to_master pod_name =
     thenE (set_replication_role Master) (returnE (case pod_name of None \<Rightarrow> [] | Some name \<Rightarrow> name))"

definition rpc_heartbeat :: "('s, 'v, unit) rpc_op" where
  "rpc_heartbeat = returnE ()"

section \<open>The client functions of \<open>lib.rs\<close>\<close>

datatype client_error =
    ClientConnection string
  | ParseSchemaError string
  | InvalidSchemaReturned
  | InvalidData "string list"
  | RequestFailure status
  | JmespathFailure string
  | JmespathReturnedMalformedJson
  | JsonFailure string

definition join_with_commas :: "string list \<Rightarrow> string" where
  "join_with_commas errors = join_with '', '' errors"

fun client_error_to_string :: "client_error \<Rightarrow> string" where
  "client_error_to_string (ClientConnection e) = ''Failed to connect to the schema registry: '' @ e"
| "client_error_to_string (ParseSchemaError e) = ''Schema returned from registry was not valid JSON: '' @ e"
| "client_error_to_string InvalidSchemaReturned = ''Invalid schema returned from registry''"
| "client_error_to_string (InvalidData errors) = ''Input data does not match schema: '' @ join_with_commas errors"
| "client_error_to_string (RequestFailure e) = st_message e"
| "client_error_to_string (JmespathFailure e) = ''JMESPath encountered an error: '' @ e"
| "client_error_to_string JmespathReturnedMalformedJson = ''JMESPath returned malformed JSON''"
| "client_error_to_string (JsonFailure e) = ''Error occurred during marshalling of JSON value: '' @ e"

text \<open>A status that came back from the registry is passed on by its message only, as internal.\<close>

definition status_of_client_error :: "client_error \<Rightarrow> status" where
  "status_of_client_error e = \<lparr>st_code = Internal, st_message = client_error_to_string e\<rparr>"

text \<open>\<open>validate_data_with_schema\<close>, with the remote call as a parameter.\<close>

definition validate_data_with_schema ::
  "('s, 'v, 'r) crates \<Rightarrow> (string, unit) result \<Rightarrow> (rq_value_to_validate \<Rightarrow> (status, string list) result) \<Rightarrow>
   uuid \<Rightarrow> json \<Rightarrow> (client_error, unit) result" where
  "validate_data_with_schema E connected validate_value schema_id js =
     bindR (map_err ClientConnection connected) (\<lambda>_.
     bindR (map_err JsonFailure (json_to_string E js)) (\<lambda>text.
     bindR (map_err RequestFailure
        (validate_value \<lparr>rvv_schema_id = uuid_to_string E schema_id, rvv_value = text\<rparr>)) (\<lambda>errors.
     if errors = [] then Inr () else Inl (InvalidData errors))))"

text \<open>\<open>get_view_of_data\<close>; compiling and running a JMESPath expression are parameters.\<close>

definition get_view_of_data ::
  "('s, 'v, 'r) crates \<Rightarrow> (string, unit) result \<Rightarrow> (string \<Rightarrow> (status, rs_view) result) \<Rightarrow>
   (string \<Rightarrow> (string, json \<Rightarrow> (string, 'x) result) result) \<Rightarrow> ('x \<Rightarrow> (unit, json) result) \<Rightarrow>
   uuid \<Rightarrow> json \<Rightarrow> (client_error, json) result" where
  "get_view_of_data E connected fetch_view jmespath_compile to_value view_id data =
     bindR (map_err ClientConnection connected) (\<lambda>_.
     bindR (map_err RequestFailure (fetch_view (uuid_to_string E view_id))) (\<lambda>view.
     bindR (map_err JmespathFailure (jmespath_compile (rs_view_jmespath view))) (\<lambda>search.
     bindR (map_err JmespathFailure (search data)) (\<lambda>mapped.
     map_err (\<lambda>_. JmespathReturnedMalformedJson) (to_value mapped)))))"

text \<open>\<open>promote_to_master\<close> and \<open>heartbeat\<close>.\<close>

definition client_promote_to_master ::
  "(string, unit) result \<Rightarrow> (status, string) result \<Rightarrow> (client_error, string) result" where
  "client_promote_to_master connected response =
     bindR (map_err ClientConnection connected) (\<lambda>_. map_err RequestFailure response)"

definition client_heartbeat :: "(string, unit) result \<Rightarrow> (status, unit) result \<Rightarrow> (client_error, unit) result" where
  "client_heartbeat connected response =
     bindR (map_err ClientConnection connected) (\<lambda>_. map_err RequestFailure response)"

end
