(* ===== verification/Ack_Queue.thy ===== *)
theory Ack_Queue
  imports Prelude
begin

text \<open>
  The Kafka acknowledgement queue of \<open>utils/src/messaging_system/kafka_ack_queue.rs\<close>.

  Messages of a partition are delivered in offset order but processed in parallel and
  acknowledged in any order. The queue remembers the offsets that still wait; when the
  oldest of them is acknowledged it stores the largest offset below which nothing waits.

  Offsets are \<open>i64\<close>, kept as 64-bit words and compared through \<open>sint\<close>. The Kafka
  client is the parameter \<open>store_offsets\<close>: it takes the client's state and returns the
  new one, or \<open>None\<close> when the call fails (the code then panics in \<open>unwrap\<close>). The search
  loop of \<open>ack\<close> runs over a cyclic cursor and has no exit when the offset is absent, so it
  is a partial function.
\<close>

section \<open>Data\<close>

record kafka_message =
  km_topic :: string
  km_partition :: i32
  km_offset :: i64

record kafka_partition_ack_queue =
  waiting_list :: "i64 list"
  pq_topic :: string
  pq_partition :: i32
  last_offset :: i64

type_synonym kafka_ack_queue = "64 word \<rightharpoonup> kafka_partition_ack_queue"

datatype ack_failure =
    NoPartitionQueue      \<comment> \<open>\<open>get_mut(partition).unwrap()\<close>\<close>
  | EmptyWaitingList      \<comment> \<open>\<open>front().unwrap()\<close>\<close>
  | StoreOffsetsFailed    \<comment> \<open>\<open>store_offsets(..).unwrap()\<close>\<close>
  | LoopsForever          \<comment> \<open>the search loop has no exit\<close>

type_synonym 'c store_offsets = "'c \<Rightarrow> string \<Rightarrow> i32 \<Rightarrow> i64 \<Rightarrow> 'c option"

section \<open>Operations\<close>

definition partition_queue_new :: "string \<Rightarrow> i32 \<Rightarrow> kafka_partition_ack_queue" where
  "partition_queue_new topic part =
     \<lparr>waiting_list = [], pq_topic = topic, pq_partition = part, last_offset = 0\<rparr>"

definition partition_queue_add ::
  "kafka_partition_ack_queue \<Rightarrow> i64 \<Rightarrow> kafka_partition_ack_queue" where
  "partition_queue_add q offset =
     q\<lparr>waiting_list := waiting_list q @ [offset], last_offset := offset\<rparr>"

text \<open>\<open>std::cmp::max\<close> on signed offsets: the second argument when they are equal.\<close>

definition max_i64 :: "i64 \<Rightarrow> i64 \<Rightarrow> i64" where
  "max_i64 a b = (if sint a \<le> sint b then b else a)"

text \<open>
  The cursor of \<open>LinkedList\<close>: an index, or the ghost element between the last and the
  first element, from which \<open>move_next\<close> goes on to the first element again.
\<close>

fun move_next :: "'a list \<Rightarrow> nat option \<Rightarrow> nat option" where
  "move_next l None = (if l = [] then None else Some 0)"
| "move_next l (Some i) = (if Suc i < length l then Some (Suc i) else None)"

fun cursor_current :: "'a list \<Rightarrow> nat option \<Rightarrow> 'a option" where
  "cursor_current l None = None"
| "cursor_current l (Some i) = (if i < length l then Some (l ! i) else None)"

fun remove_current :: "'a list \<Rightarrow> nat option \<Rightarrow> 'a list" where
  "remove_current l None = l"
| "remove_current l (Some i) = take i l @ drop (Suc i) l"

partial_function (option) mark_processed :: "'a \<Rightarrow> 'a list \<Rightarrow> nat option \<Rightarrow> 'a list option" where
  "mark_processed offset l item =
     (if cursor_current l (move_next l item) = Some offset
      then Some (remove_current l (move_next l item))
      else mark_processed offset l (move_next l item))"

definition partition_queue_ack ::
  "'c store_offsets \<Rightarrow> kafka_partition_ack_queue \<Rightarrow> i64 \<Rightarrow> 'c \<Rightarrow>
   (ack_failure, kafka_partition_ack_queue \<times> 'c) result" where
  "partition_queue_ack store_offsets q offset consumer =
     (case waiting_list q of
        [] \<Rightarrow> Inl EmptyWaitingList
      | front # rest \<Rightarrow>
          if front = offset then
            let offset' = (case rest of [] \<Rightarrow> max_i64 (last_offset q) offset
                                      | front' # _ \<Rightarrow> front' - 1)
            in case store_offsets consumer (pq_topic q) (pq_partition q) offset' of
                 None \<Rightarrow> Inl StoreOffsetsFailed
               | Some consumer' \<Rightarrow> Inr (q\<lparr>waiting_list := rest\<rparr>, consumer')
          else
            case mark_processed offset (waiting_list q) (Some 0) of
              None \<Rightarrow> Inl LoopsForever
            | Some l \<Rightarrow> Inr (q\<lparr>waiting_list := l\<rparr>, consumer))"

text \<open>\<open>message.partition() as usize\<close> sign-extends the \<open>i32\<close>.\<close>

definition partition_index :: "i32 \<Rightarrow> 64 word" where
  "partition_index p = scast p"

definition kafka_ack_queue_add :: "kafka_ack_queue \<Rightarrow> kafka_message \<Rightarrow> kafka_ack_queue" where
  "kafka_ack_queue_add queue m =
     (let index = partition_index (km_partition m);
          pq = (case queue index of
                  None \<Rightarrow> partition_queue_new (km_topic m) (km_partition m)
                | Some pq \<Rightarrow> pq)
      in queue(index \<mapsto> partition_queue_add pq (km_offset m)))"

definition kafka_ack_queue_ack ::
  "'c store_offsets \<Rightarrow> kafka_ack_queue \<Rightarrow> kafka_message \<Rightarrow> 'c \<Rightarrow>
   (ack_failure, kafka_ack_queue \<times> 'c) result" where
  "kafka_ack_queue_ack store_offsets queue m consumer =
     (let index = partition_index (km_partition m)
      in case queue index of
           None \<Rightarrow> Inl NoPartitionQueue
         | Some pq \<Rightarrow>
             (case partition_queue_ack store_offsets pq (km_offset m) consumer of
                Inl e \<Rightarrow> Inl e
              | Inr (pq', consumer') \<Rightarrow> Inr (queue(index \<mapsto> pq'), consumer')))"

section \<open>The search loop\<close>

lemma mark_processed_from:
  assumes "i < length l" and "offset \<in> set (drop (Suc i) l)"
  shows "mark_processed offset l (Some i) = Some (take (Suc i) l @ remove1 offset (drop (Suc i) l))"
  using assms
proof (induction "length l - i" arbitrary: i)
  case 0
  then show ?case by simp
next
  case (Suc n)
  then have j: "Suc i < length l" by (metis drop_all empty_iff leI list.set(1))
  then have drop: "drop (Suc i) l = l ! Suc i # drop (Suc (Suc i)) l"
    by (simp add: Cons_nth_drop_Suc)
  show ?case
  proof (cases "l ! Suc i = offset")
    case True
    with j drop show ?thesis by (subst mark_processed.simps) simp
  next
    case False
    with Suc.prems drop have "offset \<in> set (drop (Suc (Suc i)) l)" by simp
    moreover have "n = length l - Suc i" using Suc.hyps(2) by simp
    ultimately have "mark_processed offset l (Some (Suc i)) =
        Some (take (Suc (Suc i)) l @ remove1 offset (drop (Suc (Suc i)) l))"
      using Suc.hyps(1) j by blast
    with False j drop show ?thesis
      by (subst mark_processed.simps) (simp add: take_Suc_conv_app_nth)
  qed
qed

lemma mark_processed_found:
  assumes "l = front # rest" and "front \<noteq> offset" and "offset \<in> set l"
  shows "mark_processed offset l (Some 0) = Some (remove1 offset l)"
  using assms mark_processed_from [of 0 l offset] by simp

lemma mark_processed_result:
  assumes "mark_processed offset l item = Some l'"
  shows "offset \<in> set l"
proof (rule mark_processed.raw_induct [where P = "\<lambda>offset l item l'. offset \<in> set l", OF _ assms])
  fix f offset l item l'
  assume IH: "\<And>offset l item l'. f offset l item = Some l' \<Longrightarrow> offset \<in> set l"
    and eq: "(if cursor_current l (move_next l item) = Some offset
              then Some (remove_current l (move_next l item))
              else f offset l (move_next l item)) = Some l'"
  show "offset \<in> set l"
  proof (cases "cursor_current l (move_next l item) = Some offset")
    case True
    then show ?thesis by (cases "move_next l item") (auto split: if_splits)
  next
    case False
    with eq show ?thesis using IH by simp
  qed
qed

lemma mark_processed_absent: "offset \<notin> set l \<Longrightarrow> mark_processed offset l item = None"
  using mark_processed_result by (metis option.exhaust)

section \<open>What one acknowledgement does\<close>

lemma partition_queue_ack_front_iff:
  "partition_queue_ack st q offset c = Inl LoopsForever \<longleftrightarrow>
     waiting_list q \<noteq> [] \<and> offset \<notin> set (waiting_list q)"
proof (cases "waiting_list q")
  case Nil
  then show ?thesis by (simp add: partition_queue_ack_def)
next
  case (Cons front rest)
  show ?thesis
  proof (cases "front = offset")
    case True
    with Cons show ?thesis
      by (auto simp: partition_queue_ack_def Let_def split: option.splits list.splits)
  next
    case False
    with Cons show ?thesis
      using mark_processed_found [of "waiting_list q" front rest offset]
        mark_processed_absent [of offset "waiting_list q"]
      by (cases "offset \<in> set (waiting_list q)")
        (auto simp: partition_queue_ack_def split: option.splits)
  qed
qed

lemma partition_queue_ack_later:
  assumes "waiting_list q = front # rest" and "front \<noteq> offset" and "offset \<in> set rest"
  shows "partition_queue_ack st q offset c = Inr (q\<lparr>waiting_list := front # remove1 offset rest\<rparr>, c)"
  using assms mark_processed_found [of "waiting_list q" front rest offset]
  by (simp add: partition_queue_ack_def)

section \<open>Runs of one partition\<close>

text \<open>
  A run interleaves deliveries (Kafka hands out the messages of a partition in strictly
  increasing, non-negative offset order) with acknowledgements of delivered messages, in any
  order. The client is instantiated by the log of the offsets it was told to store.
  \<open>delivered\<close> and \<open>acked\<close> are the history of the run.
\<close>

record partition_run =
  run_queue :: kafka_partition_ack_queue
  stored :: "i64 list"
  delivered :: "i64 list"
  acked :: "i64 set"

definition log_store :: "i64 list store_offsets" where
  "log_store log topic part offset = Some (log @ [offset])"

definition partition_start :: "string \<Rightarrow> i32 \<Rightarrow> partition_run" where
  "partition_start topic part =
     \<lparr>run_queue = partition_queue_new topic part, stored = [], delivered = [], acked = {}\<rparr>"

inductive partition_step :: "partition_run \<Rightarrow> partition_run \<Rightarrow> bool" where
  deliver: "0 \<le> sint offset \<Longrightarrow> \<forall>d \<in> set (delivered r). sint d < sint offset \<Longrightarrow>
    partition_step r (r\<lparr>run_queue := partition_queue_add (run_queue r) offset,
                        delivered := delivered r @ [offset]\<rparr>)"
| acknowledge: "offset \<in> set (delivered r) \<Longrightarrow> offset \<notin> acked r \<Longrightarrow>
    partition_queue_ack log_store (run_queue r) offset (stored r) = Inr (q, log) \<Longrightarrow>
    partition_step r (r\<lparr>run_queue := q, stored := log, acked := insert offset (acked r)\<rparr>)"

inductive partition_reachable :: "string \<Rightarrow> i32 \<Rightarrow> partition_run \<Rightarrow> bool"
  for topic :: string and part :: i32 where
  start: "partition_reachable topic part (partition_start topic part)"
| step: "partition_reachable topic part r \<Longrightarrow> partition_step r r' \<Longrightarrow>
    partition_reachable topic part r'"

abbreviation waiting :: "partition_run \<Rightarrow> i64 list" where
  "waiting r \<equiv> waiting_list (run_queue r)"

definition delivery_inv :: "partition_run \<Rightarrow> bool" where
  "delivery_inv r \<longleftrightarrow>
     sorted_wrt (\<lambda>a b. sint a < sint b) (delivered r) \<and>
     (\<forall>d \<in> set (delivered r). 0 \<le> sint d) \<and>
     waiting r = filter (\<lambda>d. d \<notin> acked r) (delivered r) \<and>
     last_offset (run_queue r) = (if delivered r = [] then 0 else last (delivered r))"

definition stored_inv :: "partition_run \<Rightarrow> bool" where
  "stored_inv r \<longleftrightarrow>
     (\<forall>o' \<in> set (stored r). \<forall>w \<in> set (waiting r). sint o' < sint w) \<and>
     (\<forall>o' \<in> set (stored r). sint o' \<le> sint (last_offset (run_queue r))) \<and>
     sorted (map sint (stored r)) \<and>
     (waiting r = [] \<longrightarrow> delivered r \<noteq> [] \<longrightarrow> stored r \<noteq> [] \<and> last (stored r) = last (delivered r))"

lemma sint_inj: "sint a = sint b \<Longrightarrow> a = b" for a b :: i64
  by (rule signed_word_eqI) simp

lemma sorted_offsets_distinct:
  "sorted_wrt (\<lambda>a b. sint a < sint b) xs \<Longrightarrow> distinct xs" for xs :: "i64 list"
  by (induction xs) auto

lemma sorted_offsets_le_last:
  fixes x :: i64
  assumes "sorted_wrt (\<lambda>a b. sint a < sint b) xs" and "x \<in> set xs"
  shows "sint x \<le> sint (last xs)"
  using assms by (induction xs) (auto intro: less_imp_le)

lemma sint_pred: "0 \<le> sint b \<Longrightarrow> sint (b - 1) = sint b - 1" for b :: i64
proof -
  assume b: "0 \<le> sint b"
  have "sint (b - 1) = signed_take_bit 63 (sint b - 1)"
    by (simp add: sint_word_ariths)
  also have "\<dots> = sint b - 1"
    using b sint_lt [of b] by (intro signed_take_bit_int_eq_self) auto
  finally show ?thesis .
qed

lemma delivery_inv_waiting:
  assumes "delivery_inv r"
  shows "sorted_wrt (\<lambda>a b. sint a < sint b) (waiting r)" and "distinct (waiting r)"
    and "\<forall>w \<in> set (waiting r). 0 \<le> sint w"
    and "\<forall>w \<in> set (waiting r). sint w \<le> sint (last_offset (run_queue r))"
proof -
  show sw: "sorted_wrt (\<lambda>a b. sint a < sint b) (waiting r)"
    using assms by (auto simp: delivery_inv_def intro: sorted_wrt_filter)
  then show "distinct (waiting r)" by (rule sorted_offsets_distinct)
  show "\<forall>w \<in> set (waiting r). 0 \<le> sint w"
    using assms by (auto simp: delivery_inv_def)
  show "\<forall>w \<in> set (waiting r). sint w \<le> sint (last_offset (run_queue r))"
    using assms sorted_offsets_le_last by (auto simp: delivery_inv_def split: if_splits)
qed

text \<open>The two outcomes of acknowledging a waiting offset.\<close>

lemma ack_outcome:
  assumes "delivery_inv r" and "offset \<in> set (waiting r)"
    and "partition_queue_ack log_store (run_queue r) offset (stored r) = Inr (q, log)"
  obtains
    (front) rest where "waiting r = offset # rest" "q = (run_queue r)\<lparr>waiting_list := rest\<rparr>"
      "log = stored r @ [case rest of [] \<Rightarrow> last_offset (run_queue r) | f # _ \<Rightarrow> f - 1]"
  | (later) f rest where "waiting r = f # rest" "f \<noteq> offset" "offset \<in> set rest"
      "q = (run_queue r)\<lparr>waiting_list := f # remove1 offset rest\<rparr>" "log = stored r"
proof -
  from assms(2) obtain f rest where w: "waiting r = f # rest" by (cases "waiting r") auto
  show ?thesis
  proof (cases "f = offset")
    case True
    have "sint offset \<le> sint (last_offset (run_queue r))"
      using delivery_inv_waiting(4) [OF assms(1)] assms(2) by blast
    then have "max_i64 (last_offset (run_queue r)) offset = last_offset (run_queue r)"
      by (auto simp: max_i64_def intro: sint_inj)
    with True w assms(3) show ?thesis
      by (intro front [of rest])
        (auto simp: partition_queue_ack_def log_store_def Let_def split: list.splits)
  next
    case False
    with w assms(2) have "offset \<in> set rest" by auto
    moreover from partition_queue_ack_later [OF w False this, of log_store "stored r"] assms(3)
    have "q = (run_queue r)\<lparr>waiting_list := f # remove1 offset rest\<rparr>" "log = stored r"
      by simp_all
    ultimately show ?thesis using w False by (intro later [of f rest])
  qed
qed

lemma delivery_inv_deliver:
  assumes "delivery_inv r" "0 \<le> sint offset" "\<forall>d \<in> set (delivered r). sint d < sint offset"
    and "acked r \<subseteq> set (delivered r)"
  shows "delivery_inv (r\<lparr>run_queue := partition_queue_add (run_queue r) offset,
                         delivered := delivered r @ [offset]\<rparr>)"
  using assms by (auto simp: delivery_inv_def partition_queue_add_def sorted_wrt_append)

lemma delivery_inv_ack:
  assumes inv: "delivery_inv r" and off: "offset \<in> set (waiting r)"
    and eq: "partition_queue_ack log_store (run_queue r) offset (stored r) = Inr (q, log)"
  shows "delivery_inv (r\<lparr>run_queue := q, stored := log, acked := insert offset (acked r)\<rparr>)"
proof -
  have d: "distinct (waiting r)" by (rule delivery_inv_waiting(2) [OF inv])
  from inv off eq have "waiting_list q = filter (\<lambda>x. x \<noteq> offset) (waiting r)"
  proof (cases rule: ack_outcome)
    case (front rest)
    with d show ?thesis by (auto intro!: filter_True [symmetric])
  next
    case (later f rest)
    with d show ?thesis
      by (simp add: distinct_remove1_removeAll removeAll_filter_not_eq)
        (rule filter_cong, auto)
  qed
  moreover from inv off eq have "last_offset q = last_offset (run_queue r)"
    by (cases rule: ack_outcome) auto
  ultimately show ?thesis using inv by (auto simp: delivery_inv_def intro: filter_cong)
qed

lemma stored_inv_deliver:
  assumes "stored_inv r" "delivery_inv r" "0 \<le> sint offset"
    and "\<forall>d \<in> set (delivered r). sint d < sint offset"
    and "\<forall>o' \<in> set (stored r). delivered r \<noteq> []"
  shows "stored_inv (r\<lparr>run_queue := partition_queue_add (run_queue r) offset,
                       delivered := delivered r @ [offset]\<rparr>)"
proof -
  have lt: "sint o' < sint offset" if "o' \<in> set (stored r)" for o'
  proof -
    from that assms(5) have "delivered r \<noteq> []" by blast
    with assms(2,4) have "sint (last_offset (run_queue r)) < sint offset"
      by (simp add: delivery_inv_def)
    moreover from that assms(1) have "sint o' \<le> sint (last_offset (run_queue r))"
      by (simp add: stored_inv_def)
    ultimately show ?thesis by simp
  qed
  with assms(1) show ?thesis
    by (auto simp: stored_inv_def partition_queue_add_def less_imp_le)
qed

lemma stored_inv_ack:
  assumes st: "stored_inv r" and inv: "delivery_inv r" and off: "offset \<in> set (waiting r)"
    and eq: "partition_queue_ack log_store (run_queue r) offset (stored r) = Inr (q, log)"
  shows "stored_inv (r\<lparr>run_queue := q, stored := log, acked := insert offset (acked r)\<rparr>)"
  using inv off eq
proof (cases rule: ack_outcome)
  case (later f rest)
  then show ?thesis using st set_remove1_subset [of offset rest]
    by (auto simp: stored_inv_def)
next
  case (front rest)
  define new where "new = (case rest of [] \<Rightarrow> last_offset (run_queue r) | f # _ \<Rightarrow> f - 1)"
  have sw: "sorted_wrt (\<lambda>a b. sint a < sint b) (offset # rest)"
    using delivery_inv_waiting(1) [OF inv] front(1) by simp
  have nonneg: "\<forall>w \<in> set rest. 0 \<le> sint w"
    using delivery_inv_waiting(3) [OF inv] front(1) by auto
  have le_last: "\<forall>w \<in> set (offset # rest). sint w \<le> sint (last_offset (run_queue r))"
    using delivery_inv_waiting(4) [OF inv] front(1) by simp
  have new_ge: "sint offset \<le> sint new"
    using sw nonneg le_last by (cases rest) (auto simp: new_def sint_pred)
  have new_le: "sint new \<le> sint (last_offset (run_queue r))"
    using sw nonneg le_last by (cases rest) (auto simp: new_def sint_pred)
  have new_less: "\<forall>w \<in> set rest. sint new < sint w"
    using sw nonneg by (cases rest) (auto simp: new_def sint_pred)
  have old_less: "\<forall>o' \<in> set (stored r). \<forall>w \<in> set (offset # rest). sint o' < sint w"
    using st front(1) by (simp add: stored_inv_def)
  have "delivered r \<noteq> []" using inv off by (auto simp: delivery_inv_def)
  then have "rest = [] \<Longrightarrow> new = last (delivered r)"
    using inv by (simp add: new_def delivery_inv_def)
  moreover have "sorted (map sint (stored r @ [new]))"
    using st old_less new_ge by (fastforce simp: stored_inv_def sorted_append)
  ultimately show ?thesis
    using front st new_le new_less old_less new_def [symmetric] by (auto simp: stored_inv_def)
qed

definition partition_inv :: "partition_run \<Rightarrow> bool" where
  "partition_inv r \<longleftrightarrow> delivery_inv r \<and> stored_inv r \<and> acked r \<subseteq> set (delivered r) \<and>
     (stored r \<noteq> [] \<longrightarrow> delivered r \<noteq> [])"

lemma partition_inv_start: "partition_inv (partition_start topic part)"
  by (simp add: partition_inv_def partition_start_def partition_queue_new_def delivery_inv_def
      stored_inv_def)

lemma partition_inv_step:
  assumes "partition_step r r'" and "partition_inv r"
  shows "partition_inv r'"
  using assms(1)
proof (cases rule: partition_step.cases)
  case (deliver offset)
  with assms(2) show ?thesis
    using delivery_inv_deliver [of r offset] stored_inv_deliver [of r offset]
    by (auto simp: partition_inv_def)
next
  case (acknowledge offset q log)
  have w: "offset \<in> set (waiting r)"
    using assms(2) acknowledge(2,3) by (simp add: partition_inv_def delivery_inv_def)
  have "delivered r \<noteq> []" using acknowledge(2) by auto
  with assms(2) acknowledge w show ?thesis
    using delivery_inv_ack [OF _ w acknowledge(4)] stored_inv_ack [OF _ _ w acknowledge(4)]
    by (auto simp: partition_inv_def)
qed

lemma partition_reachable_inv: "partition_reachable topic part r \<Longrightarrow> partition_inv r"
  by (induction rule: partition_reachable.induct)
    (auto intro: partition_inv_start partition_inv_step)

lemma pending_is_waiting:
  assumes "partition_reachable topic part r"
  shows "set (waiting r) = {d \<in> set (delivered r). d \<notin> acked r}"
  using partition_reachable_inv [OF assms] by (auto simp: partition_inv_def delivery_inv_def)

section \<open>Properties\<close>

text \<open>
  C5: no unprocessed message is skipped. In every reachable state of a partition, every
  delivered message whose offset is at or below an offset ever stored with the client has been
  acknowledged, so a restart from the stored offset loses nothing.
\<close>

theorem ack_never_skips:
  assumes "partition_reachable topic part r"
    and "offset \<in> set (stored r)" and "d \<in> set (delivered r)" and "sint d \<le> sint offset"
  shows "d \<in> acked r"
proof (rule ccontr)
  assume "d \<notin> acked r"
  with assms(1,3) have "d \<in> set (waiting r)" by (simp add: pending_is_waiting)
  with assms(2) partition_reachable_inv [OF assms(1)] have "sint offset < sint d"
    by (auto simp: partition_inv_def stored_inv_def)
  with assms(4) show False by simp
qed

text \<open>
  C18: progress of the stored offset. The stored offsets never decrease, and once every
  delivered message is acknowledged the last stored offset is the last delivered one.
\<close>

theorem ack_stored_progress:
  assumes "partition_reachable topic part r"
  shows "sorted (map sint (stored r)) \<and>
    (delivered r \<noteq> [] \<and> set (delivered r) \<subseteq> acked r \<longrightarrow>
       stored r \<noteq> [] \<and> last (stored r) = last (delivered r))"
proof -
  have "partition_inv r" by (rule partition_reachable_inv [OF assms])
  moreover have "waiting r = []" if "set (delivered r) \<subseteq> acked r"
  proof -
    have "set (waiting r) = {}"
      unfolding pending_is_waiting [OF assms] using that by blast
    then show ?thesis by simp
  qed
  ultimately show ?thesis by (auto simp: partition_inv_def stored_inv_def)
qed

text \<open>
  C19: acknowledging a delivered, not yet acknowledged message always returns, without a
  panic and without looping, when the client accepts the offset.
\<close>

theorem ack_returns:
  assumes "partition_reachable topic part r" and "offset \<in> set (delivered r)"
    and "offset \<notin> acked r" and "\<And>c t p i. store c t p i \<noteq> None"
  shows "\<exists>q c'. partition_queue_ack store (run_queue r) offset c = Inr (q, c')"
proof -
  have w: "offset \<in> set (waiting r)"
    using assms(1-3) by (simp add: pending_is_waiting)
  then obtain f rest where fr: "waiting r = f # rest" by (cases "waiting r") auto
  show ?thesis
  proof (cases "f = offset")
    case True
    obtain c' where "store c (pq_topic (run_queue r)) (pq_partition (run_queue r))
        (case rest of [] \<Rightarrow> max_i64 (last_offset (run_queue r)) offset | g # _ \<Rightarrow> g - 1) = Some c'"
      using assms(4) by blast
    with True fr show ?thesis by (simp add: partition_queue_ack_def Let_def)
  next
    case False
    with w fr have "offset \<in> set rest" by auto
    from partition_queue_ack_later [OF fr False this, of store c] show ?thesis by blast
  qed
qed

text \<open>
  the search loop of \<open>ack\<close> runs forever exactly when other messages wait and the
  acknowledged offset is not among them, for instance when a message is acknowledged twice.
\<close>

theorem ack_loops_iff:
  "partition_queue_ack store q offset c = Inl LoopsForever \<longleftrightarrow>
     waiting_list q \<noteq> [] \<and> offset \<notin> set (waiting_list q)"
  by (rule partition_queue_ack_front_iff)

section \<open>A concrete run\<close>

text \<open>Two messages are delivered; the second is acknowledged first.\<close>

definition demo_run :: "nat \<Rightarrow> partition_run" where
  "demo_run n =
     \<lparr>run_queue = \<lparr>waiting_list = [[], [5], [5, 6], [5], []] ! n, pq_topic = ''t'', pq_partition = 0,
                   last_offset = [0, 5, 6, 6, 6] ! n\<rparr>,
      stored = (if n = 4 then [6] else []),
      delivered = [[], [5], [5, 6], [5, 6], [5, 6]] ! n,
      acked = [{}, {}, {}, {6}, {5, 6}] ! n\<rparr>"

lemma demo_run_steps:
  "partition_step (demo_run 0) (demo_run 1)" "partition_step (demo_run 1) (demo_run 2)"
  "partition_step (demo_run 2) (demo_run 3)" "partition_step (demo_run 3) (demo_run 4)"
proof -
  have "demo_run 1 = (demo_run 0)\<lparr>run_queue := partition_queue_add (run_queue (demo_run 0)) 5,
      delivered := delivered (demo_run 0) @ [5]\<rparr>"
    by (simp add: demo_run_def partition_queue_add_def)
  then show "partition_step (demo_run 0) (demo_run 1)"
    by (simp only:) (rule partition_step.deliver, simp_all add: demo_run_def)
  have "demo_run 2 = (demo_run 1)\<lparr>run_queue := partition_queue_add (run_queue (demo_run 1)) 6,
      delivered := delivered (demo_run 1) @ [6]\<rparr>"
    by (simp add: demo_run_def partition_queue_add_def)
  then show "partition_step (demo_run 1) (demo_run 2)"
    by (simp only:) (rule partition_step.deliver, simp_all add: demo_run_def)
  have "demo_run 3 = (demo_run 2)\<lparr>run_queue := run_queue (demo_run 3), stored := [],
      acked := insert 6 (acked (demo_run 2))\<rparr>"
    by (simp add: demo_run_def)
  moreover have "partition_queue_ack log_store (run_queue (demo_run 2)) 6 (stored (demo_run 2)) =
      Inr (run_queue (demo_run 3), [])"
    by (simp add: demo_run_def partition_queue_ack_def mark_processed.simps numeral_eq_Suc)
  then have "partition_step (demo_run 2) ((demo_run 2)\<lparr>run_queue := run_queue (demo_run 3),
      stored := [], acked := insert 6 (acked (demo_run 2))\<rparr>)"
    by (intro partition_step.acknowledge) (simp_all add: demo_run_def)
  ultimately show "partition_step (demo_run 2) (demo_run 3)" by simp
  have "demo_run 4 = (demo_run 3)\<lparr>run_queue := run_queue (demo_run 4), stored := [6],
      acked := insert 5 (acked (demo_run 3))\<rparr>"
    by (simp add: demo_run_def)
  moreover have "partition_queue_ack log_store (run_queue (demo_run 3)) 5 (stored (demo_run 3)) =
      Inr (run_queue (demo_run 4), [6])"
    by (simp add: demo_run_def partition_queue_ack_def log_store_def max_i64_def numeral_eq_Suc)
  then have "partition_step (demo_run 3) ((demo_run 3)\<lparr>run_queue := run_queue (demo_run 4),
      stored := [6], acked := insert 5 (acked (demo_run 3))\<rparr>)"
    by (intro partition_step.acknowledge) (simp_all add: demo_run_def)
  ultimately show "partition_step (demo_run 3) (demo_run 4)" by simp
qed

lemma demo_run_reachable:
  "partition_reachable ''t'' 0 (demo_run 2)" "partition_reachable ''t'' 0 (demo_run 4)"
proof -
  have "partition_start ''t'' 0 = demo_run 0"
    by (simp add: partition_start_def demo_run_def partition_queue_new_def)
  then have "partition_reachable ''t'' 0 (demo_run 0)"
    using partition_reachable.start [of "''t''" 0] by simp
  then show two: "partition_reachable ''t'' 0 (demo_run 2)"
    using demo_run_steps(1,2) by (blast intro: partition_reachable.step)
  then show "partition_reachable ''t'' 0 (demo_run 4)"
    using demo_run_steps(3,4) by (blast intro: partition_reachable.step)
qed

theorem ack_never_skips_witness: "5 \<in> acked (demo_run 4)"
  by (rule ack_never_skips [OF demo_run_reachable(2), of 6]) (simp_all add: demo_run_def)

theorem ack_stored_progress_witness: "last (stored (demo_run 4)) = 6"
  using ack_stored_progress [OF demo_run_reachable(2)] by (simp add: demo_run_def)

theorem ack_returns_witness:
  "\<exists>q c'. partition_queue_ack log_store (run_queue (demo_run 2)) 6 [] = Inr (q, c')"
  by (rule ack_returns [OF demo_run_reachable(1)]) (simp_all add: demo_run_def log_store_def)

end
