(* ===== verification/Messaging.thy ===== *)
theory Messaging
  imports Ack_Queue
begin

text \<open>
  The messaging layer of the crate utils: \<open>messaging_system/mod.rs\<close>, \<open>message.rs\<close>,
  \<open>consumer.rs\<close>, \<open>publisher.rs\<close>, \<open>metadata_fetcher.rs\<close>, the messages of \<open>message_types.rs\<close>, and
  \<open>psql.rs\<close>. The Kafka and AMQP clients are parameters. Texts are sequences of bytes, as Rust's
  strings are; \<open>from_utf8\<close> is the validation of the standard library with its two error messages.
\<close>

lemma map_err_simps [simp]: "map_err g (Inl e) = Inl (g e)" "map_err g (Inr x) = Inr x"
  by (simp_all add: map_err_def)

section \<open>Text\<close>

text \<open>Decimal numerals, as \<open>Display\<close> prints unsigned integers.\<close>

fun nat_to_string :: "nat \<Rightarrow> string" where
  "nat_to_string n =
     (if n < 10 then [char_of (48 + n)] else nat_to_string (n div 10) @ [char_of (48 + n mod 10)])"

declare nat_to_string.simps [simp del]

record utf8_error =
  valid_up_to :: nat
  error_len :: "nat option"

definition utf8_error_to_string :: "utf8_error \<Rightarrow> string" where
  "utf8_error_to_string e =
     (case error_len e of
        Some n \<Rightarrow> ''invalid utf-8 sequence of '' @ nat_to_string n @ '' bytes from index '' @
                   nat_to_string (valid_up_to e)
      | None \<Rightarrow> ''incomplete utf-8 byte sequence from index '' @ nat_to_string (valid_up_to e))"

definition byte :: "char \<Rightarrow> nat" where
  "byte c = of_char c"

lemma nat_to_string_digits: "c \<in> set (nat_to_string n) \<Longrightarrow> 48 \<le> byte c \<and> byte c \<le> 57"
proof (induction n rule: nat_to_string.induct)
  case (1 n)
  from 1(2) show ?case
    using 1(1) by (subst (asm) nat_to_string.simps) (auto simp: byte_def split: if_splits)
qed

definition is_continuation :: "char \<Rightarrow> bool" where
  "is_continuation c \<longleftrightarrow> 128 \<le> byte c \<and> byte c < 192"

definition utf8_char_width :: "char \<Rightarrow> nat" where
  "utf8_char_width c =
     (let b = byte c in
      if b < 128 then 1 else if 194 \<le> b \<and> b \<le> 223 then 2
      else if 224 \<le> b \<and> b \<le> 239 then 3 else if 240 \<le> b \<and> b \<le> 244 then 4 else 0)"

text \<open>Which second bytes may follow the first byte of a wide character.\<close>

definition second_ok :: "char \<Rightarrow> char \<Rightarrow> bool" where
  "second_ok c d =
     (let b = byte c in
      is_continuation d \<and>
      (b = 224 \<longrightarrow> 160 \<le> byte d) \<and> (b = 237 \<longrightarrow> byte d \<le> 159) \<and>
      (b = 240 \<longrightarrow> 144 \<le> byte d) \<and> (b = 244 \<longrightarrow> byte d \<le> 143))"

text \<open>\<open>utf8_tail c ds\<close>: how many bytes follow \<open>c\<close>, or the error length.\<close>

definition utf8_tail :: "char \<Rightarrow> string \<Rightarrow> (nat option, nat) result" where
  "utf8_tail c ds =
     (case utf8_char_width c of
        0 \<Rightarrow> Inl (Some 1)
      | Suc 0 \<Rightarrow> Inr 0
      | Suc k \<Rightarrow>
          (case ds of
             [] \<Rightarrow> Inl None
           | d # ds \<Rightarrow>
               if \<not> second_ok c d then Inl (Some 1)
               else if k = 1 then Inr 1
               else (case ds of
                  [] \<Rightarrow> Inl None
                | d # ds \<Rightarrow>
                    if \<not> is_continuation d then Inl (Some 2)
                    else if k = 2 then Inr 2
                    else (case ds of
                       [] \<Rightarrow> Inl None
                     | d # ds \<Rightarrow> if \<not> is_continuation d then Inl (Some 3) else Inr 3))))"

function run_utf8_validation :: "nat \<Rightarrow> string \<Rightarrow> (utf8_error, unit) result" where
  "run_utf8_validation index [] = Inr ()"
| "run_utf8_validation index (c # cs) =
     (case utf8_tail c cs of
        Inl len \<Rightarrow> Inl \<lparr>valid_up_to = index, error_len = len\<rparr>
      | Inr n \<Rightarrow> run_utf8_validation (index + 1 + n) (drop n cs))"
  by pat_completeness auto
termination by (relation "measure (\<lambda>(index, cs). length cs)") auto

definition from_utf8 :: "string \<Rightarrow> (utf8_error, string) result" where
  "from_utf8 bytes = bindR (run_utf8_validation 0 bytes) (\<lambda>_. Inr bytes)"

lemma from_utf8_Inr: "from_utf8 bytes = Inr s \<Longrightarrow> s = bytes"
  by (simp add: from_utf8_def bindR_Inr_iff)

lemma from_utf8_ascii: "\<forall>c \<in> set bytes. byte c < 128 \<Longrightarrow> from_utf8 bytes = Inr bytes"
proof -
  have "run_utf8_validation i bytes = Inr ()" if "\<forall>c \<in> set bytes. byte c < 128" for i
    using that by (induction bytes arbitrary: i) (auto simp: utf8_tail_def utf8_char_width_def)
  then show "\<forall>c \<in> set bytes. byte c < 128 \<Longrightarrow> ?thesis" by (simp add: from_utf8_def)
qed

text \<open>Two valid byte sequences concatenate to a valid one.\<close>

lemma utf8_tail_append: "utf8_tail c cs = Inr n \<Longrightarrow> n \<le> length cs \<and> utf8_tail c (cs @ ds) = Inr n"
proof -
  assume n: "utf8_tail c cs = Inr n"
  have w: "utf8_char_width c \<in> {0, 1, 2, 3, 4}"
    by (simp add: utf8_char_width_def Let_def)
  have l: "cs = [] \<or> (\<exists>x. cs = [x]) \<or> (\<exists>x y. cs = [x, y]) \<or> (\<exists>x y z zs. cs = x # y # z # zs)"
    by (metis list.exhaust)
  from l w n show ?thesis
    by (elim disjE exE insertE emptyE; hypsubst; simp add: utf8_tail_def numeral_eq_Suc split: if_splits)
qed

lemma run_utf8_append:
  "run_utf8_validation i xs = Inr () \<Longrightarrow> run_utf8_validation (i + length xs) ys = Inr () \<Longrightarrow>
     run_utf8_validation i (xs @ ys) = Inr ()"
proof (induction i xs rule: run_utf8_validation.induct)
  case (2 index c cs)
  from 2(2) obtain n where n: "utf8_tail c cs = Inr n" "run_utf8_validation (index + 1 + n) (drop n cs) = Inr ()"
    by (auto split: sum.splits)
  note a = utf8_tail_append [OF n(1), of ys]
  have "run_utf8_validation (index + 1 + n) (drop n cs @ ys) = Inr ()"
    using 2(1) [OF n(1,2)] 2(3) a by (simp add: algebra_simps)
  then show ?case using a by simp
qed simp

lemma run_utf8_index: "run_utf8_validation i xs = Inr () \<longleftrightarrow> run_utf8_validation j xs = Inr ()"
proof (induction i xs arbitrary: j rule: run_utf8_validation.induct)
  case (2 index c cs)
  show ?case
  proof (cases "utf8_tail c cs")
    case (Inr n)
    from 2 [OF this, of "j + 1 + n"] show ?thesis using Inr by simp
  qed simp
qed simp

lemma from_utf8_append:
  "from_utf8 xs = Inr xs \<Longrightarrow> from_utf8 ys = Inr ys \<Longrightarrow> from_utf8 (xs @ ys) = Inr (xs @ ys)"
  using run_utf8_append [of 0 xs ys] run_utf8_index [of "length xs" ys 0]
  by (auto simp: from_utf8_def bindR_Inr_iff)

section \<open>Errors\<close>

datatype mq_error = CommunicationError string | RuntimeError string

fun mq_error_to_string :: "mq_error \<Rightarrow> string" where
  "mq_error_to_string (CommunicationError e) =
     ''Error during communication via message queue '' @ [CHR 0x22] @ e @ [CHR 0x22]"
| "mq_error_to_string (RuntimeError e) =
     ''Error during joining blocking task '' @ [CHR 0x22] @ e @ [CHR 0x22]"

text \<open>
  An \<open>anyhow::Error\<close> as the chain of its contexts, the outermost first; its \<open>Display\<close> is the
  outermost one.
\<close>

type_synonym anyhow = "string list"

definition context_of :: "string \<Rightarrow> (string, 'a) result \<Rightarrow> (anyhow, 'a) result" where
  "context_of message r = map_err (\<lambda>e. [message, e]) r"

definition mq_of_anyhow :: "anyhow \<Rightarrow> mq_error" where
  "mq_of_anyhow e = CommunicationError (hd e)"

section \<open>Messages\<close>

text \<open>
  The trait \<open>CommunicationMessage\<close>. Acknowledging acts on the client's state \<open>'w\<close>; it may be
  refused, or, for Kafka, end in one of the failures of the acknowledgement queue.
\<close>

datatype ack_error = AckRefused mq_error | AckDied ack_failure

record 'w communication_message =
  cm_payload :: "(mq_error, string) result"
  cm_key :: "(mq_error, string) result"
  cm_ack :: "('w, ack_error, unit) op"

text \<open>The raw key and payload of a Kafka message beside its coordinates.\<close>

record borrowed_message = kafka_message +
  bm_key :: "string option"
  bm_payload :: "string option"

definition utf8_field :: "string \<Rightarrow> string option \<Rightarrow> (mq_error, string) result" where
  "utf8_field missing field =
     bindR (map_err mq_of_anyhow (ok_or [missing] field)) (\<lambda>bytes.
     map_err (\<lambda>e. CommunicationError (utf8_error_to_string e)) (from_utf8 bytes))"

definition kafka_ack :: "'c store_offsets \<Rightarrow> kafka_message \<Rightarrow> (kafka_ack_queue \<times> 'c, ack_error, unit) op" where
  "kafka_ack store_offsets m =
     (\<lambda>(queue, consumer). case kafka_ack_queue_ack store_offsets queue m consumer of
        Inl failure \<Rightarrow> (Inl (AckDied failure), (queue, consumer))
      | Inr (queue', consumer') \<Rightarrow> (Inr (), (queue', consumer')))"

definition kafka_communication_message ::
  "'c store_offsets \<Rightarrow> borrowed_message \<Rightarrow> (kafka_ack_queue \<times> 'c) communication_message" where
  "kafka_communication_message store_offsets m =
     \<lparr>cm_payload = utf8_field ''Message has no payload'' (bm_payload m),
      cm_key = utf8_field ''Message has no key'' (bm_key m),
      cm_ack = kafka_ack store_offsets (kafka_message.truncate m)\<rparr>"

record delivery =
  routing_key :: string
  delivery_data :: string
  delivery_tag :: u64

definition amqp_communication_message ::
  "(u64 \<Rightarrow> ('w, string, unit) op) \<Rightarrow> delivery \<Rightarrow> 'w communication_message" where
  "amqp_communication_message basic_ack d =
     \<lparr>cm_payload = map_err mq_of_anyhow (context_of ''Payload was not valid UTF-8''
        (map_err utf8_error_to_string (from_utf8 (delivery_data d)))),
      cm_key = Inr (routing_key d),
      cm_ack = map_errE (\<lambda>e. AckRefused (CommunicationError e)) (basic_ack (delivery_tag d))\<rparr>"

definition get_order_group_id :: "'w communication_message \<Rightarrow> string option" where
  "get_order_group_id message =
     (case ok (cm_key message) of
        None \<Rightarrow> None
      | Some x \<Rightarrow> if x = [] then None else Some x)"

section \<open>The consumer\<close>

datatype 'o consumer_config =
    KafkaConsumerConfig string string string
  | AmqpConsumerConfig string string string "'o option"

text \<open>The configuration of the Kafka consumer, in the order it is set.\<close>

definition kafka_consumer_settings :: "string \<Rightarrow> string \<Rightarrow> (string \<times> string) list" where
  "kafka_consumer_settings group_id brokers =
     [(''group.id'', group_id), (''bootstrap.servers'', brokers), (''enable.partition.eof'', ''false''),
      (''session.timeout.ms'', ''6000''), (''enable.auto.commit'', ''true''),
      (''enable.auto.offset.store'', ''false''), (''auto.offset.reset'', ''earliest'')]"

text \<open>The calls of the clients that create connections.\<close>

record ('k, 'n, 'h, 'a, 'o) mq_clients =
  kafka_create :: "(string \<times> string) list \<Rightarrow> (string, 'k) result"
  kafka_subscribe :: "'k \<Rightarrow> string list \<Rightarrow> (string, unit) result"
  amqp_connect :: "string \<Rightarrow> (string, 'n) result"
  amqp_create_channel :: "'n \<Rightarrow> (string, 'h) result"
  amqp_basic_consume :: "'h \<Rightarrow> string \<Rightarrow> string \<Rightarrow> 'o \<Rightarrow> (string, 'a) result"
  amqp_default_options :: 'o

datatype ('k, 'a) common_consumer = KafkaConsumer 'k kafka_ack_queue | AmqpConsumer 'a

definition consumer_new_kafka ::
  "('k, 'n, 'h, 'a, 'o) mq_clients \<Rightarrow> string \<Rightarrow> string \<Rightarrow> string list \<Rightarrow> (mq_error, ('k, 'a) common_consumer) result" where
  "consumer_new_kafka M group_id brokers topics =
     bindR (map_err mq_of_anyhow (context_of ''Consumer creation failed''
        (kafka_create M (kafka_consumer_settings group_id brokers)))) (\<lambda>consumer.
     bindR (map_err mq_of_anyhow (context_of (''Can'' @ [CHR 0x27] @ ''t subscribe to specified topics'')
        (kafka_subscribe M consumer topics))) (\<lambda>_.
     Inr (KafkaConsumer consumer Map.empty)))"

definition consumer_new_amqp ::
  "('k, 'n, 'h, 'a, 'o) mq_clients \<Rightarrow> string \<Rightarrow> string \<Rightarrow> string \<Rightarrow> 'o option \<Rightarrow>
   (mq_error, ('k, 'a) common_consumer) result" where
  "consumer_new_amqp M connection_string consumer_tag queue_name consume_options =
     (let consume_options = (case consume_options of Some opts \<Rightarrow> opts | None \<Rightarrow> amqp_default_options M) in
      bindR (map_err CommunicationError (amqp_connect M connection_string)) (\<lambda>connection.
      bindR (map_err CommunicationError (amqp_create_channel M connection)) (\<lambda>channel.
      bindR (map_err CommunicationError
         (amqp_basic_consume M channel queue_name consumer_tag consume_options)) (\<lambda>consumer.
      Inr (AmqpConsumer consumer)))))"

primrec consumer_new ::
  "('k, 'n, 'h, 'a, 'o) mq_clients \<Rightarrow> 'o consumer_config \<Rightarrow> (mq_error, ('k, 'a) common_consumer) result" where
  "consumer_new M (KafkaConsumerConfig group_id brokers topic) = consumer_new_kafka M group_id brokers [topic]"
| "consumer_new M (AmqpConsumerConfig connection_string consumer_tag queue_name options) =
     consumer_new_amqp M connection_string consumer_tag queue_name options"

text \<open>
  The stream of \<open>consume\<close> over what the client delivers: \<open>try_stream!\<close> ends the stream after the
  first error. A Kafka message is added to the acknowledgement queue before it is handed out.
\<close>

primrec consume_kafka ::
  "(string, borrowed_message) result list \<Rightarrow> kafka_ack_queue \<Rightarrow>
   (mq_error, borrowed_message) result list \<times> kafka_ack_queue" where
  "consume_kafka [] queue = ([], queue)"
| "consume_kafka (item # items) queue =
     (case item of
        Inl e \<Rightarrow> ([Inl (CommunicationError e)], queue)
      | Inr m \<Rightarrow>
          (let queue = kafka_ack_queue_add queue (kafka_message.truncate m);
               (ms, queue) = consume_kafka items queue
           in (Inr m # ms, queue)))"

primrec consume_amqp :: "(string, delivery) result list \<Rightarrow> (mq_error, delivery) result list" where
  "consume_amqp [] = []"
| "consume_amqp (item # items) =
     (case item of
        Inl e \<Rightarrow> [Inl (CommunicationError e)]
      | Inr d \<Rightarrow> Inr d # consume_amqp items)"

section \<open>The publisher\<close>

text \<open>
  A connected publisher: the Kafka producer's send with its five second timeout, or the AMQP
  channel's publish, whose first result is the confirmation to wait for.
\<close>

datatype 'w common_publisher =
    KafkaPublisher "string \<Rightarrow> string \<Rightarrow> string \<Rightarrow> nat \<Rightarrow> ('w, string, unit) op"
  | AmqpPublisher "string \<Rightarrow> string \<Rightarrow> string \<Rightarrow> nat \<Rightarrow> ('w, string, ('w, string, unit) op) op"

definition kafka_publisher_settings :: "string \<Rightarrow> (string \<times> string) list" where
  "kafka_publisher_settings brokers =
     [(''bootstrap.servers'', brokers), (''message.timeout.ms'', ''5000''), (''acks'', ''all''),
      (''compression.type'', ''none''), (''max.in.flight.requests.per.connection'', ''1'')]"

definition publisher_new_kafka ::
  "((string \<times> string) list \<Rightarrow> (string, 'p) result) \<Rightarrow> string \<Rightarrow> (mq_error, 'p) result" where
  "publisher_new_kafka create brokers = map_err CommunicationError (create (kafka_publisher_settings brokers))"

definition publisher_new_amqp ::
  "('k, 'n, 'h, 'a, 'o) mq_clients \<Rightarrow> string \<Rightarrow> (mq_error, 'h) result" where
  "publisher_new_amqp M connection_string =
     bindR (map_err CommunicationError (amqp_connect M connection_string)) (\<lambda>connection.
     map_err CommunicationError (amqp_create_channel M connection))"

definition persistent :: nat where "persistent = 2"

fun publish_message :: "'w common_publisher \<Rightarrow> string \<Rightarrow> string \<Rightarrow> string \<Rightarrow> ('w, mq_error, unit) op" where
  "publish_message (KafkaPublisher send) topic_or_exchange key payload =
     map_errE CommunicationError (send topic_or_exchange payload key 5)"
| "publish_message (AmqpPublisher basic_publish) topic_or_exchange key payload =
     map_errE CommunicationError (bindE (basic_publish topic_or_exchange key payload persistent) (\<lambda>confirm. confirm))"

section \<open>The metadata fetcher\<close>

datatype declare_error = SoftNotFound | OtherDeclareError string

datatype metadata_fetcher =
    KafkaMetadata "string \<Rightarrow> nat \<Rightarrow> (string, (string, string list) result) result"
  | AmqpMetadata "(string, string \<Rightarrow> (declare_error, unit) result) result"

text \<open>
  For Kafka the blocking task may fail to join, the request may fail, or it lists topic names;
  for AMQP a passive declaration of the exchange is tried.
\<close>

fun topic_or_exchange_exists :: "metadata_fetcher \<Rightarrow> string \<Rightarrow> (mq_error, bool) result" where
  "topic_or_exchange_exists (AmqpMetadata create_channel) topic_or_exchange =
     bindR (map_err mq_of_anyhow (context_of ''Metadata fetcher AMQP channel creation failed'' create_channel))
       (\<lambda>exchange_declare.
     case exchange_declare topic_or_exchange of
       Inl SoftNotFound \<Rightarrow> Inr False
     | Inl (OtherDeclareError e) \<Rightarrow> Inl (CommunicationError e)
     | Inr _ \<Rightarrow> Inr True)"
| "topic_or_exchange_exists (KafkaMetadata fetch_metadata) topic_or_exchange =
     bindR (map_err RuntimeError (fetch_metadata topic_or_exchange 5)) (\<lambda>answer.
     bindR (map_err CommunicationError answer) (\<lambda>topics.
     Inr (\<exists>name \<in> set topics. name = topic_or_exchange)))"

section \<open>The messages of the services\<close>

text \<open>A \<open>RawValue\<close> is the text of a JSON value.\<close>

record borrowed_insert_message =
  bi_object_id :: uuid
  bi_schema_id :: uuid
  bi_timestamp :: i64
  bi_data :: string

record owned_insert_message =
  om_object_id :: uuid
  om_schema_id :: uuid
  om_timestamp :: i64
  om_data :: json

text \<open>The outcome \<open>None\<close> is the panic of \<open>expect\<close>.\<close>

definition to_owned :: "(string \<Rightarrow> (string, json) result) \<Rightarrow> borrowed_insert_message \<Rightarrow> owned_insert_message option" where
  "to_owned from_str m =
     map_option (\<lambda>js. \<lparr>om_object_id = bi_object_id m, om_schema_id = bi_schema_id m,
        om_timestamp = bi_timestamp m, om_data = js\<rparr>) (ok (from_str (bi_data m)))"

record data_router_insert_message =
  dr_object_id :: uuid
  dr_schema_id :: uuid
  dr_data :: string

text \<open>
  \<open>current_timestamp\<close> of a clock that is \<open>ms\<close> milliseconds after the epoch: it panics before the
  epoch, and the cast keeps the low 64 bits.
\<close>

definition current_timestamp :: "int \<Rightarrow> i64 option" where
  "current_timestamp ms = (if ms < 0 then None else Some (word_of_int ms))"

section \<open>Table names\<close>

definition is_ascii_alphanumeric :: "char \<Rightarrow> bool" where
  "is_ascii_alphanumeric c =
     (let b = byte c in 48 \<le> b \<and> b \<le> 57 \<or> 65 \<le> b \<and> b \<le> 90 \<or> 97 \<le> b \<and> b \<le> 122)"

text \<open>
  The source looks at characters; a character outside ASCII has only bytes above 127, so looking
  at bytes gives the same answer.
\<close>

definition validate_schema :: "string \<Rightarrow> bool" where
  "validate_schema schema = list_all (\<lambda>c. c = CHR ''_'' \<or> is_ascii_alphanumeric c) schema"

section \<open>Properties\<close>

lemma kafka_add_keeps_waiting:
  assumes "queue i = Some pq" and "x \<in> set (waiting_list pq)"
  shows "\<exists>pq'. kafka_ack_queue_add queue m i = Some pq' \<and> x \<in> set (waiting_list pq')"
  using assms by (auto simp: kafka_ack_queue_add_def partition_queue_add_def Let_def)

lemma consume_keeps_waiting:
  "queue i = Some pq \<Longrightarrow> x \<in> set (waiting_list pq) \<Longrightarrow>
     \<exists>pq'. snd (consume_kafka items queue) i = Some pq' \<and> x \<in> set (waiting_list pq')"
proof (induction items arbitrary: queue pq)
  case (Cons item items)
  show ?case
  proof (cases item)
    case (Inr m)
    obtain pq' where
      "kafka_ack_queue_add queue (kafka_message.truncate m) i = Some pq'" "x \<in> set (waiting_list pq')"
      using kafka_add_keeps_waiting [where queue = queue and i = i, OF Cons.prems] by blast
    with Cons.IH [where queue = "kafka_ack_queue_add queue (kafka_message.truncate m)" and pq = pq']
    show ?thesis using Inr by (simp add: Let_def split_beta)
  qed (use Cons.prems in simp)
qed simp

text \<open>
  The Kafka consumer delivers exactly the messages before the first error of the client, in
  order, then that error, and ends; every message it hands out waits in the acknowledgement queue
  of its partition, so acknowledging it finds its queue.
\<close>

theorem kafka_stream_is_tracked:
  assumes "consume_kafka items queue = (out, queue')"
  shows "(\<forall>m. Inr m \<in> set out \<longrightarrow> (\<exists>pq. queue' (partition_index (km_partition m)) = Some pq \<and>
      km_offset m \<in> set (waiting_list pq))) \<and>
    out = (let ms = takeWhile (\<lambda>i. ok i \<noteq> None) items in
      map (map_err CommunicationError) (ms @ take 1 (drop (length ms) items)))"
  using assms
proof (induction items arbitrary: queue out queue')
  case (Cons item items)
  show ?case
  proof (cases item)
    case (Inl e)
    with Cons.prems show ?thesis by (auto simp: map_err_def)
  next
    case (Inr m)
    define q where "q = kafka_ack_queue_add queue (kafka_message.truncate m)"
    obtain out' where c: "consume_kafka items q = (out', queue')" "out = Inr m # out'"
      using Cons.prems Inr by (auto simp: q_def Let_def split: prod.splits)
    have "\<exists>pq. q (partition_index (km_partition m)) = Some pq \<and> km_offset m \<in> set (waiting_list pq)"
      by (auto simp: q_def kafka_ack_queue_add_def partition_queue_add_def Let_def kafka_message.defs)
    then have "\<exists>pq. queue' (partition_index (km_partition m)) = Some pq \<and> km_offset m \<in> set (waiting_list pq)"
      using consume_keeps_waiting [of q _ _ _ items] c by auto
    with Cons.IH [OF c(1)] c(2) Inr show ?thesis by (auto simp: Let_def map_err_def)
  qed
qed simp

theorem kafka_stream_is_tracked_witness:
  "fst (consume_kafka [Inr \<lparr>km_topic = ''t'', km_partition = 0, km_offset = 5, bm_key = None, bm_payload = None\<rparr>,
      Inl ''broker down'', Inr \<lparr>km_topic = ''t'', km_partition = 0, km_offset = 6, bm_key = None, bm_payload = None\<rparr>]
      Map.empty) =
   [Inr \<lparr>km_topic = ''t'', km_partition = 0, km_offset = 5, bm_key = None, bm_payload = None\<rparr>,
    Inl (CommunicationError ''broker down'')]"
  using kafka_stream_is_tracked [OF surjective_pairing, of "[Inr \<lparr>km_topic = ''t'', km_partition = 0,
      km_offset = 5, bm_key = None, bm_payload = None\<rparr>, Inl ''broker down'', Inr \<lparr>km_topic = ''t'',
      km_partition = 0, km_offset = 6, bm_key = None, bm_payload = None\<rparr>]" Map.empty]
  by (simp add: map_err_def)

end
