(* ===== verification/Status_Endpoints.thy ===== *)
theory Status_Endpoints
  imports Prelude
begin

text \<open>
  The status endpoints of \<open>utils/src/status_endpoints.rs\<close>: three process-wide flags and the HTTP
  service on port 3000 that shows them to the cluster's probes. The flags are behind read-write
  locks whose writers cannot panic, so the locks are never poisoned.
\<close>

record status_flags =
  health_status :: bool
  startup_status :: bool
  ready_status :: bool

definition initial_flags :: status_flags where
  "initial_flags = \<lparr>health_status = True, startup_status = False, ready_status = True\<rparr>"

definition mark_as_unhealthy :: "status_flags \<Rightarrow> status_flags" where
  "mark_as_unhealthy flags = flags\<lparr>health_status := False\<rparr>"

definition mark_as_started :: "status_flags \<Rightarrow> status_flags" where
  "mark_as_started flags = flags\<lparr>startup_status := True\<rparr>"

definition mark_as_ready :: "status_flags \<Rightarrow> status_flags" where
  "mark_as_ready flags = flags\<lparr>ready_status := True\<rparr>"

definition mark_as_not_ready :: "status_flags \<Rightarrow> status_flags" where
  "mark_as_not_ready flags = flags\<lparr>ready_status := False\<rparr>"

text \<open>The answer to a request is its status code; the bodies are empty.\<close>

definition send_status :: "bool \<Rightarrow> nat" where
  "send_status value = (if value then 200 else 500)"

definition handle_requests :: "status_flags \<Rightarrow> string \<Rightarrow> string \<Rightarrow> nat" where
  "handle_requests flags verb path =
     (if verb = ''GET'' \<and> path = ''/status/health'' then send_status (health_status flags)
      else if verb = ''GET'' \<and> path = ''/status/startup'' then send_status (startup_status flags)
      else if verb = ''GET'' \<and> path = ''/status/readiness'' then send_status (ready_status flags)
      else 404)"

lemma probe_answers:
  "handle_requests flags ''GET'' ''/status/health'' = (if health_status flags then 200 else 500)"
  "handle_requests flags ''GET'' ''/status/startup'' = (if startup_status flags then 200 else 500)"
  "handle_requests flags ''GET'' ''/status/readiness'' = (if ready_status flags then 200 else 500)"
  by (simp_all add: handle_requests_def send_status_def)

text \<open>
  A probe other than the three is not found, whatever the flags, and marking one flag does not
  change the answer of the other probes.
\<close>

lemma handle_requests_frame:
  "verb \<noteq> ''GET'' \<Longrightarrow> handle_requests flags verb path = 404"
  "path \<noteq> ''/status/startup'' \<Longrightarrow> handle_requests (mark_as_started flags) verb path = handle_requests flags verb path"
  "path \<noteq> ''/status/health'' \<Longrightarrow> handle_requests (mark_as_unhealthy flags) verb path = handle_requests flags verb path"
  "path \<noteq> ''/status/readiness'' \<Longrightarrow> handle_requests (mark_as_ready flags) verb path = handle_requests flags verb path"
  "path \<noteq> ''/status/readiness'' \<Longrightarrow> handle_requests (mark_as_not_ready flags) verb path = handle_requests flags verb path"
  by (simp_all add: handle_requests_def mark_as_started_def mark_as_unhealthy_def mark_as_ready_def
      mark_as_not_ready_def)

end
