(* ===== verification/Registry_Startup.thy ===== *)
theory Registry_Startup
  imports Registry_Rpc Registry_Export Messaging Status_Endpoints
begin

text \<open>
  The start of a schema registry node: \<open>main.rs\<close> of the crate, the connections that
  \<open>SchemaRegistryImpl::new\<close> makes, and those of the replication tasks. The state is the process:
  its status flags, the port its metrics are served at, and the files it sees. What the message
  queue, the datastore and the file system answer, and the text of an export, are parameters; a
  file that opens holds what was last written to it. A replication task that runs while the node
  is starting is not interleaved here.
\<close>

section \<open>Configuration\<close>

text \<open>
  \<open>str::to_lowercase\<close> on the bytes of a string: the letters of ASCII, and the Kelvin sign, which is
  the only other character that becomes a letter of one of the names below. Other letters, which
  can only be shown in the error text, are kept as they are.
\<close>

definition ascii_lowercase :: "char \<Rightarrow> char" where
  "ascii_lowercase c =
     (let n = of_char c :: nat in if 65 \<le> n \<and> n \<le> 90 then char_of (n + 32) else c)"

fun to_lowercase :: "string \<Rightarrow> string" where
  "to_lowercase (c # d # e # cs) =
     (if c = CHR 0xE2 \<and> d = CHR 0x84 \<and> e = CHR 0xAA then CHR ''k'' # to_lowercase cs
      else ascii_lowercase c # to_lowercase (d # e # cs))"
| "to_lowercase (c # cs) = ascii_lowercase c # to_lowercase cs"
| "to_lowercase [] = []"

datatype message_queue_type = KafkaType | AmqpType

definition deserialize_message_queue_type :: "string \<Rightarrow> (string, message_queue_type) result" where
  "deserialize_message_queue_type input =
     (let s = to_lowercase input in
      if s = ''kafka'' then Inr KafkaType
      else if s = ''amqp'' then Inr AmqpType
      else Inl (''Invalid message queue type: `'' @ s @ ''`''))"

text \<open>The derived \<open>Deserialize\<close> of \<open>ReplicationRole\<close>, in snake case; \<open>None\<close> is an unknown variant.\<close>

definition replication_role_of_name :: "string \<Rightarrow> replication_role option" where
  "replication_role_of_name s =
     (if s = ''master'' then Some Master
      else if s = ''slave'' then Some Slave
      else if s = ''none'' then Some NoRole
      else None)"

record startup_config =
  su_input_port :: "16 word"
  su_db_name :: string
  su_replication_role :: replication_role
  su_replication_queue :: message_queue_type
  su_kafka_brokers :: "string option"
  su_kafka_group_id :: "string option"
  su_amqp_connection_string :: "string option"
  su_amqp_consumer_tag :: "string option"
  su_replication_topic_or_queue :: string
  su_replication_topic_or_exchange :: string
  su_pod_name :: "string option"
  su_export_dir :: "string option"
  su_import_file :: "string option"
  su_metrics_port :: "16 word option"

record kafka_config =
  rk_brokers :: string
  rk_group_id :: string

record amqp_config =
  ra_connection_string :: string
  ra_consumer_tag :: string

datatype replication_queue = KafkaReplication kafka_config | AmqpReplication amqp_config

record replication_config =
  rq_queue :: replication_queue
  rq_topic_or_queue :: string
  rq_topic_or_exchange :: string

definition replication_config_of :: "startup_config \<Rightarrow> (anyhow, replication_config) result" where
  "replication_config_of config =
     bindR (case su_replication_queue config of
         KafkaType \<Rightarrow>
           bindR (ok_or [''Missing kafka brokers''] (su_kafka_brokers config)) (\<lambda>brokers.
           bindR (ok_or [''Missing kafka group''] (su_kafka_group_id config)) (\<lambda>group_id.
           Inr (KafkaReplication \<lparr>rk_brokers = brokers, rk_group_id = group_id\<rparr>)))
       | AmqpType \<Rightarrow>
           bindR (ok_or [''Missing amqp connection string''] (su_amqp_connection_string config))
             (\<lambda>connection_string.
           bindR (ok_or [''Missing amqp consumer tag''] (su_amqp_consumer_tag config)) (\<lambda>consumer_tag.
           Inr (AmqpReplication
             \<lparr>ra_connection_string = connection_string, ra_consumer_tag = consumer_tag\<rparr>))))
       (\<lambda>queue. Inr \<lparr>rq_queue = queue, rq_topic_or_queue = su_replication_topic_or_queue config,
          rq_topic_or_exchange = su_replication_topic_or_exchange config\<rparr>)"

section \<open>Connections\<close>

text \<open>
  What creating a client returns: for Kafka its metadata request, for AMQP the creation of a
  channel on the connection.
\<close>

record ('s, 'v) startup_env =
  sx_from_env :: "(string \<Rightarrow> (string, message_queue_type) result) \<Rightarrow> (string \<Rightarrow> replication_role option) \<Rightarrow>
    (string, startup_config) result"
  sx_kafka_create :: "(string \<times> string) list \<Rightarrow>
    (string, string \<Rightarrow> nat \<Rightarrow> (string, (string, string list) result) result) result"
  sx_amqp_connect :: "string \<Rightarrow> (string, (string, string \<Rightarrow> (declare_error, unit) result) result) result"
  sx_sled_new :: "string \<Rightarrow> (db_error, 's) result"
  sx_now :: string
  sx_join :: "string \<Rightarrow> string \<Rightarrow> string"
  sx_create_error :: "string \<Rightarrow> string option"
  sx_write_error :: "string \<Rightarrow> string option"
  sx_open_error :: "string \<Rightarrow> string option"
  sx_export_to_string :: "'v db_export \<Rightarrow> (string, string) result"
  sx_export_from_reader :: "string \<Rightarrow> (string, 'v db_export) result"
  sx_server :: "16 word \<Rightarrow> (string, unit) result"

definition metadata_fetcher_new_kafka :: "('s, 'v) startup_env \<Rightarrow> string \<Rightarrow> (mq_error, metadata_fetcher) result" where
  "metadata_fetcher_new_kafka X brokers =
     bindR (map_err mq_of_anyhow (context_of ''Metadata fetcher creation failed''
        (sx_kafka_create X [(''bootstrap.servers'', brokers)]))) (\<lambda>producer.
     Inr (KafkaMetadata producer))"

definition metadata_fetcher_new_amqp :: "('s, 'v) startup_env \<Rightarrow> string \<Rightarrow> (mq_error, metadata_fetcher) result" where
  "metadata_fetcher_new_amqp X connection_string =
     bindR (map_err mq_of_anyhow (context_of ''Metadata fetcher creation failed''
        (sx_amqp_connect X connection_string))) (\<lambda>connection.
     Inr (AmqpMetadata connection))"

definition metadata_fetcher_of :: "('s, 'v) startup_env \<Rightarrow> replication_config \<Rightarrow> (mq_error, metadata_fetcher) result" where
  "metadata_fetcher_of X rc =
     (case rq_queue rc of
        KafkaReplication kafka \<Rightarrow> metadata_fetcher_new_kafka X (rk_brokers kafka)
      | AmqpReplication amqp \<Rightarrow> metadata_fetcher_new_amqp X (ra_connection_string amqp))"

text \<open>
  The connections of the replication tasks: the consumer of a slave and the publisher of a master.
  The outcome \<open>None\<close> is \<open>process::abort\<close>.
\<close>

definition slave_consumer_config :: "replication_config \<Rightarrow> 'o consumer_config" where
  "slave_consumer_config rc =
     (case rq_queue rc of
        KafkaReplication kafka \<Rightarrow>
          KafkaConsumerConfig (rk_group_id kafka) (rk_brokers kafka) (rq_topic_or_queue rc)
      | AmqpReplication amqp \<Rightarrow>
          AmqpConsumerConfig (ra_connection_string amqp) (ra_consumer_tag amqp) (rq_topic_or_queue rc) None)"

definition slave_consumer ::
  "('k, 'n, 'h, 'a, 'o) mq_clients \<Rightarrow> replication_config \<Rightarrow> ('k, 'a) common_consumer option" where
  "slave_consumer M rc = ok (consumer_new M (slave_consumer_config rc))"

definition master_producer ::
  "((string \<times> string) list \<Rightarrow> (string, 'p) result) \<Rightarrow> ('k, 'n, 'h, 'a, 'o) mq_clients \<Rightarrow>
   replication_config \<Rightarrow> ('p + 'h) option" where
  "master_producer create M rc =
     (case rq_queue rc of
        KafkaReplication kafka \<Rightarrow> map_option Inl (ok (publisher_new_kafka create (rk_brokers kafka)))
      | AmqpReplication amqp \<Rightarrow> map_option Inr (ok (publisher_new_amqp M (ra_connection_string amqp))))"

section \<open>The process\<close>

record process =
  pr_flags :: status_flags
  pr_metrics :: "16 word option"
  pr_files :: "string \<rightharpoonup> string"

text \<open>
  A start fails with an error and its contexts, with a refusal of the registry under the context
  of the call, or with a panic or abort of \<open>set_replication_role\<close>.
\<close>

datatype ('v, 'r) startup_failure =
    NodeFailed anyhow
  | NodeRefused string "('v, 'r) registry_error"
  | NodeStopped rpc_failure

type_synonym ('s, 'v, 'r, 'a) startup_op =
  "(('s, 'v) node \<times> process, ('v, 'r) startup_failure, 'a) op"

definition on_node :: "(('s, 'v) node, string \<times> ('v, 'r) registry_error, 'a) op \<Rightarrow> ('s, 'v, 'r, 'a) startup_op" where
  "on_node m = (\<lambda>(n, p). case m n of (r, n') \<Rightarrow> (map_err (\<lambda>(message, e). NodeRefused message e) r, (n', p)))"

definition on_process :: "(process, string, 'a) op \<Rightarrow> ('s, 'v, 'r, 'a) startup_op" where
  "on_process m = (\<lambda>(n, p). case m p of (r, p') \<Rightarrow> (map_err (\<lambda>e. NodeFailed [e]) r, (n, p')))"

subsection \<open>Files\<close>

text \<open>\<open>File::create\<close> truncates the file, \<open>write!\<close> appends to it.\<close>

definition file_create :: "('s, 'v) startup_env \<Rightarrow> string \<Rightarrow> (process, string, unit) op" where
  "file_create X path p =
     (case sx_create_error X path of
        Some e \<Rightarrow> (Inl e, p)
      | None \<Rightarrow> (Inr (), p\<lparr>pr_files := (pr_files p)(path \<mapsto> [])\<rparr>))"

definition file_write :: "('s, 'v) startup_env \<Rightarrow> string \<Rightarrow> string \<Rightarrow> (process, string, unit) op" where
  "file_write X path content p =
     (case sx_write_error X path of
        Some e \<Rightarrow> (Inl e, p)
      | None \<Rightarrow> (Inr (), p\<lparr>pr_files := (pr_files p)(path \<mapsto> case_option [] id (pr_files p path) @ content)\<rparr>))"

definition file_open :: "('s, 'v) startup_env \<Rightarrow> string \<Rightarrow> (process, string, string) op" where
  "file_open X path p =
     (case sx_open_error X path of
        Some e \<Rightarrow> (Inl e, p)
      | None \<Rightarrow> (ok_or ''No such file or directory (os error 2)'' (pr_files p path), p))"

definition export_path :: "('s, 'v) startup_env \<Rightarrow> string \<Rightarrow> string" where
  "export_path X export_dir_path = sx_join X export_dir_path (''export_'' @ sx_now X @ ''.json'')"

subsection \<open>Main\<close>

definition default_metrics_port :: "16 word" where
  "default_metrics_port = 58105"

definition export_step :: "('s, 'v) startup_env \<Rightarrow> ('s, 'v, 'r) crates \<Rightarrow> string \<Rightarrow> ('s, 'v, 'r, unit) startup_op" where
  "export_step X E export_dir_path =
     bindE (on_node (node_export_all E)) (\<lambda>exported.
     bindE (liftR (map_err (\<lambda>e. NodeFailed [e]) (sx_export_to_string X exported))) (\<lambda>content.
     thenE (on_process (file_create X (export_path X export_dir_path)))
     (on_process (file_write X (export_path X export_dir_path) content))))"

definition import_step :: "('s, 'v) startup_env \<Rightarrow> ('s, 'v, 'r) crates \<Rightarrow> string \<Rightarrow> ('s, 'v, 'r, unit) startup_op" where
  "import_step X E import_path =
     bindE (on_process (file_open X import_path)) (\<lambda>content.
     bindE (liftR (map_err (\<lambda>e. NodeFailed [e]) (sx_export_from_reader X content))) (\<lambda>imported.
     on_node (node_import_all E imported)))"

text \<open>A node that serves requests.\<close>

record ('s, 'v) serving =
  sv_node :: "('s, 'v) node"
  sv_metadata :: metadata_fetcher
  sv_pod_name :: "string option"
  sv_port :: "16 word"

text \<open>\<open>SchemaRegistryImpl::new\<close>: the metadata fetcher connects first, then the role is set.\<close>

definition registry_impl_new ::
  "('s, 'v) startup_env \<Rightarrow> 's \<Rightarrow> replication_role \<Rightarrow> replication_config \<Rightarrow>
   (('v, 'r) startup_failure, metadata_fetcher \<times> ('s, 'v) node) result" where
  "registry_impl_new X data_store role rc =
     bindR (map_err (\<lambda>e. NodeFailed [mq_error_to_string e]) (metadata_fetcher_of X rc)) (\<lambda>fetcher.
     case registry_new data_store role of
       (Inl failure, _) \<Rightarrow> Inl (NodeStopped failure)
     | (Inr _, n) \<Rightarrow> Inr (fetcher, n))"

text \<open>\<open>main\<close> up to the call of \<open>mark_as_started\<close>, and with the server.\<close>

definition startup_config_of ::
  "('s, 'v) startup_env \<Rightarrow> (('v, 'r) startup_failure, startup_config \<times> replication_config) result" where
  "startup_config_of X =
     bindR (map_err NodeFailed (context_of ''Env vars not set correctly''
        (sx_from_env X deserialize_message_queue_type replication_role_of_name))) (\<lambda>config.
     bindR (map_err NodeFailed (replication_config_of config)) (\<lambda>rc.
     Inr (config, rc)))"

definition startup_registry ::
  "('s, 'v) startup_env \<Rightarrow> ('s, 'v, 'r) crates \<Rightarrow> startup_config \<Rightarrow> replication_config \<Rightarrow>
   (('v, 'r) startup_failure, metadata_fetcher \<times> ('s, 'v) node) result" where
  "startup_registry X E config rc =
     bindR (map_err (\<lambda>e. NodeFailed [registry_error_to_string E (ConnectionError e)])
        (sx_sled_new X (su_db_name config))) (\<lambda>data_store.
     registry_impl_new X data_store (su_replication_role config) rc)"

definition startup_steps ::
  "('s, 'v) startup_env \<Rightarrow> ('s, 'v, 'r) crates \<Rightarrow> startup_config \<Rightarrow> ('s, 'v, 'r, unit) startup_op" where
  "startup_steps X E config =
     thenE (if_some (su_export_dir config) (export_step X E)) (if_some (su_import_file config) (import_step X E))"

definition registry_startup ::
  "('s, 'v) startup_env \<Rightarrow> ('s, 'v, 'r) crates \<Rightarrow> (process, ('v, 'r) startup_failure, ('s, 'v) serving) op" where
  "registry_startup X E p =
     (case startup_config_of X of
        Inl e \<Rightarrow> (Inl e, p)
      | Inr (config, rc) \<Rightarrow>
          (let p = p\<lparr>pr_metrics := Some (case_option default_metrics_port id (su_metrics_port config))\<rparr> in
           case startup_registry X E config rc of
             Inl e \<Rightarrow> (Inl e, p)
           | Inr (fetcher, n) \<Rightarrow>
               (case startup_steps X E config (n, p) of
                  (Inl e, (n, p)) \<Rightarrow> (Inl e, p)
                | (Inr _, (n, p)) \<Rightarrow>
                    (Inr \<lparr>sv_node = n, sv_metadata = fetcher, sv_pod_name = su_pod_name config,
                          sv_port = su_input_port config\<rparr>,
                     p\<lparr>pr_flags := mark_as_started (pr_flags p)\<rparr>))))"

definition registry_main ::
  "('s, 'v) startup_env \<Rightarrow> ('s, 'v, 'r) crates \<Rightarrow> (process, ('v, 'r) startup_failure, unit) op" where
  "registry_main X E =
     bindE (registry_startup X E) (\<lambda>serving. liftR (map_err (\<lambda>e. NodeFailed [e]) (sx_server X (sv_port serving))))"

section \<open>Lemmas on a start\<close>

text \<open>The first role of a node is set without a panic.\<close>

lemma registry_new_role [simp]:
  "fst (registry_new s role) = Inr ()"
  "node_db (snd (registry_new s role)) = s"
  "replication_role (node_repl (snd (registry_new s role))) = role"
  by (cases role; simp add: registry_new_def set_replication_role_def lock_replication_def thenE_def bindE_def
      set_role_def take_master_channel_def replication_state_new_def start_replication_master_def
      start_replication_slave_def Let_def)+

lemma registry_impl_new_cases:
  "registry_impl_new X data_store role rc =
     (case metadata_fetcher_of X rc of
        Inl e \<Rightarrow> Inl (NodeFailed [mq_error_to_string e])
      | Inr fetcher \<Rightarrow> Inr (fetcher, snd (registry_new data_store role)))"
  by (simp add: registry_impl_new_def map_err_def split_beta split: sum.split)

text \<open>The steps before \<open>mark_as_started\<close> keep the flags, and write no file but the export.\<close>

definition untouched :: "('s, 'v) startup_env \<Rightarrow> process \<Rightarrow> ('s, 'v) node \<times> process \<Rightarrow> bool" where
  "untouched X p = (\<lambda>(n, q). pr_flags q = pr_flags p \<and>
     (\<forall>path. (\<forall>dir. path \<noteq> export_path X dir) \<longrightarrow> pr_files q path = pr_files p path))"

lemma untouched_iff: "untouched X p s \<longleftrightarrow> pr_flags (snd s) = pr_flags p \<and>
     (\<forall>path. (\<forall>dir. path \<noteq> export_path X dir) \<longrightarrow> pr_files (snd s) path = pr_files p path)"
  by (cases s) (simp add: untouched_def)

lemma untouched_on_node [pres]: "preserves (untouched X p) (on_node m)"
  by (rule preservesI) (simp add: untouched_iff on_node_def split_beta)

lemma untouched_on_process:
  assumes "\<And>q. pr_flags (snd (m q)) = pr_flags q"
    and "\<And>q path. \<forall>dir. path \<noteq> export_path X dir \<Longrightarrow> pr_files (snd (m q)) path = pr_files q path"
  shows "preserves (untouched X p) (on_process m)"
  by (rule preservesI) (simp add: untouched_iff on_process_def split_beta assms)

lemma untouched_files [pres]:
  "preserves (untouched X p) (on_process (file_open X path))"
  "preserves (untouched X p) (on_process (file_create X (export_path X dir)))"
  "preserves (untouched X p) (on_process (file_write X (export_path X dir) content))"
  by (rule untouched_on_process; simp add: file_open_def file_create_def file_write_def split: option.split)+

lemma untouched_if_some [pres]: "(\<And>x. preserves P (f x)) \<Longrightarrow> preserves P (if_some v f)"
  by (auto simp: if_some_def intro: pres split: option.splits)

lemma untouched_steps [pres]:
  "preserves (untouched X p) (export_step X E dir)" "preserves (untouched X p) (import_step X E path)"
  by (auto simp: export_step_def import_step_def intro!: pres)

lemma untouched_startup_steps: "preserves (untouched X p) (startup_steps X E config)"
  by (auto simp: startup_steps_def intro!: pres)

lemma startup_untouched:
  assumes "registry_startup X E p = (r, p')"
  shows "pr_flags p' = (if isl r then pr_flags p else mark_as_started (pr_flags p)) \<and>
    (\<forall>path. (\<forall>dir. path \<noteq> export_path X dir) \<longrightarrow> pr_files p' path = pr_files p path)"
proof -
  have steps: "untouched X p (n', q')" if "startup_steps X E config (n, p\<lparr>pr_metrics := m\<rparr>) = (r', (n', q'))"
    for config n m r' n' q'
    using preservesD [OF untouched_startup_steps [of X p] _ that] by (simp add: untouched_def)
  show ?thesis using assms
    by (auto simp: registry_startup_def Let_def untouched_def split: sum.splits prod.splits dest!: steps)
qed

lemma startup_registry_db:
  "startup_registry X E config rc =
     (case sx_sled_new X (su_db_name config) of
        Inl e \<Rightarrow> Inl (NodeFailed [registry_error_to_string E (ConnectionError e)])
      | Inr s \<Rightarrow>
          (case metadata_fetcher_of X rc of
             Inl e \<Rightarrow> Inl (NodeFailed [mq_error_to_string e])
           | Inr fetcher \<Rightarrow> Inr (fetcher, snd (registry_new s (su_replication_role config)))))"
  by (simp add: startup_registry_def registry_impl_new_cases map_err_def split: sum.split)

text \<open>A start that exports, and does nothing else, has written the export of the database it opened.\<close>

lemma export_step_Inr:
  assumes "export_step X E dir (n, q) = (Inr u, (n', q'))"
  shows "\<exists>ex content. export_all E (node_db n) = (Inr ex, node_db n') \<and> sx_export_to_string X ex = Inr content \<and>
    pr_files q' (export_path X dir) = Some content"
  using assms
  by (auto simp: export_step_def bindE_Inr_iff thenE_Inr_iff on_node_def on_process_def node_export_all_def
      node_db_op_def file_create_def file_write_def split: prod.splits option.splits)

lemma startup_exports:
  assumes run: "registry_startup X E p = (Inr a, p')"
    and env: "sx_from_env X deserialize_message_queue_type replication_role_of_name = Inr config"
    and db: "sx_sled_new X (su_db_name config) = Inr s"
    and "su_export_dir config = Some dir" and "su_import_file config = None"
  shows "\<exists>ex content. export_all E s = (Inr ex, node_db (sv_node a)) \<and> sx_export_to_string X ex = Inr content \<and>
    pr_files p' (export_path X dir) = Some content"
proof -
  from run obtain rc fetcher n n' q q'
    where n: "startup_registry X E config rc = Inr (fetcher, n)"
      and step: "export_step X E dir (n, q) = (Inr (), (n', q'))"
      and a: "sv_node a = n'" "pr_files p' = pr_files q'"
    using env assms(4,5)
    by (auto simp: registry_startup_def startup_config_of_def startup_steps_def if_some_def thenE_Inr_iff
        context_of_def map_err_def bindR_Inr_iff Let_def split: sum.splits prod.splits)
  from n db have "node_db n = s" by (auto simp: startup_registry_db split: sum.splits)
  with export_step_Inr [OF step] a show ?thesis by simp
qed

text \<open>A start that imports a readable export does so into the database it opened.\<close>

lemma startup_imports:
  fixes X :: "('s, 'v) startup_env" and E :: "('s, 'v, 'r) crates"
  assumes env: "sx_from_env X deserialize_message_queue_type replication_role_of_name = Inr config"
    and rc: "replication_config_of config = Inr rc"
    and db: "sx_sled_new X (su_db_name config) = Inr s" and fetcher: "metadata_fetcher_of X rc = Inr fetcher"
    and dir: "su_export_dir config = None" "su_import_file config = Some path"
    and content: "sx_open_error X path = None" "pr_files p path = Some content"
      "sx_export_from_reader X content = Inr ex"
  shows "(case registry_startup X E p of
      (Inr a, _) \<Rightarrow> import_all E ex s = (Inr (), node_db (sv_node a))
    | (Inl e, _) \<Rightarrow> \<exists>err t. import_all E ex s = (Inl err, t) \<and> e = NodeRefused ''failed to import database'' err)"
proof (cases "import_all E ex s")
  case (Pair r t)
  have "startup_config_of X = (Inr (config, rc) :: (('v, 'r) startup_failure, _) result)"
    by (simp add: startup_config_of_def context_of_def env rc map_err_def)
  moreover have "startup_registry X E config rc = Inr (fetcher, snd (registry_new s (su_replication_role config)))"
    by (simp add: startup_registry_db db fetcher)
  moreover have "import_step X E path (n, p\<lparr>pr_metrics := m\<rparr>) =
      (map_err (NodeRefused ''failed to import database'') r, (n\<lparr>node_db := t\<rparr>, p\<lparr>pr_metrics := m\<rparr>))"
    if "node_db n = s" for n :: "('s, 'v) node" and m
    using that content Pair
    by (cases r) (simp_all add: import_step_def on_process_def on_node_def file_open_def bindE_def map_err_def ok_or_def
        node_import_all_def node_db_op_def)
  ultimately show ?thesis
    using Pair by (cases r) (simp_all add: registry_startup_def startup_steps_def if_some_def dir thenE_def bindE_def
        map_err_def Let_def)
qed

section \<open>Properties\<close>

text \<open>
  The startup probe of a node answers 200 exactly when everything before serving has succeeded:
  the configuration, the connection to the message queue, the database, and the export and import
  that were asked for. A start that fails leaves every probe as it was. The probe does not wait for
  the server, so it still answers 200 when the port cannot be bound. No file but the export is
  written.
\<close>

theorem started_means_loaded:
  assumes "\<not> startup_status (pr_flags p)" and "registry_startup X E p = (r, p')"
  shows "handle_requests (pr_flags p') ''GET'' ''/status/startup'' = (case r of Inl _ \<Rightarrow> 500 | Inr _ \<Rightarrow> 200) \<and>
    (\<forall>verb path. (isl r \<or> path \<noteq> ''/status/startup'') \<longrightarrow>
       handle_requests (pr_flags p') verb path = handle_requests (pr_flags p) verb path) \<and>
    (\<forall>path. (\<forall>dir. path \<noteq> export_path X dir) \<longrightarrow> pr_files p' path = pr_files p path) \<and>
    (\<forall>a e. r = Inr a \<and> sx_server X (sv_port a) = Inl e \<longrightarrow> registry_main X E p = (Inl (NodeFailed [e]), p'))"
proof -
  note u = startup_untouched [OF assms(2)]
  have "handle_requests (pr_flags p') ''GET'' ''/status/startup'' = (case r of Inl _ \<Rightarrow> 500 | Inr _ \<Rightarrow> 200)"
    using u assms(1) by (cases r) (simp_all add: probe_answers mark_as_started_def)
  moreover have "\<forall>verb path. (isl r \<or> path \<noteq> ''/status/startup'') \<longrightarrow>
      handle_requests (pr_flags p') verb path = handle_requests (pr_flags p) verb path"
    using u by (simp add: handle_requests_frame(2))
  moreover have "\<forall>a e. r = Inr a \<and> sx_server X (sv_port a) = Inl e \<longrightarrow>
      registry_main X E p = (Inl (NodeFailed [e]), p')"
    using assms(2) by (simp add: registry_main_def map_err_def)
  ultimately show ?thesis using u by simp
qed

text \<open>
  C12. A node can be moved by its export file. If one node has started with an export directory on a
  database that was reached by any calls, then a second node that finds that file as its import
  file, and opens an empty database, starts with the same schemas, definitions, views, versions and
  view edges under the same identifiers; the only way its start can fail is a failure of its
  database. Neither node replicates as a slave while it starts, and the JSON text of an export reads
  back as that export.
\<close>

theorem node_started_from_export:
  assumes "registry_env E \<alpha>" and "reachable E \<alpha> s" and "within_limit (\<alpha> s)"
    and "registry_startup X E p = (Inr a, p')"
    and "sx_from_env X deserialize_message_queue_type replication_role_of_name = Inr c"
    and "sx_sled_new X (su_db_name c) = Inr s" and "su_replication_role c \<noteq> Slave"
    and "su_export_dir c = Some dir" and "su_import_file c = None"
    and "sx_from_env Y deserialize_message_queue_type replication_role_of_name = Inr d"
    and "replication_config_of d = Inr rc" and "metadata_fetcher_of Y rc = Inr fetcher"
    and "sx_sled_new Y (su_db_name d) = Inr u" and "\<alpha> u = empty_graph" and "su_replication_role d \<noteq> Slave"
    and "su_export_dir d = None" and "su_import_file d = Some (export_path X dir)"
    and "sx_open_error Y (export_path X dir) = None" and "pr_files q = pr_files p'"
    and "\<forall>ex content. sx_export_to_string X ex = Inr content \<longrightarrow> sx_export_from_reader Y content = Inr ex"
  shows "\<alpha> (node_db (sv_node a)) = \<alpha> s \<and>
    (case registry_startup Y E q of
       (Inr b, _) \<Rightarrow> same_content E (\<alpha> (node_db (sv_node a))) (\<alpha> (node_db (sv_node b)))
     | (Inl e, _) \<Rightarrow> \<exists>err. e = NodeRefused ''failed to import database'' err \<and> db_failure err)"
proof -
  obtain ex content where ex: "export_all E s = (Inr ex, node_db (sv_node a))"
    and content: "sx_export_to_string X ex = Inr content" "pr_files p' (export_path X dir) = Some content"
    using startup_exports [OF assms(4-6,8,9)] by blast
  have g: "content_of E (\<alpha> s) ex" "registry_ok E (\<alpha> s)" "\<alpha> (node_db (sv_node a)) = \<alpha> s"
    using export_has_content [OF assms(1-3) ex] by auto
  have "pr_files q (export_path X dir) = Some content" "sx_export_from_reader Y content = Inr ex"
    using content assms(19,20) by simp_all
  note started = startup_imports [OF assms(10,11,13,12,16-18) this, of E]
  note loaded = import_gives_content [OF assms(1) g(1,2) assms(14)]
  show ?thesis
  proof (cases "registry_startup Y E q")
    case (Pair r q')
    show ?thesis
    proof (cases r)
      case (Inl e)
      with started Pair obtain err t where "import_all E ex u = (Inl err, t)"
        "e = NodeRefused ''failed to import database'' err" by auto
      with loaded Pair Inl g(3) show ?thesis by simp
    next
      case (Inr b)
      with started Pair have "import_all E ex u = (Inr (), node_db (sv_node b))" by simp
      with loaded Pair Inr g(3) show ?thesis by simp
    qed
  qed
qed

section \<open>Sample starts\<close>

text \<open>
  Two nodes over AMQP: the first exports the sample registry, the second imports it. The codec
  knows one export.
\<close>

definition demo_config :: "string option \<Rightarrow> string option \<Rightarrow> startup_config" where
  "demo_config dir import_from =
     \<lparr>su_input_port = 50101, su_db_name = ''schema-registry'', su_replication_role = Master,
      su_replication_queue = AmqpType, su_kafka_brokers = None, su_kafka_group_id = None,
      su_amqp_connection_string = Some ''amqp://rabbit'', su_amqp_consumer_tag = Some ''sr'',
      su_replication_topic_or_queue = ''cdl.sr'', su_replication_topic_or_exchange = ''cdl.sr'',
      su_pod_name = None, su_export_dir = dir, su_import_file = import_from, su_metrics_port = None\<rparr>"

definition demo_startup :: "triple db_export \<Rightarrow> startup_config \<Rightarrow> mem \<Rightarrow> (mem, triple) startup_env" where
  "demo_startup known config database =
     \<lparr>sx_from_env = (\<lambda>_ _. Inr config), sx_kafka_create = (\<lambda>_. Inl ''no broker''),
      sx_amqp_connect = (\<lambda>_. Inr (Inr (\<lambda>_. Inr ()))), sx_sled_new = (\<lambda>_. Inr database),
      sx_now = ''2021-01-20T10:00:00Z'', sx_join = (\<lambda>dir name. dir @ ''/'' @ name),
      sx_create_error = (\<lambda>_. None), sx_write_error = (\<lambda>_. None), sx_open_error = (\<lambda>_. None),
      sx_export_to_string = (\<lambda>ex. if ex = known then Inr ''{}'' else Inl ''unknown export''),
      sx_export_from_reader = (\<lambda>content. if content = ''{}'' then Inr known else Inl ''expected value''),
      sx_server = (\<lambda>_. Inl ''address in use'')\<rparr>"

definition demo_process :: process where
  "demo_process = \<lparr>pr_flags = initial_flags, pr_metrics = None, pr_files = Map.empty\<rparr>"

definition demo_export_file :: string where
  "demo_export_file = ''/data/export_2021-01-20T10:00:00Z.json''"

lemma demo_config_fields [simp]:
  "su_export_dir (demo_config d i) = d" "su_import_file (demo_config d i) = i"
  "su_replication_role (demo_config d i) = Master"
  by (simp_all add: demo_config_def)

lemma demo_startup_fields [simp]:
  "sx_from_env (demo_startup ex c m) f g = Inr c" "sx_sled_new (demo_startup ex c m) name = Inr m"
  "sx_export_to_string (demo_startup ex c m) ex' = (if ex' = ex then Inr ''{}'' else Inl ''unknown export'')"
  "sx_export_from_reader (demo_startup ex c m) ''{}'' = Inr ex"
  "sx_create_error (demo_startup ex c m) path = None" "sx_write_error (demo_startup ex c m) path = None"
  "sx_open_error (demo_startup ex c m) path = None" "sx_server (demo_startup ex c m) port = Inl ''address in use''"
  by (simp_all add: demo_startup_def)

definition demo_rc :: replication_config where
  "demo_rc =
     \<lparr>rq_queue = AmqpReplication \<lparr>ra_connection_string = ''amqp://rabbit'', ra_consumer_tag = ''sr''\<rparr>,
      rq_topic_or_queue = ''cdl.sr'', rq_topic_or_exchange = ''cdl.sr''\<rparr>"

lemma demo_replication_config: "replication_config_of (demo_config dir import_from) = Inr demo_rc"
  by (simp add: replication_config_of_def demo_config_def demo_rc_def ok_or_def)

lemma demo_fetcher:
  "metadata_fetcher_of (demo_startup known config database) demo_rc = Inr (AmqpMetadata (Inr (\<lambda>_. Inr ())))"
  by (simp add: metadata_fetcher_of_def metadata_fetcher_new_amqp_def demo_rc_def demo_startup_def context_of_def map_err_def)

lemma demo_exporter:
  assumes "export_all demo_env demo_s3 = (Inr ex, s')"
  shows "\<exists>a p'. registry_startup (demo_startup ex (demo_config (Some ''/data'') None) demo_s3) demo_env demo_process =
    (Inr a, p')"
  by (simp add: registry_startup_def startup_config_of_def startup_registry_db startup_steps_def if_some_def
      thenE_def bindE_def context_of_def map_err_def demo_replication_config demo_fetcher export_step_def
      on_node_def on_process_def node_export_all_def node_db_op_def assms file_create_def file_write_def Let_def)

theorem started_means_loaded_witness:
  "\<exists>ex a p'. registry_startup (demo_startup ex (demo_config (Some ''/data'') None) demo_s3) demo_env demo_process =
      (Inr a, p') \<and> handle_requests (pr_flags p') ''GET'' ''/status/startup'' = 200 \<and>
      fst (registry_main (demo_startup ex (demo_config (Some ''/data'') None) demo_s3) demo_env demo_process) =
        Inl (NodeFailed [''address in use''])"
proof -
  from demo_export obtain ex s' where "export_all demo_env demo_s3 = (Inr ex, s')" by blast
  from demo_exporter [OF this] obtain a p'
    where run: "registry_startup (demo_startup ex (demo_config (Some ''/data'') None) demo_s3) demo_env demo_process = (Inr a, p')"
    by blast
  have "\<not> startup_status (pr_flags demo_process)" by (simp add: demo_process_def initial_flags_def)
  from started_means_loaded [OF this run] run show ?thesis
    by (intro exI [of _ ex] exI [of _ a] exI [of _ p']) simp
qed

theorem node_started_from_export_witness:
  "\<exists>ex a p'. registry_startup (demo_startup ex (demo_config (Some ''/data'') None) demo_s3) demo_env demo_process =
      (Inr a, p') \<and>
    (case registry_startup (demo_startup ex (demo_config None (Some demo_export_file)) mem_empty) demo_env p' of
       (Inr b, _) \<Rightarrow> same_content demo_env (mem_graph (node_db (sv_node a))) (mem_graph (node_db (sv_node b)))
     | (Inl e, _) \<Rightarrow> \<exists>err. e = NodeRefused ''failed to import database'' err \<and> db_failure err)"
proof -
  from demo_export obtain ex s' where "export_all demo_env demo_s3 = (Inr ex, s')" by blast
  from demo_exporter [OF this] obtain a p'
    where run: "registry_startup (demo_startup ex (demo_config (Some ''/data'') None) demo_s3) demo_env demo_process = (Inr a, p')"
    by blast
  let ?X = "demo_startup ex (demo_config (Some ''/data'') None) demo_s3"
  let ?Y = "demo_startup ex (demo_config None (Some demo_export_file)) mem_empty"
  have path: "export_path ?X ''/data'' = demo_export_file"
    by (simp add: export_path_def demo_startup_def demo_export_file_def)
  have "mem_graph (node_db (sv_node a)) = mem_graph demo_s3 \<and>
    (case registry_startup ?Y demo_env p' of
       (Inr b, _) \<Rightarrow> same_content demo_env (mem_graph (node_db (sv_node a))) (mem_graph (node_db (sv_node b)))
     | (Inl e, _) \<Rightarrow> \<exists>err. e = NodeRefused ''failed to import database'' err \<and> db_failure err)"
    by (rule node_started_from_export [OF demo_registry demo_reachable(4) demo_limits(4) run,
        where dir = "''/data''" and c = "demo_config (Some ''/data'') None" and
          d = "demo_config None (Some demo_export_file)" and u = mem_empty and rc = demo_rc and fetcher = "AmqpMetadata (Inr (\<lambda>_. Inr ()))"])
      (simp_all add: path mem_graph_empty demo_replication_config demo_fetcher)
  then show ?thesis
    by (intro exI [of _ ex] exI [of _ a] exI [of _ p'] conjI [OF run]) (rule conjunct2)
qed

end
