(* ===== verification/Rpc_Client.thy ===== *)
theory Rpc_Client
  imports Messaging
begin

text \<open>
  The hand-written part of the crate rpc: the client error with its texts, and the client
  functions of \<open>query_service.rs\<close> and \<open>query_service_ts.rs\<close>. The clients that tonic generates are
  parameters: connecting to an address, and the calls on a connection. A transport error and a
  status are represented by their texts.
\<close>

section \<open>Errors\<close>

datatype rpc_client_error = ConnectionFailed string string | QueryError string string

fun rpc_client_error_to_string :: "rpc_client_error \<Rightarrow> string" where
  "rpc_client_error_to_string (ConnectionFailed service source) =
     ''Failed to connect to '' @ service @ '': '' @ source"
| "rpc_client_error_to_string (QueryError service source) =
     ''Error returned from '' @ service @ '': '' @ source"

definition rpc_registry_error :: "string \<Rightarrow> rpc_client_error" where
  "rpc_registry_error error = QueryError ''schema registry'' error"

text \<open>The four \<open>connect\<close> functions differ in the name of the service.\<close>

definition rpc_connect ::
  "string \<Rightarrow> (string \<Rightarrow> ('w, string, 'k) op) \<Rightarrow> string \<Rightarrow> ('w, rpc_client_error, 'k) op" where
  "rpc_connect service client_connect addr = map_errE (ConnectionFailed service) (client_connect addr)"

text \<open>Connect, make one call, and name the service in the error of either.\<close>

definition rpc_call ::
  "string \<Rightarrow> (string \<Rightarrow> ('w, string, 'k) op) \<Rightarrow> string \<Rightarrow> ('k \<Rightarrow> ('w, string, 'a) op) \<Rightarrow>
   ('w, rpc_client_error, 'a) op" where
  "rpc_call service client_connect addr call =
     bindE (rpc_connect service client_connect addr) (\<lambda>conn. map_errE (QueryError service) (call conn))"

section \<open>The query services\<close>

type_synonym byte_map = "(string \<times> string) list"

record ('w, 'k) query_client =
  qc_connect :: "string \<Rightarrow> ('w, string, 'k) op"
  qc_query_multiple :: "'k \<Rightarrow> string list \<Rightarrow> ('w, string, byte_map) op"
  qc_query_by_schema :: "'k \<Rightarrow> string \<Rightarrow> ('w, string, byte_map) op"
  qc_query_raw :: "'k \<Rightarrow> string \<Rightarrow> ('w, string, string) op"

definition qs_query_multiple ::
  "('w, 'k) query_client \<Rightarrow> string list \<Rightarrow> string \<Rightarrow> ('w, rpc_client_error, byte_map) op" where
  "qs_query_multiple Q object_ids addr =
     rpc_call ''query service'' (qc_connect Q) addr (\<lambda>conn. qc_query_multiple Q conn object_ids)"

definition qs_query_by_schema ::
  "('w, 'k) query_client \<Rightarrow> string \<Rightarrow> string \<Rightarrow> ('w, rpc_client_error, byte_map) op" where
  "qs_query_by_schema Q schema_id addr =
     rpc_call ''query service'' (qc_connect Q) addr (\<lambda>conn. qc_query_by_schema Q conn schema_id)"

definition qs_query_raw ::
  "('w, 'k) query_client \<Rightarrow> string \<Rightarrow> string \<Rightarrow> ('w, rpc_client_error, string) op" where
  "qs_query_raw Q raw_statement addr =
     rpc_call ''query service'' (qc_connect Q) addr (\<lambda>conn. qc_query_raw Q conn raw_statement)"

record ts_range =
  tr_schema_id :: string
  tr_object_id :: string
  tr_start :: string
  tr_end :: string
  tr_step :: string

record ('w, 'k) ts_query_client =
  ts_connect :: "string \<Rightarrow> ('w, string, 'k) op"
  ts_query_by_range :: "'k \<Rightarrow> ts_range \<Rightarrow> ('w, string, string) op"
  ts_query_by_schema :: "'k \<Rightarrow> string \<Rightarrow> ('w, string, string) op"
  ts_query_raw :: "'k \<Rightarrow> string \<Rightarrow> ('w, string, string) op"

definition qts_query_by_range ::
  "('w, 'k) ts_query_client \<Rightarrow> string \<Rightarrow> string \<Rightarrow> string \<Rightarrow> string \<Rightarrow> string \<Rightarrow> string \<Rightarrow>
   ('w, rpc_client_error, string) op" where
  "qts_query_by_range T schema_id object_id start stop step addr =
     rpc_call ''timeseries query service'' (ts_connect T) addr (\<lambda>conn. ts_query_by_range T conn
       \<lparr>tr_schema_id = schema_id, tr_object_id = object_id, tr_start = start, tr_end = stop, tr_step = step\<rparr>)"

definition qts_query_by_schema ::
  "('w, 'k) ts_query_client \<Rightarrow> string \<Rightarrow> string \<Rightarrow> ('w, rpc_client_error, string) op" where
  "qts_query_by_schema T schema_id addr =
     rpc_call ''timeseries query service'' (ts_connect T) addr (\<lambda>conn. ts_query_by_schema T conn schema_id)"

definition qts_query_raw ::
  "('w, 'k) ts_query_client \<Rightarrow> string \<Rightarrow> string \<Rightarrow> ('w, rpc_client_error, string) op" where
  "qts_query_raw T raw_statement addr =
     rpc_call ''timeseries query service'' (ts_connect T) addr (\<lambda>conn. ts_query_raw T conn raw_statement)"

section \<open>The registry as the routers call it\<close>

record ('w, 'k) registry_client =
  rc_connect :: "string \<Rightarrow> ('w, string, 'k) op"
  rc_get_schema_topic :: "'k \<Rightarrow> string \<Rightarrow> ('w, string, string) op"
  rc_get_schema_query_address :: "'k \<Rightarrow> string \<Rightarrow> ('w, string, string) op"
  rc_get_schema_type :: "'k \<Rightarrow> string \<Rightarrow> ('w, string, i32) op"

definition connect_registry ::
  "('w, 'k) registry_client \<Rightarrow> string \<Rightarrow> ('w, rpc_client_error, 'k) op" where
  "connect_registry C addr = rpc_connect ''schema registry'' (rc_connect C) addr"

end
