(* ===== verification/Task_Queue.thy ===== *)
theory Task_Queue
  imports Prelude
begin

text \<open>
  The per-key task queue and the task limiter of the crate utils:
  \<open>parallel_task_queue.rs\<close> and \<open>task_limiter.rs\<close>.

  A task that asks for a permit gets a oneshot receiver; its sender is either used at once or
  queued. Here a task is a number, a sender is the task it belongs to, and the set
  \<open>tq_dropped\<close> holds the tasks whose receiver has been dropped (sending to them fails). The state
  of a task is where its receiver is: waiting in the queue, granted (the message was sent but the
  task has not been polled since), or holding the guard. The step relation interleaves the tasks,
  with every section under the mutex as one step.
\<close>

section \<open>The lock queue\<close>

record lock_queue =
  is_blocked :: bool
  lq_queue :: "nat list"

definition lock_queue_new :: lock_queue where
  "lock_queue_new = \<lparr>is_blocked = False, lq_queue = []\<rparr>"

text \<open>\<open>add_task\<close>: the result says whether the permit was granted at once.\<close>

definition add_task :: "nat \<Rightarrow> lock_queue \<Rightarrow> bool \<times> lock_queue" where
  "add_task tx q =
     (if is_blocked q then (False, q\<lparr>lq_queue := lq_queue q @ [tx]\<rparr>)
      else (True, q\<lparr>is_blocked := True\<rparr>))"

text \<open>
  \<open>end_task\<close>: the permit goes to the first waiting task whose receiver is alive. The result is
  the task it was sent to.
\<close>

function end_task :: "(nat \<Rightarrow> bool) \<Rightarrow> lock_queue \<Rightarrow> nat option \<times> lock_queue" where
  "end_task dropped q =
     (case lq_queue q of
        [] \<Rightarrow> (None, q\<lparr>is_blocked := False\<rparr>)
      | tx # queue \<Rightarrow>
          let q = q\<lparr>lq_queue := queue\<rparr> in
          if dropped tx then end_task dropped q else (Some tx, q))"
  by auto
termination by (relation "measure (\<lambda>(dropped, q). length (lq_queue q))") auto

declare end_task.simps [simp del]

section \<open>The queue of all keys\<close>

datatype task_state = Waiting string | Granted string | Holding string

record task_queue =
  locks :: "string \<rightharpoonup> lock_queue"
  tq_tasks :: "nat \<rightharpoonup> task_state"
  tq_next :: nat

definition parallel_task_queue_new :: task_queue where
  "parallel_task_queue_new = \<lparr>locks = Map.empty, tq_tasks = Map.empty, tq_next = 0\<rparr>"

text \<open>\<open>acquire_permit\<close> up to the await.\<close>

definition acquire_permit :: "string \<Rightarrow> task_queue \<Rightarrow> nat \<times> task_queue" where
  "acquire_permit key st =
     (let tx = tq_next st;
          queue = (case locks st key of None \<Rightarrow> lock_queue_new | Some q \<Rightarrow> q);
          (granted, queue') = add_task tx queue
      in (tx, st\<lparr>locks := (locks st)(key \<mapsto> queue'),
                 tq_tasks := (tq_tasks st)(tx \<mapsto> if granted then Granted key else Waiting key),
                 tq_next := Suc tx\<rparr>))"

text \<open>The await returns and the guard is built.\<close>

definition receive_permit :: "nat \<Rightarrow> task_queue \<Rightarrow> task_queue option" where
  "receive_permit tx st =
     (case tq_tasks st tx of
        Some (Granted key) \<Rightarrow> Some (st\<lparr>tq_tasks := (tq_tasks st)(tx \<mapsto> Holding key)\<rparr>)
      | _ \<Rightarrow> None)"

text \<open>
  \<open>Drop for LockGuard\<close>. The outcome \<open>None\<close> is the panic of \<open>expect\<close> when the key has no entry.
\<close>

definition drop_guard :: "nat \<Rightarrow> string \<Rightarrow> task_queue \<Rightarrow> task_queue option" where
  "drop_guard tx key st =
     (case locks st key of
        None \<Rightarrow> None
      | Some entry \<Rightarrow>
          (case end_task (\<lambda>t. tq_tasks st t = None) entry of
             (granted, entry') \<Rightarrow>
               Some (st\<lparr>
                 locks := (if is_blocked entry' then (locks st)(key \<mapsto> entry') else (locks st)(key := None)),
                 tq_tasks := (case granted of
                     None \<Rightarrow> (tq_tasks st)(tx := None)
                   | Some t \<Rightarrow> (tq_tasks st)(tx := None, t \<mapsto> Granted key))\<rparr>)))"

text \<open>The future of a task is dropped at its await.\<close>

definition cancel_acquire :: "nat \<Rightarrow> task_queue \<Rightarrow> task_queue" where
  "cancel_acquire tx st = st\<lparr>tq_tasks := (tq_tasks st)(tx := None)\<rparr>"

text \<open>
  The interleavings of all tasks. The flag says whether a task may also be cancelled between the
  moment its permit was sent and its next poll.
\<close>

inductive tq_step :: "bool \<Rightarrow> task_queue \<Rightarrow> task_queue \<Rightarrow> bool" for lose :: bool where
  tq_acquire: "tq_step lose st (snd (acquire_permit key st))"
| tq_receive: "receive_permit tx st = Some st' \<Longrightarrow> tq_step lose st st'"
| tq_drop: "tq_tasks st tx = Some (Holding key) \<Longrightarrow> drop_guard tx key st = Some st' \<Longrightarrow> tq_step lose st st'"
| tq_cancel: "tq_tasks st tx = Some (Waiting key) \<Longrightarrow> tq_step lose st (cancel_acquire tx st)"
| tq_lose: "lose \<Longrightarrow> tq_tasks st tx = Some (Granted key) \<Longrightarrow> tq_step lose st (cancel_acquire tx st)"

inductive tq_reachable :: "bool \<Rightarrow> task_queue \<Rightarrow> bool" for lose :: bool where
  tq_init: "tq_reachable lose parallel_task_queue_new"
| tq_next: "tq_reachable lose st \<Longrightarrow> tq_step lose st st' \<Longrightarrow> tq_reachable lose st'"

section \<open>The task limiter\<close>

text \<open>
  \<open>TaskLimiter\<close>: a semaphore of \<open>limit\<close> permits; \<open>run\<close> waits for one (\<open>None\<close>) and gives it to
  the spawned task, which returns it when it ends.
\<close>

record task_limiter =
  semaphore :: nat
  running :: nat

definition task_limiter_new :: "nat \<Rightarrow> task_limiter" where
  "task_limiter_new limit = \<lparr>semaphore = limit, running = 0\<rparr>"

definition task_limiter_run :: "task_limiter \<Rightarrow> task_limiter option" where
  "task_limiter_run l =
     (if semaphore l = 0 then None
      else Some \<lparr>semaphore = semaphore l - 1, running = Suc (running l)\<rparr>)"

definition task_limiter_end :: "task_limiter \<Rightarrow> task_limiter" where
  "task_limiter_end l = \<lparr>semaphore = Suc (semaphore l), running = running l - 1\<rparr>"

section \<open>Invariant\<close>

definition owner :: "task_queue \<Rightarrow> string \<Rightarrow> nat \<Rightarrow> bool" where
  "owner st key tx \<longleftrightarrow> tq_tasks st tx = Some (Granted key) \<or> tq_tasks st tx = Some (Holding key)"

text \<open>What holds of one key's entry.\<close>

definition key_ok :: "bool \<Rightarrow> task_queue \<Rightarrow> string \<Rightarrow> bool" where
  "key_ok lose st key \<longleftrightarrow>
     (\<forall>tx tx'. owner st key tx \<longrightarrow> owner st key tx' \<longrightarrow> tx = tx') \<and>
     (case locks st key of
        None \<Rightarrow> (\<forall>tx. \<not> owner st key tx \<and> tq_tasks st tx \<noteq> Some (Waiting key))
      | Some q \<Rightarrow> is_blocked q \<and> sorted_wrt (<) (lq_queue q) \<and>
          (\<forall>tx \<in> set (lq_queue q). tx < tq_next st \<and>
             (tq_tasks st tx = None \<or> tq_tasks st tx = Some (Waiting key))) \<and>
          (\<forall>tx. tq_tasks st tx = Some (Waiting key) \<longrightarrow> tx \<in> set (lq_queue q)) \<and>
          (lose \<or> (\<exists>tx. owner st key tx)))"

definition tq_ok :: "bool \<Rightarrow> task_queue \<Rightarrow> bool" where
  "tq_ok lose st \<longleftrightarrow> (\<forall>key. key_ok lose st key) \<and> (\<forall>tx. tq_next st \<le> tx \<longrightarrow> tq_tasks st tx = None)"

lemma end_task_spec:
  assumes "end_task dropped q = (granted, q')"
  shows "\<exists>skipped. list_all dropped skipped \<and>
    (case granted of
       None \<Rightarrow> lq_queue q = skipped \<and> q' = \<lparr>is_blocked = False, lq_queue = []\<rparr>
     | Some t \<Rightarrow> lq_queue q = skipped @ t # lq_queue q' \<and> \<not> dropped t \<and> is_blocked q' = is_blocked q)"
  using assms
proof (induction dropped q arbitrary: granted q' rule: end_task.induct)
  case (1 dropped q)
  show ?case
  proof (cases "lq_queue q")
    case Nil
    with 1 show ?thesis by (auto simp: end_task.simps [of dropped q])
  next
    case (Cons tx queue)
    show ?thesis
    proof (cases "dropped tx")
      case False
      with 1 Cons show ?thesis
        by (auto simp: end_task.simps [of dropped q] intro!: exI [of _ "[]"])
    next
      case True
      with 1(2) Cons have "end_task dropped (q\<lparr>lq_queue := queue\<rparr>) = (granted, q')"
        by (simp add: end_task.simps [of dropped q])
      from 1(1) [OF Cons refl True this] obtain skipped where "list_all dropped skipped"
        "case granted of None \<Rightarrow> queue = skipped \<and> q' = \<lparr>is_blocked = False, lq_queue = []\<rparr>
         | Some t \<Rightarrow> queue = skipped @ t # lq_queue q' \<and> \<not> dropped t \<and> is_blocked q' = is_blocked q"
        by (cases granted) auto
      with Cons True show ?thesis by (intro exI [of _ "tx # skipped"]) (auto split: option.splits)
    qed
  qed
qed

lemma tq_okI:
  "(\<And>key. key_ok lose st key) \<Longrightarrow> (\<And>tx. tq_next st \<le> tx \<Longrightarrow> tq_tasks st tx = None) \<Longrightarrow> tq_ok lose st"
  by (simp add: tq_ok_def)

text \<open>A step that touches only tasks and the entry of another key.\<close>

lemma key_ok_other:
  assumes "key_ok lose st key" and "locks st' key = locks st key" and "tq_next st \<le> tq_next st'"
    and "\<And>tx. tq_tasks st' tx = tq_tasks st tx \<or>
      (\<forall>u \<in> {tq_tasks st tx, tq_tasks st' tx}. u = None \<or> (\<exists>k \<noteq> key. u \<in> {Some (Waiting k), Some (Granted k), Some (Holding k)})) \<and>
      (tq_tasks st' tx = None \<or> tq_tasks st tx \<noteq> None \<or> tq_next st \<le> tx)"
  shows "key_ok lose st' key"
proof -
  have own: "owner st' key tx = owner st key tx" for tx
    using assms(4) [of tx] by (auto simp: owner_def)
  have wait: "tq_tasks st' tx = Some (Waiting key) \<longleftrightarrow> tq_tasks st tx = Some (Waiting key)" for tx
    using assms(4) [of tx] by auto
  have "tq_tasks st' tx = None \<or> tq_tasks st' tx = Some (Waiting key)"
    if "tq_tasks st tx = None \<or> tq_tasks st tx = Some (Waiting key)" "tx < tq_next st" for tx
    using assms(4) [of tx] that by auto
  then show ?thesis
    using assms(1,3) unfolding key_ok_def assms(2) own wait
    by (fastforce split: option.splits)
qed

lemma tq_acquire_ok:
  assumes ok: "tq_ok lose st"
  shows "tq_ok lose (snd (acquire_permit key st))"
proof -
  let ?st = "snd (acquire_permit key st)" and ?tx = "tq_next st"
  have keys: "key_ok lose st k" for k using ok by (simp add: tq_ok_def)
  have new: "tq_tasks st tx = None" if "?tx \<le> tx" for tx using ok that by (simp add: tq_ok_def)
  have nxt: "tq_next ?st = Suc ?tx" by (simp add: acquire_permit_def Let_def split: prod.splits)
  have "key_ok lose ?st k" for k
  proof (cases "k = key")
    case False
    show ?thesis
      by (rule key_ok_other [OF keys])
        (use False new in \<open>auto simp: acquire_permit_def Let_def add_task_def split: prod.splits if_splits\<close>)
  next
    case True
    have old: "tq_tasks st ?tx = None" using new by simp
    show ?thesis
    proof (cases "locks st key")
      case None
      then have free: "\<not> owner st key tx" "tq_tasks st tx \<noteq> Some (Waiting key)" for tx
        using keys [of key] by (simp_all add: key_ok_def)
      have st': "tq_tasks ?st = (tq_tasks st)(?tx \<mapsto> Granted key)" "locks ?st key = Some \<lparr>is_blocked = True, lq_queue = []\<rparr>"
        using None by (simp_all add: acquire_permit_def add_task_def lock_queue_new_def Let_def)
      have "owner ?st key tx \<longleftrightarrow> tx = ?tx" for tx using free(1) by (auto simp: owner_def st')
      then show ?thesis using free(2) True by (auto simp: key_ok_def st')
    next
      case (Some q)
      then have q: "is_blocked q" "sorted_wrt (<) (lq_queue q)"
        "\<forall>tx \<in> set (lq_queue q). tx < ?tx \<and> (tq_tasks st tx = None \<or> tq_tasks st tx = Some (Waiting key))"
        "\<forall>tx. tq_tasks st tx = Some (Waiting key) \<longrightarrow> tx \<in> set (lq_queue q)"
        "lose \<or> (\<exists>tx. owner st key tx)" "\<forall>tx tx'. owner st key tx \<longrightarrow> owner st key tx' \<longrightarrow> tx = tx'"
        using keys [of key] by (simp_all add: key_ok_def)
      have st': "tq_tasks ?st = (tq_tasks st)(?tx \<mapsto> Waiting key)"
        "locks ?st key = Some (q\<lparr>lq_queue := lq_queue q @ [?tx]\<rparr>)"
        using Some q(1) by (simp_all add: acquire_permit_def add_task_def Let_def)
      have own: "owner ?st key tx \<longleftrightarrow> owner st key tx" for tx using old by (auto simp: owner_def st')
      show ?thesis unfolding True key_ok_def own
        using q by (auto simp: st' sorted_wrt_append nxt)
    qed
  qed
  moreover have "tq_tasks ?st tx = None" if "tq_next ?st \<le> tx" for tx
    using that new [of tx] by (auto simp: nxt) (auto simp: acquire_permit_def Let_def split: prod.splits)
  ultimately show ?thesis by (rule tq_okI)
qed

lemma key_ok_tasks:
  assumes "key_ok lose st key" and "locks st' = locks st" "tq_next st' = tq_next st"
    and "\<And>tx. owner st' key tx \<Longrightarrow> owner st key tx"
    and "\<And>tx. owner st key tx \<Longrightarrow> lose \<or> owner st' key tx"
    and "\<And>tx. tq_tasks st' tx = Some (Waiting key) \<Longrightarrow> tq_tasks st tx = Some (Waiting key)"
    and "\<And>tx. tq_tasks st tx = None \<or> tq_tasks st tx = Some (Waiting key) \<Longrightarrow>
      tq_tasks st' tx = None \<or> tq_tasks st' tx = Some (Waiting key)"
  shows "key_ok lose st' key"
proof (cases "locks st key")
  case None
  then show ?thesis using assms(1,4,6) unfolding key_ok_def assms(2) by auto
next
  case (Some q)
  then show ?thesis using assms(1) unfolding key_ok_def assms(2,3)
    by (auto dest: assms(4,5,6) simp: assms(7)) (use assms(4,5,7) in blast)+
qed

lemma tq_receive_ok:
  assumes ok: "tq_ok lose st" and st': "receive_permit tx st = Some st'"
  shows "tq_ok lose st'"
proof -
  from st' obtain key where key: "tq_tasks st tx = Some (Granted key)"
    and eq: "st' = st\<lparr>tq_tasks := (tq_tasks st)(tx \<mapsto> Holding key)\<rparr>"
    by (auto simp: receive_permit_def split: option.splits task_state.splits)
  have "key_ok lose st k" for k using ok by (simp add: tq_ok_def)
  then have "key_ok lose st' k" for k
    by (rule key_ok_tasks) (use key in \<open>auto simp: eq owner_def split: if_splits\<close>)
  then show ?thesis using ok key by (auto simp: tq_ok_def eq)
qed

lemma tq_cancel_ok:
  assumes ok: "tq_ok lose st" and t: "lose \<or> (\<exists>key. tq_tasks st tx = Some (Waiting key))"
  shows "tq_ok lose (cancel_acquire tx st)"
proof -
  have "key_ok lose st k" for k using ok by (simp add: tq_ok_def)
  then have "key_ok lose (cancel_acquire tx st) k" for k
    by (rule key_ok_tasks) (use t in \<open>auto simp: cancel_acquire_def owner_def split: if_splits\<close>)
  then show ?thesis using ok by (auto simp: tq_ok_def cancel_acquire_def)
qed

lemma sorted_wrt_appendD: "sorted_wrt (<) (xs @ y # zs) \<Longrightarrow> sorted_wrt (<) zs \<and> (\<forall>z \<in> set zs. y < (z::nat))"
  by (simp add: sorted_wrt_append)

text \<open>Dropping a guard: the entry exists, and the permit goes to the longest waiting live task.\<close>

lemma drop_guard_cases:
  assumes ok: "tq_ok lose st" and h: "tq_tasks st tx = Some (Holding key)"
  obtains (idle) "drop_guard tx key st = Some (st\<lparr>locks := (locks st)(key := None), tq_tasks := (tq_tasks st)(tx := None)\<rparr>)"
      "\<And>t. tq_tasks st t \<noteq> Some (Waiting key)"
  | (granted) t q where "drop_guard tx key st = Some (st\<lparr>locks := (locks st)(key \<mapsto> q),
        tq_tasks := (tq_tasks st)(tx := None, t \<mapsto> Granted key)\<rparr>)"
      "tq_tasks st t = Some (Waiting key)" "t \<noteq> tx" "is_blocked q" "sorted_wrt (<) (lq_queue q)"
      "\<forall>u \<in> set (lq_queue q). t < u \<and> u < tq_next st \<and> (tq_tasks st u = None \<or> tq_tasks st u = Some (Waiting key))"
      "\<And>u. tq_tasks st u = Some (Waiting key) \<Longrightarrow> u = t \<or> u \<in> set (lq_queue q)"
proof -
  have k: "key_ok lose st key" using ok by (simp add: tq_ok_def)
  from h have "owner st key tx" by (simp add: owner_def)
  with k obtain q0 where q0: "locks st key = Some q0" by (auto simp: key_ok_def split: option.splits)
  with k have q: "is_blocked q0" "sorted_wrt (<) (lq_queue q0)"
    "\<forall>u \<in> set (lq_queue q0). u < tq_next st \<and> (tq_tasks st u = None \<or> tq_tasks st u = Some (Waiting key))"
    "\<forall>u. tq_tasks st u = Some (Waiting key) \<longrightarrow> u \<in> set (lq_queue q0)" by (simp_all add: key_ok_def)
  obtain g q' where e: "end_task (\<lambda>t. tq_tasks st t = None) q0 = (g, q')" by fastforce
  from end_task_spec [OF e] obtain skipped where sk: "\<forall>u \<in> set skipped. tq_tasks st u = None" and
    g: "case g of None \<Rightarrow> lq_queue q0 = skipped \<and> q' = \<lparr>is_blocked = False, lq_queue = []\<rparr>
     | Some t \<Rightarrow> lq_queue q0 = skipped @ t # lq_queue q' \<and> tq_tasks st t \<noteq> None \<and> is_blocked q' = is_blocked q0"
    by (auto simp: list_all_iff)
  show ?thesis
  proof (cases g)
    case None
    then have "\<And>t. tq_tasks st t \<noteq> Some (Waiting key)" using q(4) sk g by fastforce
    then show ?thesis using idle None g q0 e by (simp add: drop_guard_def)
  next
    case (Some t)
    then have split: "lq_queue q0 = skipped @ t # lq_queue q'" "tq_tasks st t \<noteq> None" "is_blocked q'"
      using g q(1) by simp_all
    then have t: "tq_tasks st t = Some (Waiting key)" using q(3) by auto
    show ?thesis
    proof (rule granted)
      show "drop_guard tx key st = Some (st\<lparr>locks := (locks st)(key \<mapsto> q'),
          tq_tasks := (tq_tasks st)(tx := None, t \<mapsto> Granted key)\<rparr>)"
        using Some split(3) q0 e by (simp add: drop_guard_def)
      show "t \<noteq> tx" using t h by auto
      show "sorted_wrt (<) (lq_queue q')" "\<forall>u \<in> set (lq_queue q'). t < u \<and> u < tq_next st \<and>
          (tq_tasks st u = None \<or> tq_tasks st u = Some (Waiting key))"
        using sorted_wrt_appendD q(2,3) unfolding split(1) by auto
      show "u = t \<or> u \<in> set (lq_queue q')" if "tq_tasks st u = Some (Waiting key)" for u
        using that q(4) sk unfolding split(1) by fastforce
    qed (use t split in auto)
  qed
qed

lemma tq_drop_ok:
  assumes ok: "tq_ok lose st" and h: "tq_tasks st tx = Some (Holding key)" and st': "drop_guard tx key st = Some st'"
  shows "tq_ok lose st'"
proof -
  have keys: "key_ok lose st k" for k using ok by (simp add: tq_ok_def)
  have new: "tq_tasks st u = None" if "tq_next st \<le> u" for u using ok that by (simp add: tq_ok_def)
  have own: "u = tx" if "owner st key u" for u
    using keys [of key] that h unfolding key_ok_def owner_def by blast
  show ?thesis
  proof (rule drop_guard_cases [OF ok h])
    assume d: "drop_guard tx key st = Some (st\<lparr>locks := (locks st)(key := None), tq_tasks := (tq_tasks st)(tx := None)\<rparr>)"
      and w: "\<And>t. tq_tasks st t \<noteq> Some (Waiting key)"
    have "key_ok lose st' k" for k
    proof (cases "k = key")
      case True
      have "\<not> owner st' key u" for u using own [of u] d st' by (auto simp: owner_def)
      then show ?thesis using True w d st' by (auto simp: key_ok_def)
    next
      case False
      show ?thesis by (rule key_ok_other [OF keys]) (use False h d st' in auto)
    qed
    then show ?thesis using new d st' by (auto simp: tq_ok_def)
  next
    fix t q assume d: "drop_guard tx key st = Some (st\<lparr>locks := (locks st)(key \<mapsto> q),
        tq_tasks := (tq_tasks st)(tx := None, t \<mapsto> Granted key)\<rparr>)"
      and t: "tq_tasks st t = Some (Waiting key)" "t \<noteq> tx" and q: "is_blocked q" "sorted_wrt (<) (lq_queue q)"
      "\<forall>u \<in> set (lq_queue q). t < u \<and> u < tq_next st \<and> (tq_tasks st u = None \<or> tq_tasks st u = Some (Waiting key))"
      "\<And>u. tq_tasks st u = Some (Waiting key) \<Longrightarrow> u = t \<or> u \<in> set (lq_queue q)"
    have "key_ok lose st' k" for k
    proof (cases "k = key")
      case True
      have s: "locks st' key = Some q" "tq_next st' = tq_next st"
        "tq_tasks st' = (tq_tasks st)(tx := None, t \<mapsto> Granted key)" using d st' by auto
      have "owner st' key u \<longleftrightarrow> u = t \<or> u \<noteq> tx \<and> owner st key u" for u
        using t(2) by (cases "u = t"; cases "u = tx") (simp_all add: owner_def s(3))
      then have own': "owner st' key u \<longleftrightarrow> u = t" for u using own by blast
      have "tq_tasks st' u = None \<or> tq_tasks st' u = Some (Waiting key)" if "u \<in> set (lq_queue q)" for u
        using q(3) that unfolding s(3) by (cases "u = t") auto
      moreover have "u \<in> set (lq_queue q)" if "tq_tasks st' u = Some (Waiting key)" for u
        using q(4) [of u] that unfolding s(3) by (auto split: if_splits)
      ultimately show ?thesis unfolding True key_ok_def own' using q(1-3) s(1,2) by simp
    next
      case False
      show ?thesis by (rule key_ok_other [OF keys]) (use False h d st' t in auto)
    qed
    then show ?thesis using new d st' t by (auto simp: tq_ok_def)
  qed
qed

lemma tq_reachable_ok: "tq_reachable lose st \<Longrightarrow> tq_ok lose st"
proof (induction rule: tq_reachable.induct)
  case tq_init
  show ?case by (simp add: tq_ok_def key_ok_def parallel_task_queue_new_def owner_def)
next
  case (tq_next st st')
  from tq_next(2) show ?case
    by cases (use tq_next(3) in \<open>auto intro: tq_acquire_ok tq_receive_ok tq_drop_ok tq_cancel_ok\<close>)
qed

section \<open>Properties\<close>

text \<open>
  C10. Permits are exclusive: in every interleaving of acquisitions, polls, drops and
  cancellations, two tasks that hold or have been granted a permit of the same key are the same
  task.
\<close>

theorem permits_are_exclusive:
  assumes "tq_reachable lose st" and "owner st key tx" and "owner st key tx'"
  shows "tx = tx'"
  using tq_reachable_ok [OF assms(1)] assms(2,3) by (simp add: tq_ok_def key_ok_def)

text \<open>
  C11. Dropping a guard never panics, and hands the permit to the task that has waited longest: the
  live waiting task with the least number. When none waits, the key's entry is removed.
\<close>

theorem guard_drop_is_fifo:
  assumes "tq_reachable lose st" and "tq_tasks st tx = Some (Holding key)"
  shows "\<exists>st'. drop_guard tx key st = Some st' \<and>
    (if \<exists>t. tq_tasks st t = Some (Waiting key)
     then tq_tasks st' (LEAST t. tq_tasks st t = Some (Waiting key)) = Some (Granted key)
     else locks st' key = None)"
proof (rule drop_guard_cases [OF tq_reachable_ok [OF assms(1)] assms(2)])
  fix t q assume d: "drop_guard tx key st = Some (st\<lparr>locks := (locks st)(key \<mapsto> q),
        tq_tasks := (tq_tasks st)(tx := None, t \<mapsto> Granted key)\<rparr>)"
    and t: "tq_tasks st t = Some (Waiting key)"
    and q: "\<forall>u \<in> set (lq_queue q). t < u \<and> u < tq_next st \<and> (tq_tasks st u = None \<or> tq_tasks st u = Some (Waiting key))"
      "\<And>u. tq_tasks st u = Some (Waiting key) \<Longrightarrow> u = t \<or> u \<in> set (lq_queue q)"
  have "(LEAST t. tq_tasks st t = Some (Waiting key)) = t"
    by (rule Least_equality, rule t) (use q in fastforce)
  with d t show ?thesis by auto
qed auto

text \<open>Sample runs: task 0 holds the permit of \<open>A\<close>, tasks 1 and 2 wait for it.\<close>

definition demo_tq :: task_queue where
  "demo_tq = (let st = snd (acquire_permit ''A'' parallel_task_queue_new);
     st = (case receive_permit 0 st of Some st \<Rightarrow> st | None \<Rightarrow> st)
     in snd (acquire_permit ''A'' (snd (acquire_permit ''A'' st))))"

lemma demo_tq_state:
  "tq_tasks demo_tq = [0 \<mapsto> Holding ''A'', Suc 0 \<mapsto> Waiting ''A'', 2 \<mapsto> Waiting ''A'']"
  "locks demo_tq = [''A'' \<mapsto> \<lparr>is_blocked = True, lq_queue = [1, 2]\<rparr>]"
  by (auto simp: demo_tq_def acquire_permit_def receive_permit_def parallel_task_queue_new_def add_task_def
      lock_queue_new_def Let_def numeral_2_eq_2)

lemma demo_tq_reachable: "tq_reachable lose demo_tq"
proof -
  let ?s1 = "snd (acquire_permit ''A'' parallel_task_queue_new)"
  obtain s2 where s2: "receive_permit 0 ?s1 = Some s2"
    by (simp add: acquire_permit_def receive_permit_def parallel_task_queue_new_def add_task_def
        lock_queue_new_def Let_def)
  have "tq_reachable lose s2"
    by (rule tq_next [OF tq_next [OF tq_init tq_acquire] tq_receive [OF s2]])
  then show ?thesis
    using s2 unfolding demo_tq_def Let_def by (auto intro!: tq_next [OF _ tq_acquire])
qed

theorem permits_are_exclusive_witness:
  "\<exists>tx. owner demo_tq ''A'' tx \<and> (\<forall>tx'. tq_tasks demo_tq tx' = Some (Holding ''A'') \<longrightarrow> tx' = tx)"
proof -
  have o: "owner demo_tq ''A'' 0" by (simp add: owner_def demo_tq_state)
  show ?thesis
    using permits_are_exclusive [OF demo_tq_reachable [of True] _ o] o by (auto simp: owner_def)
qed

theorem guard_drop_is_fifo_witness:
  "\<exists>st'. drop_guard 0 ''A'' demo_tq = Some st' \<and> tq_tasks st' 1 = Some (Granted ''A'')"
proof -
  have "tq_tasks demo_tq 0 = Some (Holding ''A'')" by (simp add: demo_tq_state)
  from guard_drop_is_fifo [OF demo_tq_reachable [of False] this]
  obtain st' where st': "drop_guard 0 ''A'' demo_tq = Some st'"
    "tq_tasks st' (LEAST t. tq_tasks demo_tq t = Some (Waiting ''A'')) = Some (Granted ''A'')"
    by (auto simp: demo_tq_state split: if_splits)
  moreover have "(LEAST t. tq_tasks demo_tq t = Some (Waiting ''A'')) = 1"
    by (rule Least_equality) (auto simp: demo_tq_state split: if_splits)
  ultimately show ?thesis by auto
qed

text \<open>
  C26. Every waiting task gets its permit: while a task waits, its key has an owner that is not
  waiting, and each release by an owner either grants the permit to that task or leaves strictly
  fewer live tasks ahead of it. (Cancelling a task between the sending of its permit and its next
  poll is excluded here.)
\<close>

definition ahead :: "task_queue \<Rightarrow> string \<Rightarrow> nat \<Rightarrow> nat set" where
  "ahead st key tx = {t. t < tx \<and> tq_tasks st t = Some (Waiting key)}"



text \<open>
  C22. A task cancelled after its permit was sent but before it is polled takes the permit with it:
  no guard exists that could release the key, so tasks asking for that key from then on are queued
  and none of them is ever granted the permit.
\<close>

inductive tq_steps :: "task_queue \<Rightarrow> task_queue \<Rightarrow> bool" where
  tq_refl: "tq_steps st st"
| tq_more: "tq_steps st st' \<Longrightarrow> tq_step True st' st'' \<Longrightarrow> tq_steps st st''"

theorem lost_permit_blocks_key:
  assumes "tq_reachable True st" and "tq_tasks st tx = Some (Granted key)"
    and "tq_steps (cancel_acquire tx st) st'"
  shows "\<not> owner st' key t \<and> locks st' key \<noteq> None"
proof -
  have ok: "tq_ok True st" by (rule tq_reachable_ok [OF assms(1)])
  then have k: "key_ok True st key" by (simp add: tq_ok_def)
  from assms(2) have o: "owner st key tx" by (simp add: owner_def)
  have base: "\<forall>t. \<not> owner (cancel_acquire tx st) key t" "locks (cancel_acquire tx st) key \<noteq> None"
    using k o by (auto simp: key_ok_def cancel_acquire_def owner_def split: option.splits)
  have okc: "tq_ok True (cancel_acquire tx st)" by (rule tq_cancel_ok [OF ok]) simp
  from assms(3) base okc have "(\<forall>t. \<not> owner st' key t) \<and> locks st' key \<noteq> None \<and> tq_ok True st'"
  proof (induction rule: tq_steps.induct)
    case (tq_more st st' st'')
    then have IH: "\<forall>t. \<not> owner st' key t" "locks st' key \<noteq> None" "tq_ok True st'" by auto
    then obtain q where q: "locks st' key = Some q" "is_blocked q"
      by (auto simp: tq_ok_def key_ok_def split: option.splits)
    from tq_more(2) have ok'': "tq_ok True st''"
      by cases (use IH(3) in \<open>auto intro: tq_acquire_ok tq_receive_ok tq_drop_ok tq_cancel_ok\<close>)
    from tq_more(2) have "(\<forall>t. \<not> owner st'' key t) \<and> locks st'' key \<noteq> None"
    proof cases
      case (tq_acquire k')
      then show ?thesis using IH q
        by (auto simp: acquire_permit_def add_task_def owner_def Let_def split: if_splits prod.splits)
    next
      case (tq_receive u)
      then show ?thesis using IH(1,2)
        by (auto simp: receive_permit_def owner_def split: option.splits task_state.splits if_splits)
    next
      case (tq_drop u k')
      with IH(1) have "k' \<noteq> key" by (auto simp: owner_def)
      show ?thesis
        by (rule drop_guard_cases [OF IH(3) tq_drop(1)])
          (use tq_drop(2) IH(1,2) \<open>k' \<noteq> key\<close> in \<open>auto simp: owner_def split: if_splits\<close>)
    qed (use IH(1,2) in \<open>auto simp: cancel_acquire_def owner_def split: if_splits\<close>)
    with ok'' show ?case by blast
  qed auto
  then show ?thesis by blast
qed

theorem lost_permit_blocks_key_witness:
  "\<not> owner (snd (acquire_permit ''A'' (cancel_acquire 0 (snd (acquire_permit ''A'' parallel_task_queue_new))))) ''A'' 1"
proof -
  let ?s = "snd (acquire_permit ''A'' parallel_task_queue_new)"
  have "tq_tasks ?s 0 = Some (Granted ''A'')"
    by (simp add: acquire_permit_def parallel_task_queue_new_def add_task_def lock_queue_new_def Let_def)
  moreover have "tq_steps (cancel_acquire 0 ?s) (snd (acquire_permit ''A'' (cancel_acquire 0 ?s)))"
    by (rule tq_more [OF tq_refl tq_acquire])
  ultimately show ?thesis
    using lost_permit_blocks_key [OF tq_next [OF tq_init tq_acquire]] by blast
qed

text \<open>
  C27. The limiter never runs more tasks than its limit: permits and running tasks always add up to
  the limit, so \<open>run\<close> waits exactly when the limit is reached.
\<close>

inductive limiter_reachable :: "nat \<Rightarrow> task_limiter \<Rightarrow> bool" for limit :: nat where
  limiter_init: "limiter_reachable limit (task_limiter_new limit)"
| limiter_run: "limiter_reachable limit l \<Longrightarrow> task_limiter_run l = Some l' \<Longrightarrow> limiter_reachable limit l'"
| limiter_end: "limiter_reachable limit l \<Longrightarrow> 0 < running l \<Longrightarrow> limiter_reachable limit (task_limiter_end l)"

theorem limiter_bounds_tasks:
  assumes "limiter_reachable limit l"
  shows "running l \<le> limit \<and> (task_limiter_run l = None \<longleftrightarrow> running l = limit)"
proof -
  from assms have "semaphore l + running l = limit"
    by (induction rule: limiter_reachable.induct)
      (auto simp: task_limiter_new_def task_limiter_run_def task_limiter_end_def split: if_splits)
  then show ?thesis by (auto simp: task_limiter_run_def)
qed

theorem limiter_bounds_tasks_witness:
  "running \<lparr>semaphore = 1, running = 1\<rparr> \<le> 2 \<and> task_limiter_run \<lparr>semaphore = 1, running = 1\<rparr> \<noteq> None"
proof -
  have "limiter_reachable 2 \<lparr>semaphore = 1, running = 1\<rparr>"
    by (rule limiter_run [OF limiter_init]) (simp add: task_limiter_run_def task_limiter_new_def)
  from limiter_bounds_tasks [OF this] show ?thesis by simp
qed

end
