(* ===== verification/Command_Service.thy ===== *)
theory Command_Service
  imports Rpc_Client Task_Queue
begin

text \<open>
  The command service: \<open>communication\<close> (the router and its configuration), \<open>report\<close>, \<open>input\<close>
  (gRPC and message queue) and \<open>args.rs\<close>. The output plugins are in \<open>Output_Plugins\<close>. The state
  \<open>'w\<close> is the outside world: the broker, the storage.
\<close>

section \<open>Resolutions\<close>

datatype resolution =
    StorageLayerFailure string
  | CommandServiceFailure
  | UserFailure string string
  | Success

definition backticks :: "string \<Rightarrow> string" where
  "backticks s = [CHR 0x60] @ s @ [CHR 0x60]"

fun resolution_to_string :: "resolution \<Rightarrow> string" where
  "resolution_to_string (StorageLayerFailure description) =
     ''failed on database layer, '' @ backticks description"
| "resolution_to_string CommandServiceFailure = ''internal server error''"
| "resolution_to_string (UserFailure description context) = description @ ''; caused by '' @ context"
| "resolution_to_string Success = ''success''"

text \<open>The trait \<open>OutputPlugin\<close>.\<close>

record 'w output_plugin =
  op_handle :: "borrowed_insert_message \<Rightarrow> 'w \<Rightarrow> resolution \<times> 'w"
  op_name :: string

section \<open>Configuration\<close>

datatype mq_input_config =
    KafkaInput string string "string list" "string list" nat
  | AmqpInput string string "string list" "string list" nat

datatype communication_config = MessageQueueComm mq_input_config | GRpcComm "16 word"

fun mq_task_limit :: "mq_input_config \<Rightarrow> nat" where
  "mq_task_limit (KafkaInput brokers group_id ordered unordered limit) = limit"
| "mq_task_limit (AmqpInput consumer_tag connection_string ordered unordered limit) = limit"

text \<open>\<open>exclusive b\<close>: the client's default consume options with the flag set to \<open>b\<close>.\<close>

fun ordered_configs :: "(bool \<Rightarrow> 'o) \<Rightarrow> mq_input_config \<Rightarrow> 'o consumer_config list" where
  "ordered_configs exclusive (KafkaInput brokers group_id ordered unordered limit) =
     map (\<lambda>topic. KafkaConsumerConfig group_id brokers topic) ordered"
| "ordered_configs exclusive (AmqpInput consumer_tag connection_string ordered unordered limit) =
     map (\<lambda>queue_name. AmqpConsumerConfig connection_string consumer_tag queue_name (Some (exclusive True))) ordered"

fun unordered_configs :: "(bool \<Rightarrow> 'o) \<Rightarrow> mq_input_config \<Rightarrow> 'o consumer_config list" where
  "unordered_configs exclusive (KafkaInput brokers group_id ordered unordered limit) =
     map (\<lambda>topic. KafkaConsumerConfig group_id brokers topic) unordered"
| "unordered_configs exclusive (AmqpInput consumer_tag connection_string ordered unordered limit) =
     map (\<lambda>queue_name. AmqpConsumerConfig connection_string consumer_tag queue_name (Some (exclusive False))) unordered"

subsection \<open>Arguments\<close>

datatype communication_method = MethodAmqp | MethodKafka | MethodGRpc

record communication_args =
  ca_method :: communication_method
  ca_kafka_brokers :: "string option"
  ca_kafka_group_id :: "string option"
  ca_amqp_connection_string :: "string option"
  ca_amqp_consumer_tag :: "string option"
  ca_grpc_port :: "16 word option"
  ca_ordered :: "string option"
  ca_unordered :: "string option"
  ca_task_limit :: nat

definition queue_names :: "string option \<Rightarrow> string list" where
  "queue_names names =
     filter (\<lambda>queue_name. queue_name \<noteq> []) (split_on CHR '','' (case names of None \<Rightarrow> [] | Some s \<Rightarrow> s))"

text \<open>The error is the name of the missing variable.\<close>

definition missing_config_to_string :: "string \<Rightarrow> string" where
  "missing_config_to_string v = ''Missing config variable '' @ backticks v"

definition communication_config :: "communication_args \<Rightarrow> (string, communication_config) result" where
  "communication_config args =
     (case ca_method args of
        MethodGRpc \<Rightarrow> bindR (ok_or ''GRPC port'' (ca_grpc_port args)) (\<lambda>grpc_port. Inr (GRpcComm grpc_port))
      | _ \<Rightarrow>
          (let ordered = queue_names (ca_ordered args); unordered = queue_names (ca_unordered args);
               task_limit = ca_task_limit args in
           if ordered = [] \<and> unordered = [] then Inl ''Queue names''
           else bindR
             (case ca_method args of
                MethodAmqp \<Rightarrow>
                  bindR (ok_or ''AMQP consumer tag'' (ca_amqp_consumer_tag args)) (\<lambda>consumer_tag.
                  bindR (ok_or ''AMQP connection string'' (ca_amqp_connection_string args)) (\<lambda>connection_string.
                  Inr (AmqpInput consumer_tag connection_string ordered unordered task_limit)))
              | _ \<Rightarrow>
                  bindR (ok_or ''Kafka brokers'' (ca_kafka_brokers args)) (\<lambda>brokers.
                  bindR (ok_or ''Kafka group'' (ca_kafka_group_id args)) (\<lambda>group_id.
                  Inr (KafkaInput brokers group_id ordered unordered task_limit))))
             (\<lambda>config. Inr (MessageQueueComm config))))"

section \<open>Reports\<close>

datatype report_error =
    ProducerCreation mq_error
  | FailedToReport mq_error
  | FailedToProduceErrorMessage string

fun report_error_to_string :: "report_error \<Rightarrow> string" where
  "report_error_to_string (ProducerCreation e) = ''Failed to create producer '' @ backticks (mq_error_to_string e)"
| "report_error_to_string (FailedToReport e) = ''Failed to deliver report '' @ backticks (mq_error_to_string e)"
| "report_error_to_string (FailedToProduceErrorMessage e) = ''Failed to produce error message '' @ backticks e"

record 'w full_report_sender_base =
  fr_producer :: "'w common_publisher"
  fr_topic :: string
  fr_output_plugin :: string

datatype 'w report_sender = FullReports "'w full_report_sender_base" | ReportsDisabled

record report_body =
  rb_application :: string
  rb_output_plugin :: string
  rb_description :: string
  rb_object_id :: uuid
  rb_payload :: json

text \<open>
  \<open>FullReportSenderBase::new\<close>, with the two publisher constructors as parameters; the outcome
  \<open>None\<close> is \<open>unreachable!()\<close>, which panics.
\<close>

definition full_report_sender_new ::
  "(string \<Rightarrow> (mq_error, 'w common_publisher) result) \<Rightarrow> (string \<Rightarrow> (mq_error, 'w common_publisher) result) \<Rightarrow>
   communication_config \<Rightarrow> string \<Rightarrow> string \<Rightarrow> (report_error, 'w full_report_sender_base) result option" where
  "full_report_sender_new new_kafka new_amqp config topic_or_exchange plugin_name =
     map_option (\<lambda>publisher.
         bindR (map_err ProducerCreation publisher) (\<lambda>producer.
         Inr \<lparr>fr_producer = producer, fr_topic = topic_or_exchange, fr_output_plugin = plugin_name\<rparr>))
       (case config of
          MessageQueueComm (KafkaInput brokers _ _ _ _) \<Rightarrow> Some (new_kafka brokers)
        | MessageQueueComm (AmqpInput _ connection_string _ _ _) \<Rightarrow> Some (new_amqp connection_string)
        | GRpcComm _ \<Rightarrow> None)"

text \<open>
  A reporter: the full one holds an owned copy of the message; copying panics (\<open>None\<close>) when the
  raw data cannot be parsed into a JSON value.
\<close>

datatype 'w reporter = FullReporter "'w full_report_sender_base" owned_insert_message | NoReporter

definition with_message_body ::
  "(string \<Rightarrow> (string, json) result) \<Rightarrow> 'w report_sender \<Rightarrow> borrowed_insert_message \<Rightarrow> 'w reporter option" where
  "with_message_body from_str sender msg =
     (case sender of
        FullReports config \<Rightarrow> map_option (FullReporter config) (to_owned from_str msg)
      | ReportsDisabled \<Rightarrow> Some NoReporter)"

fun report :: "(report_body \<Rightarrow> (string, string) result) \<Rightarrow> 'w reporter \<Rightarrow> string \<Rightarrow> ('w, report_error, unit) op" where
  "report to_vec (FullReporter config msg) description =
     (let payload = \<lparr>rb_application = ''Command Service'', rb_output_plugin = fr_output_plugin config,
           rb_description = description, rb_object_id = om_object_id msg, rb_payload = om_data msg\<rparr> in
      bindE (liftR (map_err FailedToProduceErrorMessage (to_vec payload))) (\<lambda>bytes.
      map_errE FailedToReport
        (publish_message (fr_producer config) (fr_topic config) ''command_service.status'' bytes)))"
| "report to_vec NoReporter description = returnE ()"

section \<open>The router\<close>

record 'w message_router =
  mr_report_sender :: "'w report_sender"
  mr_output_plugin :: "'w output_plugin"
  mr_from_str :: "string \<Rightarrow> (string, json) result"
  mr_to_vec :: "report_body \<Rightarrow> (string, string) result"

datatype 'e cs_stop = CsError 'e | CsPanicked | CsAckDied ack_failure

definition router_handle ::
  "'w message_router \<Rightarrow> borrowed_insert_message \<Rightarrow> ('w, report_error cs_stop, unit) op" where
  "router_handle router msg =
     (\<lambda>w. case with_message_body (mr_from_str router) (mr_report_sender router) msg of
        None \<Rightarrow> (Inl CsPanicked, w)
      | Some reporter \<Rightarrow>
          (case op_handle (mr_output_plugin router) msg w of
             (status, w) \<Rightarrow>
               map_errE CsError (report (mr_to_vec router) reporter (resolution_to_string status)) w))"

section \<open>Inputs\<close>

datatype input_error =
    PayloadDeserializationFailed string
  | ConsumerCreationFailed mq_error
  | FailedToAcknowledge mq_error
  | ServerCreationFailed string
  | NotValidUuid string string
  | MissingPayload mq_error
  | FailedReadingMessage mq_error
  | HandlerError report_error
  | FailedToInitializeReporting report_error

fun input_error_to_string :: "input_error \<Rightarrow> string" where
  "input_error_to_string (PayloadDeserializationFailed e) = ''Message payload deserialization failed: '' @ e"
| "input_error_to_string (ConsumerCreationFailed e) =
     ''Failed to create message queue consumer '' @ backticks (mq_error_to_string e)"
| "input_error_to_string (FailedToAcknowledge e) =
     ''Failed to acknowledge message '' @ backticks (mq_error_to_string e)"
| "input_error_to_string (ServerCreationFailed e) = ''Failed to create GRPC server '' @ backticks e"
| "input_error_to_string (NotValidUuid what e) = ''Message has a non-UUID '' @ what @ '': '' @ e"
| "input_error_to_string (MissingPayload e) =
     ''Message is missing payload '' @ [CHR 0x60] @ mq_error_to_string e"
| "input_error_to_string (FailedReadingMessage e) = ''Failed to read message '' @ backticks (mq_error_to_string e)"
| "input_error_to_string (HandlerError e) =
     ''Failed to communicate with handler '' @ backticks (report_error_to_string e)"
| "input_error_to_string (FailedToInitializeReporting e) = ''Failed to initialize reporting module''"

text \<open>The question mark operator on the router's result.\<close>

fun handler_stop :: "report_error cs_stop \<Rightarrow> input_error cs_stop" where
  "handler_stop (CsError e) = CsError (HandlerError e)"
| "handler_stop CsPanicked = CsPanicked"
| "handler_stop (CsAckDied f) = CsAckDied f"

subsection \<open>gRPC\<close>

record insert_request =
  ir_object_id :: string
  ir_schema_id :: string
  ir_timestamp :: i64
  ir_data :: string

definition grpc_build_message ::
  "(string \<Rightarrow> (string, uuid) result) \<Rightarrow> (string \<Rightarrow> (string, string) result) \<Rightarrow> insert_request \<Rightarrow>
   (input_error, borrowed_insert_message) result" where
  "grpc_build_message uuid_parse raw_from_slice message =
     bindR (map_err (NotValidUuid ''Object ID'') (uuid_parse (ir_object_id message))) (\<lambda>oid.
     bindR (map_err (NotValidUuid ''Schema ID'') (uuid_parse (ir_schema_id message))) (\<lambda>sid.
     bindR (map_err PayloadDeserializationFailed (raw_from_slice (ir_data message))) (\<lambda>raw.
     Inr \<lparr>bi_object_id = oid, bi_schema_id = sid, bi_timestamp = ir_timestamp message, bi_data = raw\<rparr>)))"

definition grpc_handle_message ::
  "(string \<Rightarrow> (string, uuid) result) \<Rightarrow> (string \<Rightarrow> (string, string) result) \<Rightarrow> 'w message_router \<Rightarrow>
   insert_request \<Rightarrow> ('w, input_error cs_stop, unit) op" where
  "grpc_handle_message uuid_parse raw_from_slice router message =
     bindE (liftR (map_err CsError (grpc_build_message uuid_parse raw_from_slice message))) (\<lambda>generic_message.
     map_errE handler_stop (router_handle router generic_message))"

text \<open>The reply of \<open>insert\<close>: nothing, or the text of an internal error. A panic loses the reply.\<close>

definition grpc_insert ::
  "(string \<Rightarrow> (string, uuid) result) \<Rightarrow> (string \<Rightarrow> (string, string) result) \<Rightarrow> 'w message_router \<Rightarrow>
   insert_request \<Rightarrow> ('w, string cs_stop, unit) op" where
  "grpc_insert uuid_parse raw_from_slice router message =
     map_errE (\<lambda>e. case e of CsError err \<Rightarrow> CsError (input_error_to_string err)
         | CsPanicked \<Rightarrow> CsPanicked | CsAckDied f \<Rightarrow> CsAckDied f)
       (grpc_handle_message uuid_parse raw_from_slice router message)"

subsection \<open>Message queues\<close>

primrec consumers_new ::
  "('k, 'n, 'h, 'a, 'o) mq_clients \<Rightarrow> 'o consumer_config list \<Rightarrow> (input_error, ('k, 'a) common_consumer list) result" where
  "consumers_new M [] = Inr []"
| "consumers_new M (config # configs) =
     bindR (map_err ConsumerCreationFailed (consumer_new M config)) (\<lambda>consumer.
     bindR (consumers_new M configs) (\<lambda>consumers. Inr (consumer # consumers)))"

record ('k, 'a, 'w) message_queue_input =
  mi_consumer :: "('k, 'a) common_consumer list"
  mi_message_router :: "'w message_router"
  mi_task_limiter :: task_limiter
  mi_task_queue :: task_queue

definition message_queue_input_new ::
  "('k, 'n, 'h, 'a, 'o) mq_clients \<Rightarrow> (bool \<Rightarrow> 'o) \<Rightarrow> mq_input_config \<Rightarrow> 'w message_router \<Rightarrow>
   (input_error, ('k, 'a, 'w) message_queue_input) result" where
  "message_queue_input_new M exclusive config router =
     bindR (consumers_new M (ordered_configs exclusive config)) (\<lambda>ordered.
     bindR (consumers_new M (unordered_configs exclusive config)) (\<lambda>unordered.
     Inr \<lparr>mi_consumer = ordered @ unordered, mi_message_router = router,
         mi_task_limiter = task_limiter_new (mq_task_limit config),
         mi_task_queue = parallel_task_queue_new\<rparr>))"

definition mq_build_message ::
  "(string \<Rightarrow> (string, borrowed_insert_message) result) \<Rightarrow> 'w communication_message \<Rightarrow>
   (input_error, borrowed_insert_message) result" where
  "mq_build_message insert_from_str message =
     bindR (map_err MissingPayload (cm_payload message)) (\<lambda>js.
     map_err PayloadDeserializationFailed (insert_from_str js))"

definition mq_handle_message ::
  "(string \<Rightarrow> (string, borrowed_insert_message) result) \<Rightarrow> 'w message_router \<Rightarrow> 'w communication_message \<Rightarrow>
   ('w, input_error cs_stop, unit) op" where
  "mq_handle_message insert_from_str router message =
     bindE (liftR (map_err CsError (mq_build_message insert_from_str message))) (\<lambda>generic_message.
     thenE (map_errE handler_stop (router_handle router generic_message))
     (map_errE (\<lambda>e. case e of AckRefused err \<Rightarrow> CsError (FailedToAcknowledge err) | AckDied f \<Rightarrow> CsAckDied f)
       (cm_ack message)))"

text \<open>
  What listening does with the items of the merged stream. A task ends; or its panic is caught by
  the runtime and its message stays unacknowledged; or its acknowledgement never returns; or it fails, and then the whole process
  aborts, as it does on an item that could not be read. \<open>lr_running\<close> holds the messages of spawned tasks;
  the permit of the order group is, as in the data router, built but never awaited.
\<close>

datatype listen_status = Listening | ListenAborted

record 'w listen_run =
  lr_incoming :: "(mq_error, 'w communication_message) result list"
  lr_limiter :: task_limiter
  lr_running :: "'w communication_message list"
  lr_world :: 'w
  lr_status :: listen_status

definition task_ended :: "nat \<Rightarrow> 'w \<Rightarrow> 'w listen_run \<Rightarrow> 'w listen_run" where
  "task_ended i w lr =
     lr\<lparr>lr_limiter := task_limiter_end (lr_limiter lr), lr_world := w,
        lr_running := take i (lr_running lr) @ drop (Suc i) (lr_running lr)\<rparr>"

definition run_task ::
  "(string \<Rightarrow> (string, borrowed_insert_message) result) \<Rightarrow> 'w message_router \<Rightarrow> nat \<Rightarrow> 'w listen_run \<Rightarrow> 'w listen_run" where
  "run_task insert_from_str router i lr =
     (case mq_handle_message insert_from_str router (lr_running lr ! i) (lr_world lr) of
        (Inl (CsError err), w) \<Rightarrow> lr\<lparr>lr_world := w, lr_status := ListenAborted\<rparr>
      | (Inl (CsAckDied LoopsForever), w) \<Rightarrow> lr\<lparr>lr_world := w\<rparr>
      | (_, w) \<Rightarrow> task_ended i w lr)"

inductive listen_step ::
  "(string \<Rightarrow> (string, borrowed_insert_message) result) \<Rightarrow> 'w message_router \<Rightarrow> 'w listen_run \<Rightarrow> 'w listen_run \<Rightarrow> bool"
  for insert_from_str router where
  listen_spawn: "lr_status lr = Listening \<Longrightarrow> lr_incoming lr = Inr m # ms \<Longrightarrow>
    task_limiter_run (lr_limiter lr) = Some l \<Longrightarrow>
    listen_step insert_from_str router lr
      (lr\<lparr>lr_incoming := ms, lr_limiter := l, lr_running := lr_running lr @ [m]\<rparr>)"
| listen_error: "lr_status lr = Listening \<Longrightarrow> lr_incoming lr = Inl e # ms \<Longrightarrow>
    listen_step insert_from_str router lr (lr\<lparr>lr_status := ListenAborted\<rparr>)"
| listen_run: "lr_status lr = Listening \<Longrightarrow> i < length (lr_running lr) \<Longrightarrow>
    listen_step insert_from_str router lr (run_task insert_from_str router i lr)"

end
