(* ===== verification/Output_Plugins.thy ===== *)
theory Output_Plugins
  imports Command_Service
begin

text \<open>
  The three output plugins of the command service, \<open>output/psql\<close>, \<open>output/druid\<close> and
  \<open>output/victoria_metrics\<close>, and the contract a plugin should meet: the locale
  \<open>storing_plugin\<close>. The database pool, the Kafka producer and the HTTP client are parameters.
\<close>

section \<open>PostgreSQL\<close>

datatype psql_error =
    FailedToConnect string
  | FailedToParseUrl string
  | InvalidSchemaName string

fun psql_error_to_string :: "psql_error \<Rightarrow> string" where
  "psql_error_to_string (FailedToConnect e) = ''Unable to connect to server via gRPC '' @ backticks e"
| "psql_error_to_string (FailedToParseUrl e) =
     ''Failed to parse url into postgres connection string '' @ backticks e"
| "psql_error_to_string (InvalidSchemaName s) =
     ''Schema '' @ backticks s @ '' has invalid name. It can contain only ascii letters, numbers and underscores''"

record postgres_config =
  pc_username :: string
  pc_password :: string
  pc_host :: string
  pc_port :: "16 word"
  pc_dbname :: string
  pc_schema :: string

text \<open>The parameters of the insert statement, in the order of its placeholders.\<close>

record insert_row =
  row_object_id :: uuid
  row_version :: i64
  row_schema_id :: uuid
  row_payload :: json

record ('w, 'p, 'k) postgres =
  pg_build_pool :: "postgres_config \<Rightarrow> nat \<Rightarrow> nat \<Rightarrow> (string, 'p) result"
  pg_get :: "'p \<Rightarrow> ('w, string, 'k) op"
  pg_query :: "'k \<Rightarrow> string \<Rightarrow> insert_row \<Rightarrow> ('w, string, unit) op"
  pg_from_str :: "string \<Rightarrow> (string, json) result"

record 'p postgres_plugin =
  pp_pool :: 'p
  pp_schema :: string

text \<open>\<open>PostgresOutputPlugin::new\<close>: twenty connections, a timeout of 120 seconds.\<close>

definition postgres_plugin_new :: "('w, 'p, 'k) postgres \<Rightarrow> postgres_config \<Rightarrow> (psql_error, 'p postgres_plugin) result" where
  "postgres_plugin_new P config =
     bindR (map_err FailedToConnect (pg_build_pool P config 20 120)) (\<lambda>pool.
     if \<not> validate_schema (pc_schema config) then Inl (InvalidSchemaName (pc_schema config))
     else Inr \<lparr>pp_pool = pool, pp_schema = pc_schema config\<rparr>)"

definition store_query :: "string \<Rightarrow> string" where
  "store_query schema =
     ''INSERT INTO '' @ schema @ ''.data (object_id, version, schema_id, payload) VALUES ($1, $2, $3, $4)''"

definition postgres_handle ::
  "('w, 'p, 'k) postgres \<Rightarrow> 'p postgres_plugin \<Rightarrow> borrowed_insert_message \<Rightarrow> 'w \<Rightarrow> resolution \<times> 'w" where
  "postgres_handle P plugin msg =
     (\<lambda>w. case pg_get P (pp_pool plugin) w of
        (Inl err, w) \<Rightarrow> (CommandServiceFailure, w)
      | (Inr connection, w) \<Rightarrow>
          (case pg_from_str P (bi_data msg) of
             Inl err \<Rightarrow> (CommandServiceFailure, w)
           | Inr payload \<Rightarrow>
               (case pg_query P connection (store_query (pp_schema plugin))
                   \<lparr>row_object_id = bi_object_id msg, row_version = bi_timestamp msg,
                    row_schema_id = bi_schema_id msg, row_payload = payload\<rparr> w of
                  (Inr _, w) \<Rightarrow> (Success, w)
                | (Inl err, w) \<Rightarrow> (StorageLayerFailure err, w))))"

definition postgres_output :: "('w, 'p, 'k) postgres \<Rightarrow> 'p postgres_plugin \<Rightarrow> 'w output_plugin" where
  "postgres_output P plugin = \<lparr>op_handle = postgres_handle P plugin, op_name = ''PostgreSQL''\<rparr>"

section \<open>Druid\<close>

datatype druid_error =
    SenderError
  | DruidKafkaError string
  | DruidProducerCreation string
  | DruidDataCannotBeParsed string

fun druid_error_to_string :: "druid_error \<Rightarrow> string" where
  "druid_error_to_string SenderError = ''Sender was cancelled''"
| "druid_error_to_string (DruidKafkaError e) = ''Failed sending message to topic '' @ backticks e"
| "druid_error_to_string (DruidProducerCreation e) = ''Failed creating producer '' @ backticks e"
| "druid_error_to_string (DruidDataCannotBeParsed e) = ''Data cannot be parsed '' @ backticks e"

record timeseries_input =
  ti_fields :: json
  ti_ts :: u64

record druid_output =
  do_fields :: json
  do_ts :: u64
  do_object_id :: uuid
  do_schema_id :: uuid

text \<open>A record for the producer: topic, payload, key, timestamp.\<close>

record future_record =
  fu_topic :: string
  fu_payload :: string
  fu_key :: string
  fu_timestamp :: i64

record 'w druid =
  dd_send :: "future_record \<Rightarrow> ('w, string, unit) op"
  dd_inputs_from_str :: "string \<Rightarrow> (string, timeseries_input list) result"
  dd_to_vec :: "druid_output \<Rightarrow> string"
  dd_uuid_to_string :: "uuid \<Rightarrow> string"

definition druid_settings :: "string \<Rightarrow> (string \<times> string) list" where
  "druid_settings brokers = [(''bootstrap.servers'', brokers), (''message.timeout.ms'', ''5000'')]"

definition druid_plugin_new ::
  "((string \<times> string) list \<Rightarrow> (string, 'p) result) \<Rightarrow> string \<Rightarrow> string \<Rightarrow> (druid_error, 'p \<times> string) result" where
  "druid_plugin_new create brokers topic =
     bindR (map_err DruidProducerCreation (create (druid_settings brokers))) (\<lambda>producer. Inr (producer, topic))"

definition deserialize_payloads ::
  "'w druid \<Rightarrow> borrowed_insert_message \<Rightarrow> (resolution, string list) result" where
  "deserialize_payloads D msg =
     (case dd_inputs_from_str D (bi_data msg) of
        Inr values \<Rightarrow> Inr (map (\<lambda>payload. dd_to_vec D
          \<lparr>do_fields = ti_fields payload, do_ts = ti_ts payload, do_object_id = bi_object_id msg,
           do_schema_id = bi_schema_id msg\<rparr>) values)
      | Inl err \<Rightarrow> Inl (UserFailure err (bi_data msg)))"

text \<open>The results of the sends are collected, and the collection is dropped.\<close>

primrec send_records :: "'w druid \<Rightarrow> future_record list \<Rightarrow> 'w \<Rightarrow> (resolution, resolution) result list \<times> 'w" where
  "send_records D [] w = ([], w)"
| "send_records D (r # rs) w =
     (case dd_send D r w of (sent, w) \<Rightarrow>
        (case send_records D rs w of (outcomes, w) \<Rightarrow>
           ((case sent of Inl err \<Rightarrow> Inl (StorageLayerFailure err) | Inr _ \<Rightarrow> Inr Success) # outcomes, w)))"

definition druid_handle ::
  "'w druid \<Rightarrow> string \<Rightarrow> borrowed_insert_message \<Rightarrow> 'w \<Rightarrow> resolution \<times> 'w" where
  "druid_handle D topic msg =
     (\<lambda>w. case deserialize_payloads D msg of
        Inl err \<Rightarrow> (err, w)
      | Inr payloads \<Rightarrow>
          (let messages = map (\<lambda>payload. \<lparr>fu_topic = topic, fu_payload = payload,
                 fu_key = dd_uuid_to_string D (bi_object_id msg), fu_timestamp = bi_timestamp msg\<rparr>) payloads;
               (outcomes, w) = send_records D messages w
           in (Success, w)))"

definition druid_output_plugin :: "'w druid \<Rightarrow> string \<Rightarrow> 'w output_plugin" where
  "druid_output_plugin D topic = \<lparr>op_handle = druid_handle D topic, op_name = ''Druid timeseries''\<rparr>"

section \<open>Victoria Metrics\<close>

datatype victoria_error =
    InvalidUrl string
  | DataCannotBeParsed string
  | InvalidFieldType
  | EmptyFields

fun victoria_error_to_string :: "victoria_error \<Rightarrow> string" where
  "victoria_error_to_string (InvalidUrl e) = ''Url was invalid '' @ backticks e"
| "victoria_error_to_string (DataCannotBeParsed e) = ''Data cannot be parsed '' @ backticks e"
| "victoria_error_to_string InvalidFieldType = ''Value cannot be an object, array or null''"
| "victoria_error_to_string EmptyFields = ''Cannot handle empty payload''"

text \<open>The fields of a payload are listed in the order the hash map iterates them.\<close>

record payload =
  pl_fields :: "(string \<times> json) list"
  pl_ts :: u64

record http_response =
  hr_status :: nat
  hr_text :: "(string, string) result"

record ('w, 'u) victoria =
  vm_join :: "'u \<Rightarrow> string \<Rightarrow> (string, 'u) result"
  vm_set_query :: "'u \<Rightarrow> string \<Rightarrow> 'u"
  vm_post :: "'u \<Rightarrow> string \<Rightarrow> ('w, string, http_response) op"
  vm_payloads_from_str :: "string \<Rightarrow> (string, payload list) result"
  vm_value_to_string :: "json \<Rightarrow> string"
  vm_uuid_to_string :: "uuid \<Rightarrow> string"

definition victoria_plugin_new :: "('w, 'u) victoria \<Rightarrow> 'u \<Rightarrow> (victoria_error, 'u) result" where
  "victoria_plugin_new V url = map_err InvalidUrl (vm_join V url ''write'')"

definition get_object_fields :: "('w, 'u) victoria \<Rightarrow> payload \<Rightarrow> (victoria_error, string) result" where
  "get_object_fields V request_object =
     (if pl_fields request_object = [] then Inl EmptyFields
      else bindR (collectR (map (\<lambda>(key, value).
             if is_array value \<or> is_null value \<or> is_object value then Inl InvalidFieldType
             else Inr (key @ ''='' @ vm_value_to_string V value)) (pl_fields request_object))) (\<lambda>fields.
           Inr (join_with '','' fields)))"

definition payload_line :: "('w, 'u) victoria \<Rightarrow> uuid \<Rightarrow> uuid \<Rightarrow> payload \<Rightarrow> (victoria_error, string) result" where
  "payload_line V measurement tag obj =
     bindR (get_object_fields V obj) (\<lambda>fields.
     Inr (vm_uuid_to_string V measurement @ '',objectId='' @ vm_uuid_to_string V tag @ '' '' @ fields @ '' '' @
          nat_to_string (unat (pl_ts obj))))"

definition build_line_protocol ::
  "('w, 'u) victoria \<Rightarrow> uuid \<Rightarrow> uuid \<Rightarrow> string \<Rightarrow> (victoria_error, string) result" where
  "build_line_protocol V measurement tag raw =
     bindR (map_err DataCannotBeParsed (vm_payloads_from_str V raw)) (\<lambda>payloads.
     bindR (collectR (map (payload_line V measurement tag) payloads)) (\<lambda>lines.
     Inr (join_with [CHR 0x0A] lines)))"

definition send_data :: "('w, 'u) victoria \<Rightarrow> 'u \<Rightarrow> string \<Rightarrow> 'w \<Rightarrow> resolution \<times> 'w" where
  "send_data V url line_protocol =
     (\<lambda>w. case vm_post V url line_protocol w of
        (Inr response, w) \<Rightarrow>
          (if hr_status response = 200 \<or> hr_status response = 204 then Success
           else StorageLayerFailure (case hr_text response of
               Inr text \<Rightarrow> text
             | Inl err \<Rightarrow> ''No description. Error '' @ backticks err), w)
      | (Inl err, w) \<Rightarrow> (CommandServiceFailure, w))"

definition victoria_handle ::
  "('w, 'u) victoria \<Rightarrow> 'u \<Rightarrow> borrowed_insert_message \<Rightarrow> 'w \<Rightarrow> resolution \<times> 'w" where
  "victoria_handle V base msg =
     (\<lambda>w. let url = vm_set_query V base (''db='' @ vm_uuid_to_string V (bi_schema_id msg)) in
        case build_line_protocol V (bi_schema_id msg) (bi_object_id msg) (bi_data msg) of
          Inr line_protocol \<Rightarrow> send_data V url line_protocol w
        | Inl err \<Rightarrow> (UserFailure (victoria_error_to_string err) (bi_data msg), w))"

definition victoria_output :: "('w, 'u) victoria \<Rightarrow> 'u \<Rightarrow> 'w output_plugin" where
  "victoria_output V base = \<lparr>op_handle = victoria_handle V base, op_name = ''Victoria metrics''\<rparr>"

section \<open>The contract of a plugin\<close>

text \<open>
  What the command service promises with an acknowledgement: a message resolved with success is in
  the storage, for good. \<open>kept m w\<close> says that the storage of the world \<open>w\<close> holds \<open>m\<close>.
\<close>

locale storing_plugin =
  fixes plugin :: "'w output_plugin" and kept :: "borrowed_insert_message \<Rightarrow> 'w \<Rightarrow> bool"
  assumes success_stored: "op_handle plugin m w = (Success, w') \<Longrightarrow> kept m w'"
begin

text \<open>
  Then a message the router handled without a stop is stored, or the report that went out names
  the failure.
\<close>

lemma router_handle_stored:
  assumes run: "router_handle router m w = (Inr u, w')" and p: "mr_output_plugin router = plugin"
  obtains reporter status w1 where
    "with_message_body (mr_from_str router) (mr_report_sender router) m = Some reporter"
    "op_handle plugin m w = (status, w1)" "status = Success \<longrightarrow> kept m w1"
    "report (mr_to_vec router) reporter (resolution_to_string status) w1 = (Inr (), w')"
proof -
  from run obtain reporter where r:
    "with_message_body (mr_from_str router) (mr_report_sender router) m = Some reporter"
    by (auto simp: router_handle_def split: option.splits)
  obtain status w1 where h: "op_handle plugin m w = (status, w1)" by fastforce
  with run r p have "report (mr_to_vec router) reporter (resolution_to_string status) w1 = (Inr (), w')"
    by (simp add: router_handle_def)
  with that r h success_stored show ?thesis by blast
qed

end

section \<open>Starting the service\<close>

text \<open>
  \<open>start_services\<close> of \<open>main.rs\<close> up to the point where the input listens or serves.
\<close>

datatype ('k, 'a, 'w) start_outcome =
    StartPanicked
  | StartFailed input_error
  | StartedQueue "('k, 'a, 'w) message_queue_input"
  | StartedGrpc "'w message_router" "16 word"

definition start_services ::
  "('k, 'n, 'h, 'a, 'o) mq_clients \<Rightarrow> (bool \<Rightarrow> 'o) \<Rightarrow>
   (string \<Rightarrow> (mq_error, 'w common_publisher) result) \<Rightarrow> (string \<Rightarrow> (mq_error, 'w common_publisher) result) \<Rightarrow>
   (string \<Rightarrow> (string, json) result) \<Rightarrow> (report_body \<Rightarrow> (string, string) result) \<Rightarrow>
   communication_config \<Rightarrow> string option \<Rightarrow> 'w output_plugin \<Rightarrow> ('k, 'a, 'w) start_outcome" where
  "start_services M exclusive new_kafka new_amqp from_str to_vec config report_topic output =
     (case (case report_topic of
              Some topic_or_exchange \<Rightarrow>
                map_option (map_err FailedToInitializeReporting)
                  (map_option (\<lambda>r. bindR r (\<lambda>base. Inr (FullReports base)))
                    (full_report_sender_new new_kafka new_amqp config topic_or_exchange (op_name output)))
            | None \<Rightarrow> Some (Inr ReportsDisabled)) of
        None \<Rightarrow> StartPanicked
      | Some (Inl e) \<Rightarrow> StartFailed e
      | Some (Inr report_service) \<Rightarrow>
          (let message_router = \<lparr>mr_report_sender = report_service, mr_output_plugin = output,
                 mr_from_str = from_str, mr_to_vec = to_vec\<rparr> in
           case config of
             MessageQueueComm mq_config \<Rightarrow>
               (case message_queue_input_new M exclusive mq_config message_router of
                  Inl e \<Rightarrow> StartFailed e
                | Inr input \<Rightarrow> StartedQueue input)
           | GRpcComm grpc_port \<Rightarrow> StartedGrpc message_router grpc_port))"

end
