(* ===== verification/Document_Table.thy ===== *)
theory Document_Table
  imports Output_Plugins Registry_Types "HOL-Library.Multiset"
begin

text \<open>
  The table \<open>data\<close> the document services share, and the meaning of the SQL statements their
  sources hold: the insert of the command service, the two selections of the query service, and
  the statements of the shrinker. The state is the list of the table's rows, in any order; the
  primary key is (\<open>object_id\<close>, \<open>version\<close>), and versions compare as signed 64-bit integers.
\<close>

section \<open>Statements\<close>

definition row_key :: "insert_row \<Rightarrow> uuid \<times> i64" where
  "row_key r = (row_object_id r, row_version r)"

definition primary_key :: "insert_row list \<Rightarrow> bool" where
  "primary_key t \<longleftrightarrow> distinct (map row_key t)"

definition sql_insert :: "insert_row \<Rightarrow> insert_row list \<Rightarrow> insert_row list option" where
  "sql_insert r t = (if row_key r \<in> row_key ` set t then None else Some (t @ [r]))"

definition rows_of :: "uuid \<Rightarrow> insert_row list \<Rightarrow> insert_row list" where
  "rows_of i t = filter (\<lambda>r. row_object_id r = i) t"

text \<open>\<open>max(version)\<close> over the rows of one object.\<close>

definition max_version :: "uuid \<Rightarrow> insert_row list \<Rightarrow> i64 option" where
  "max_version i t = max_by_key (\<le>) sint (map row_version (rows_of i t))"

text \<open>
  The selection of \<open>query_multiple\<close>: the group of each requested object with its maximal version,
  joined with the table.
\<close>

definition sql_maxes :: "uuid list \<Rightarrow> insert_row list \<Rightarrow> (uuid \<times> i64 option) list" where
  "sql_maxes ids t =
     map (\<lambda>i. (i, max_version i t)) (remdups (map row_object_id (filter (\<lambda>r. row_object_id r \<in> set ids) t)))"

definition sql_latest :: "uuid list \<Rightarrow> insert_row list \<Rightarrow> (uuid \<times> json) list" where
  "sql_latest ids t =
     concat (map (\<lambda>(i, m). map (\<lambda>d. (row_object_id d, row_payload d))
       (filter (\<lambda>d. row_object_id d = i \<and> Some (row_version d) = m) t)) (sql_maxes ids t))"

text \<open>The selection of \<open>query_by_schema\<close>, with its correlated subquery.\<close>

definition sql_schema_latest :: "uuid \<Rightarrow> insert_row list \<Rightarrow> (uuid \<times> json) list" where
  "sql_schema_latest sid t =
     map (\<lambda>d. (row_object_id d, row_payload d))
       (filter (\<lambda>d. row_schema_id d = sid \<and> Some (row_version d) = max_version (row_object_id d) t) t)"

text \<open>The statements of the shrinker.\<close>

definition sql_duplicated :: "insert_row list \<Rightarrow> uuid list" where
  "sql_duplicated t = filter (\<lambda>i. 1 < length (rows_of i t)) (remdups (map row_object_id t))"

definition sql_versions :: "uuid \<Rightarrow> insert_row list \<Rightarrow> (i64 \<times> json) list" where
  "sql_versions i t = sort_key (\<lambda>(v, p). sint v) (map (\<lambda>r. (row_version r, row_payload r)) (rows_of i t))"

definition sql_delete_older :: "uuid \<Rightarrow> i64 \<Rightarrow> insert_row list \<Rightarrow> insert_row list" where
  "sql_delete_older i v t = filter (\<lambda>r. \<not> (row_object_id r = i \<and> sint (row_version r) < sint v)) t"

definition sql_update_payload :: "json \<Rightarrow> uuid \<Rightarrow> i64 \<Rightarrow> insert_row list \<Rightarrow> insert_row list" where
  "sql_update_payload doc i v t =
     map (\<lambda>r. if row_object_id r = i \<and> row_version r = v then r\<lparr>row_payload := doc\<rparr> else r) t"

section \<open>What a table stands for\<close>

text \<open>The current document of each object: the payload of its greatest version.\<close>

definition latest :: "uuid \<Rightarrow> insert_row list \<Rightarrow> insert_row option" where
  "latest i t = max_by_key (\<le>) (\<lambda>r. sint (row_version r)) (rows_of i t)"

definition documents :: "insert_row list \<Rightarrow> uuid \<rightharpoonup> json" where
  "documents t = (\<lambda>i. map_option row_payload (latest i t))"

lemma max_by_key_map: "max_by_key le f (map g xs) = map_option g (max_by_key le (f \<circ> g) xs)"
proof (cases xs)
  case (Cons x ys)
  have "fold (\<lambda>y m. if le (f m) (f y) then y else m) (map g ys) (g z) =
      g (fold (\<lambda>y m. if le (f (g m)) (f (g y)) then y else m) ys z)" for z
    by (induction ys arbitrary: z) auto
  with Cons show ?thesis by simp
qed simp

lemma max_version_latest: "max_version i t = map_option row_version (latest i t)"
  by (simp add: max_version_def latest_def max_by_key_map comp_def)

lemma rows_of_set [simp]: "r \<in> set (rows_of i t) \<longleftrightarrow> r \<in> set t \<and> row_object_id r = i"
  by (auto simp: rows_of_def)

lemma latest_None_iff: "latest i t = None \<longleftrightarrow> (\<forall>r \<in> set t. row_object_id r \<noteq> i)"
  by (auto simp: latest_def rows_of_def filter_empty_conv)

lemma latest_Some_D:
  "latest i t = Some r \<Longrightarrow> r \<in> set t \<and> row_object_id r = i \<and>
    (\<forall>d \<in> set t. row_object_id d = i \<longrightarrow> sint (row_version d) \<le> sint (row_version r))"
proof -
  assume *: "latest i t = Some r"
  have "d \<in> set (rows_of i t) \<Longrightarrow> sint (row_version d) \<le> sint (row_version r)" for d
    using * max_by_key_ge [of "(\<le>)" "\<lambda>r. sint (row_version r)" "rows_of i t" r d]
    unfolding latest_def by (simp add: linear)
  moreover have "r \<in> set (rows_of i t)" using * max_by_key_mem unfolding latest_def by fast
  ultimately show ?thesis by simp
qed

lemma primary_keyD:
  "primary_key t \<Longrightarrow> r \<in> set t \<Longrightarrow> d \<in> set t \<Longrightarrow> row_object_id r = row_object_id d \<Longrightarrow>
    row_version r = row_version d \<Longrightarrow> r = d"
  by (auto simp: primary_key_def row_key_def distinct_map inj_on_def)

lemma latestI:
  assumes "primary_key t" and "r \<in> set t"
    and "\<And>d. d \<in> set t \<Longrightarrow> row_object_id d = row_object_id r \<Longrightarrow> sint (row_version d) \<le> sint (row_version r)"
  shows "latest (row_object_id r) t = Some r"
proof (cases "latest (row_object_id r) t")
  case None
  with assms(2) show ?thesis by (auto simp: latest_None_iff)
next
  case (Some d)
  from latest_Some_D [OF this] assms(2,3) have "d \<in> set t" "row_object_id d = row_object_id r"
    "sint (row_version d) = sint (row_version r)" by force+
  with primary_keyD [OF assms(1,2), of d] Some show ?thesis by (metis signed_word_eqI)
qed

lemma latest_iff:
  assumes "primary_key t"
  shows "latest i t = Some r \<longleftrightarrow> r \<in> set t \<and> row_object_id r = i \<and>
    (\<forall>d \<in> set t. row_object_id d = i \<longrightarrow> sint (row_version d) \<le> sint (row_version r))"
  using latest_Some_D latestI [OF assms] by metis

lemma max_version_row:
  assumes "primary_key t" and "r \<in> set t"
  shows "Some (row_version r) = max_version (row_object_id r) t \<longleftrightarrow> latest (row_object_id r) t = Some r"
proof (cases "latest (row_object_id r) t")
  case (Some d)
  note d = latest_Some_D [OF Some]
  have "row_version r = row_version d \<longleftrightarrow> r = d" using primary_keyD [OF assms, of d] d by auto
  with Some show ?thesis by (auto simp: max_version_latest)
qed (simp add: max_version_latest)

section \<open>The selections read the current documents\<close>

lemma distinct_keys_filter:
  assumes "primary_key t" and "\<And>r. r \<in> set t \<Longrightarrow> P r \<Longrightarrow> latest (row_object_id r) t = Some r"
  shows "distinct (map row_object_id (filter P t))"
proof -
  have "distinct t" using assms(1) by (simp add: primary_key_def distinct_map)
  then have "distinct (filter P t)" by simp
  moreover have "inj_on row_object_id (set (filter P t))"
  proof (rule inj_onI)
    fix x y assume x: "x \<in> set (filter P t)" and y: "y \<in> set (filter P t)" and eq: "row_object_id x = row_object_id y"
    have "latest (row_object_id x) t = Some x" by (rule assms(2)) (use x in simp_all)
    moreover have "latest (row_object_id y) t = Some y" by (rule assms(2)) (use y in simp_all)
    ultimately show "x = y" using eq by (metis option.inject)
  qed
  ultimately show ?thesis by (simp add: distinct_map)
qed

lemma sql_latest_set:
  assumes "primary_key t"
  shows "(i, j) \<in> set (sql_latest ids t) \<longleftrightarrow> i \<in> set ids \<and> documents t i = Some j"
proof -
  have "(i, j) \<in> set (sql_latest ids t) \<longleftrightarrow>
      (\<exists>d \<in> set t. row_object_id d = i \<and> i \<in> set ids \<and> row_payload d = j \<and>
        Some (row_version d) = max_version i t)"
    by (auto simp: sql_latest_def sql_maxes_def)
  also have "\<dots> \<longleftrightarrow> i \<in> set ids \<and> (\<exists>d \<in> set t. row_object_id d = i \<and> row_payload d = j \<and> latest i t = Some d)"
    using max_version_row [OF assms] by auto
  also have "\<dots> \<longleftrightarrow> i \<in> set ids \<and> documents t i = Some j"
    using latest_Some_D [of i t] by (auto simp: documents_def)
  finally show ?thesis .
qed

lemma sql_schema_latest_set:
  assumes "primary_key t"
  shows "(i, j) \<in> set (sql_schema_latest sid t) \<longleftrightarrow>
    (\<exists>r. latest i t = Some r \<and> row_schema_id r = sid \<and> row_payload r = j)"
  using max_version_row [OF assms] latest_Some_D [of i t] by (auto simp: sql_schema_latest_def)

lemma sql_latest_distinct:
  assumes "primary_key t"
  shows "distinct (map fst (sql_latest ids t))"
proof -
  have one: "distinct (map row_object_id
      (filter (\<lambda>d. row_object_id d = i \<and> Some (row_version d) = max_version i t) t))" for i
    by (rule distinct_keys_filter [OF assms]) (use max_version_row [OF assms] in auto)
  have "distinct (map fst (concat (map (\<lambda>(i, m). map (\<lambda>d. (row_object_id d, row_payload d))
      (filter (\<lambda>d. row_object_id d = i \<and> Some (row_version d) = m) t)) (map (\<lambda>i. (i, max_version i t)) is))))"
    if "distinct is" for "is"
    using that
  proof (induction "is")
    case (Cons i "is")
    then show ?case using one [of i] by (auto simp: comp_def)
  qed simp
  then show ?thesis by (simp add: sql_latest_def sql_maxes_def)
qed

lemma sql_schema_latest_distinct:
  "primary_key t \<Longrightarrow> distinct (map fst (sql_schema_latest sid t))"
  using distinct_keys_filter [of t "\<lambda>d. row_schema_id d = sid \<and> Some (row_version d) = max_version (row_object_id d) t"]
    max_version_row [of t] by (auto simp: sql_schema_latest_def comp_def)

section \<open>The insert moves the current document forward\<close>

lemma sql_insert_set: "sql_insert r t = Some t' \<Longrightarrow> set t' = insert r (set t)"
  by (auto simp: sql_insert_def split: if_splits)

lemma sql_insert_primary_key: "primary_key t \<Longrightarrow> sql_insert r t = Some t' \<Longrightarrow> primary_key t'"
  by (auto simp: sql_insert_def primary_key_def split: if_splits)

lemma documents_insert:
  assumes "primary_key t" and "sql_insert r t = Some t'"
  shows "documents t' =
    (if \<forall>d \<in> set t. row_object_id d = row_object_id r \<longrightarrow> sint (row_version d) \<le> sint (row_version r)
     then (documents t)(row_object_id r \<mapsto> row_payload r) else documents t)"
proof
  fix i
  have pk: "primary_key t'" by (rule sql_insert_primary_key [OF assms])
  have t': "set t' = insert r (set t)" by (rule sql_insert_set [OF assms(2)])
  have other: "latest i t' = latest i t" if "i \<noteq> row_object_id r"
    using assms(2) that by (auto simp: sql_insert_def latest_def rows_of_def split: if_splits)
  show "documents t' i = (if \<forall>d \<in> set t. row_object_id d = row_object_id r \<longrightarrow> sint (row_version d) \<le> sint (row_version r)
     then (documents t)(row_object_id r \<mapsto> row_payload r) else documents t) i"
  proof (cases "i = row_object_id r")
    case i: True
    show ?thesis
    proof (cases "\<forall>d \<in> set t. row_object_id d = row_object_id r \<longrightarrow> sint (row_version d) \<le> sint (row_version r)")
      case True
      have "latest (row_object_id r) t' = Some r" by (rule latestI [OF pk]) (use t' True in auto)
      with True i show ?thesis by (simp add: documents_def)
    next
      case False
      then obtain d where d: "d \<in> set t" "row_object_id d = row_object_id r"
        "sint (row_version r) < sint (row_version d)" by force
      then have "latest i t \<noteq> None" using i by (auto simp: latest_None_iff)
      then obtain m where m: "latest i t = Some m" by blast
      note mD = latest_Some_D [OF m]
      have "latest (row_object_id m) t' = Some m" by (rule latestI [OF pk]) (use mD t' d i in force)+
      then have "latest i t' = latest i t" using m mD by simp
      with False show ?thesis by (auto simp: documents_def)
    qed
  qed (use other in \<open>simp add: documents_def\<close>)
qed

end
