(* ===== verification/Query_Service.thy ===== *)
theory Query_Service
  imports Document_Table
begin

text \<open>
  The document query service, \<open>psql.rs\<close> of the crate query-service, and the contracts between the
  document services and the database: the locale \<open>document_reader\<close> for the query service and
  \<open>document_writer\<close> for the PostgreSQL plugin of the command service. The database driver (the
  pool, prepared statements, simple queries) is a parameter; the locales say that the statements
  mean what \<open>Document_Table\<close> says they mean.
\<close>

section \<open>The driver\<close>

text \<open>The parameters of a prepared statement, and the messages a simple query answers with.\<close>

datatype query_argument = ObjectIdsArg "uuid list" | SchemaIdArg uuid

datatype simple_query_message =
    SimpleRow "(string, string option) result list"
  | CommandComplete u64
  | OtherMessage

record psql_config =
  sc_username :: string
  sc_password :: string
  sc_host :: string
  sc_port :: "16 word"
  sc_dbname :: string
  sc_schema :: string

record ('w, 'p, 'k, 'q) psql_driver =
  qd_build_pool :: "psql_config \<Rightarrow> (string, 'p) result"
  qd_get :: "'p \<Rightarrow> ('w, string, 'k) op"
  qd_prepare :: "'k \<Rightarrow> string \<Rightarrow> ('w, string, 'q) op"
  qd_query :: "'k \<Rightarrow> 'q \<Rightarrow> query_argument \<Rightarrow> ('w, string, (uuid \<times> json) list) op"
  qd_simple_query :: "'k \<Rightarrow> string \<Rightarrow> ('w, string, simple_query_message list) op"
  qd_uuid_parse :: "string \<Rightarrow> (string, uuid) result"
  qd_uuid_to_string :: "uuid \<Rightarrow> string"
  qd_json_to_string :: "json \<Rightarrow> string"
  qd_to_vec :: "string list list \<Rightarrow> (string, string) result"

definition internal_status :: "string \<Rightarrow> status" where
  "internal_status s = \<lparr>st_code = Internal, st_message = s\<rparr>"

definition invalid_argument_status :: "string \<Rightarrow> status" where
  "invalid_argument_status s = \<lparr>st_code = InvalidArgument, st_message = s\<rparr>"

section \<open>The service\<close>

record 'p psql_query =
  pq_pool :: 'p
  pq_schema :: string

definition psql_load :: "('w, 'p, 'k, 'q) psql_driver \<Rightarrow> psql_config \<Rightarrow> (anyhow, 'p psql_query) result" where
  "psql_load D config =
     bindR (context_of ''Failed to build connection pool'' (qd_build_pool D config)) (\<lambda>pool.
     if \<not> validate_schema (sc_schema config)
     then Inl [''Schema '' @ backticks (sc_schema config) @
       '' has invalid name. It can contain only ascii letters, numbers and underscores'']
     else Inr \<lparr>pq_pool = pool, pq_schema = sc_schema config\<rparr>)"

definition psql_connect :: "('w, 'p, 'k, 'q) psql_driver \<Rightarrow> 'p psql_query \<Rightarrow> ('w, status, 'k) op" where
  "psql_connect D q =
     map_errE (\<lambda>err. internal_status (''Unable to connect to database: '' @ err)) (qd_get D (pq_pool q))"

definition make_query ::
  "('w, 'p, 'k, 'q) psql_driver \<Rightarrow> 'p psql_query \<Rightarrow> string \<Rightarrow> query_argument \<Rightarrow>
   ('w, status, (uuid \<times> json) list) op" where
  "make_query D q query args =
     bindE (psql_connect D q) (\<lambda>connection.
     bindE (map_errE (\<lambda>err. internal_status (''Unable to prepare query statement: '' @ err))
       (qd_prepare D connection query)) (\<lambda>statement.
     map_errE (\<lambda>err. internal_status (''Unable to query data: '' @ err))
       (qd_query D connection statement args)))"

definition collect_id_payload_rows ::
  "('w, 'p, 'k, 'q) psql_driver \<Rightarrow> (uuid \<times> json) list \<Rightarrow> byte_map" where
  "collect_id_payload_rows D rows =
     hash_collect (map (\<lambda>(object_id, value). (qd_uuid_to_string D object_id, qd_json_to_string D value)) rows)"

text \<open>The fields of a row, with the number of the first column that cannot be read.\<close>

fun row_fields :: "nat \<Rightarrow> (string, string option) result list \<Rightarrow> (string, string list) result" where
  "row_fields i [] = Inr []"
| "row_fields i (c # cs) =
     bindR (map_err (\<lambda>e. ''Error getting data from row at column '' @ nat_to_string i @ '': '' @ e) c) (\<lambda>f.
     bindR (row_fields (i + 1) cs) (\<lambda>fs. Inr ((case f of None \<Rightarrow> [] | Some s \<Rightarrow> s) # fs)))"

fun message_fields :: "simple_query_message \<Rightarrow> (string, string list) result" where
  "message_fields (SimpleRow cs) = row_fields 0 cs"
| "message_fields (CommandComplete command) = Inr [nat_to_string (unat command)]"
| "message_fields OtherMessage = Inl ''Could not match SimpleQueryMessage''"

definition collect_simple_query_messages ::
  "('w, 'p, 'k, 'q) psql_driver \<Rightarrow> simple_query_message list \<Rightarrow> (string, string) result" where
  "collect_simple_query_messages D messages =
     bindR (collectR (map message_fields messages)) (\<lambda>data.
     map_err (\<lambda>e. ''Error serializing data to json: '' @ e) (qd_to_vec D data))"

definition multiple_query :: "string \<Rightarrow> string" where
  "multiple_query schema =
     ''SELECT d.object_id, d.payload FROM (SELECT object_id, max(version) as max FROM '' @ schema @
     ''.data WHERE object_id = ANY($1) GROUP BY object_id) maxes JOIN '' @ schema @
     ''.data d ON d.object_id = maxes.object_id AND d.version = maxes.max''"

definition by_schema_query :: "string \<Rightarrow> string" where
  "by_schema_query schema =
     ''SELECT object_id, payload FROM '' @ schema @
     ''.data d1 WHERE schema_id = $1 AND d1.version = (SELECT MAX(version) FROM '' @ schema @
     ''.data d2 WHERE d2.object_id = d1.object_id)''"

definition psql_query_multiple ::
  "('w, 'p, 'k, 'q) psql_driver \<Rightarrow> 'p psql_query \<Rightarrow> string list \<Rightarrow> ('w, status, byte_map) op" where
  "psql_query_multiple D q object_ids =
     bindE (liftR (map_err invalid_argument_status (collectR (map (qd_uuid_parse D) object_ids)))) (\<lambda>ids.
     bindE (make_query D q (multiple_query (pq_schema q)) (ObjectIdsArg ids)) (\<lambda>rows.
     returnE (collect_id_payload_rows D rows)))"

definition psql_query_by_schema ::
  "('w, 'p, 'k, 'q) psql_driver \<Rightarrow> 'p psql_query \<Rightarrow> string \<Rightarrow> ('w, status, byte_map) op" where
  "psql_query_by_schema D q schema_id =
     bindE (liftR (map_err invalid_argument_status (qd_uuid_parse D schema_id))) (\<lambda>sid.
     bindE (make_query D q (by_schema_query (pq_schema q)) (SchemaIdArg sid)) (\<lambda>rows.
     returnE (collect_id_payload_rows D rows)))"

definition psql_query_raw ::
  "('w, 'p, 'k, 'q) psql_driver \<Rightarrow> 'p psql_query \<Rightarrow> string \<Rightarrow> ('w, status, string) op" where
  "psql_query_raw D q raw_statement =
     bindE (psql_connect D q) (\<lambda>connection.
     bindE (map_errE (\<lambda>err. internal_status (''Unable to query_raw data: '' @ err))
       (qd_simple_query D connection raw_statement)) (\<lambda>messages.
     liftR (map_err (\<lambda>err. internal_status (''Unable to collect simple query messages data: '' @ err))
       (collect_simple_query_messages D messages))))"

section \<open>The contracts with the database\<close>

lemma make_query_Inr:
  assumes "make_query D q s a w = (Inr rows, w')"
  obtains k w1 st w2 where "qd_get D (pq_pool q) w = (Inr k, w1)" "qd_prepare D k s w1 = (Inr st, w2)"
    "qd_query D k st a w2 = (Inr rows, w')"
  using assms by (auto simp: make_query_def psql_connect_def bindE_Inr_iff)

text \<open>
  Reading: no call changes the table, and a prepared selection answers with the rows of its
  meaning, in any order.
\<close>

locale document_reader =
  fixes D :: "('w, 'p, 'k, 'q) psql_driver" and table :: "'w \<Rightarrow> insert_row list" and schema :: string
  assumes get_table: "qd_get D p w = (r1, w') \<Longrightarrow> table w' = table w"
    and prepare_table: "qd_prepare D k s w = (r2, w') \<Longrightarrow> table w' = table w"
    and query_table: "qd_query D k q a w = (r3, w') \<Longrightarrow> table w' = table w"
    and multiple_rows: "qd_prepare D k (multiple_query schema) w = (Inr q, w1) \<Longrightarrow>
      qd_query D k q (ObjectIdsArg ids) w2 = (Inr rows, w3) \<Longrightarrow> mset rows = mset (sql_latest ids (table w2))"
    and by_schema_rows: "qd_prepare D k (by_schema_query schema) w = (Inr q, w1) \<Longrightarrow>
      qd_query D k q (SchemaIdArg sid) w2 = (Inr rows, w3) \<Longrightarrow> mset rows = mset (sql_schema_latest sid (table w2))"
begin

lemma make_query_table: "make_query D q s a w = (r, w') \<Longrightarrow> table w' = table w"
  by (auto simp: make_query_def psql_connect_def bindE_def map_errE_def split: prod.splits sum.splits
      dest!: get_table prepare_table query_table)

lemma make_query_multiple:
  assumes "make_query D q (multiple_query schema) (ObjectIdsArg ids) w = (Inr rows, w')"
  shows "mset rows = mset (sql_latest ids (table w))"
proof -
  from make_query_Inr [OF assms] obtain k w1 st w2 where
    "qd_get D (pq_pool q) w = (Inr k, w1)" "qd_prepare D k (multiple_query schema) w1 = (Inr st, w2)"
    "qd_query D k st (ObjectIdsArg ids) w2 = (Inr rows, w')" .
  from multiple_rows [OF this(2,3)] get_table [OF this(1)] prepare_table [OF this(2)] show ?thesis by simp
qed

lemma make_query_by_schema:
  assumes "make_query D q (by_schema_query schema) (SchemaIdArg sid) w = (Inr rows, w')"
  shows "mset rows = mset (sql_schema_latest sid (table w))"
proof -
  from make_query_Inr [OF assms] obtain k w1 st w2 where
    "qd_get D (pq_pool q) w = (Inr k, w1)" "qd_prepare D k (by_schema_query schema) w1 = (Inr st, w2)"
    "qd_query D k st (SchemaIdArg sid) w2 = (Inr rows, w')" .
  from by_schema_rows [OF this(2,3)] get_table [OF this(1)] prepare_table [OF this(2)] show ?thesis by simp
qed

end

text \<open>
  Writing: the insert statement adds exactly its row, or is refused by the primary key or for
  another reason and changes nothing.
\<close>

locale document_writer =
  fixes P :: "('w, 'p, 'k) postgres" and table :: "'w \<Rightarrow> insert_row list" and schema :: string
  assumes get_table: "pg_get P p w = (r1, w') \<Longrightarrow> table w' = table w"
    and insert_done: "pg_query P k (store_query schema) row w = (Inr u, w') \<Longrightarrow>
      sql_insert row (table w) = Some (table w')"
    and insert_refused: "pg_query P k (store_query schema) row w = (Inl e, w') \<Longrightarrow> table w' = table w"
begin

lemma handle_success:
  assumes "postgres_handle P plugin m w = (Success, w')" and "pp_schema plugin = schema"
  shows "\<exists>j. pg_from_str P (bi_data m) = Inr j \<and>
    sql_insert \<lparr>row_object_id = bi_object_id m, row_version = bi_timestamp m, row_schema_id = bi_schema_id m,
      row_payload = j\<rparr> (table w) = Some (table w')"
  using assms get_table insert_done by (fastforce simp: postgres_handle_def split: prod.splits sum.splits)

lemma handle_failure:
  assumes "postgres_handle P plugin m w = (res, w')" and "pp_schema plugin = schema" and "res \<noteq> Success"
  shows "table w' = table w"
  using assms get_table insert_refused by (fastforce simp: postgres_handle_def split: prod.splits sum.splits)

end

text \<open>A writer that keeps its contract makes the PostgreSQL plugin keep the contract of a plugin.\<close>

definition row_stored :: "(string \<Rightarrow> (string, json) result) \<Rightarrow> ('w \<Rightarrow> insert_row list) \<Rightarrow>
    borrowed_insert_message \<Rightarrow> 'w \<Rightarrow> bool" where
  "row_stored from_str table m w \<longleftrightarrow> (\<exists>j. from_str (bi_data m) = Inr j \<and>
     \<lparr>row_object_id = bi_object_id m, row_version = bi_timestamp m, row_schema_id = bi_schema_id m,
      row_payload = j\<rparr> \<in> set (table w))"

sublocale document_writer \<subseteq> stored: storing_plugin
  "postgres_output P \<lparr>pp_pool = pool, pp_schema = schema\<rparr>" "row_stored (pg_from_str P) table"
proof
  fix m w w'
  assume "op_handle (postgres_output P \<lparr>pp_pool = pool, pp_schema = schema\<rparr>) m w = (Success, w')"
  then have "postgres_handle P \<lparr>pp_pool = pool, pp_schema = schema\<rparr> m w = (Success, w')"
    by (simp add: postgres_output_def)
  from handle_success [OF this] show "row_stored (pg_from_str P) table m w'"
    by (auto simp: row_stored_def dest!: sql_insert_set)
qed

section \<open>A database in memory\<close>

text \<open>A database whose only state is the table, which knows the statements of one schema.\<close>

definition memory_driver ::
  "string \<Rightarrow> (string \<Rightarrow> (string, uuid) result) \<Rightarrow> (uuid \<Rightarrow> string) \<Rightarrow> (json \<Rightarrow> string) \<Rightarrow>
   (insert_row list, unit, unit, string) psql_driver" where
  "memory_driver schema parse print show_json =
     \<lparr>qd_build_pool = (\<lambda>config. Inr ()), qd_get = (\<lambda>p w. (Inr (), w)), qd_prepare = (\<lambda>k s w. (Inr s, w)),
      qd_query = (\<lambda>k s a w. (case a of
          ObjectIdsArg ids \<Rightarrow> if s = multiple_query schema then Inr (sql_latest ids w) else Inl ''wrong parameters''
        | SchemaIdArg i \<Rightarrow> if s = by_schema_query schema then Inr (sql_schema_latest i w) else Inl ''wrong parameters'', w)),
      qd_simple_query = (\<lambda>k s w. (Inl ''syntax error'', w)), qd_uuid_parse = parse, qd_uuid_to_string = print,
      qd_json_to_string = show_json, qd_to_vec = (\<lambda>d. Inr (concat (concat d)))\<rparr>"

definition memory_postgres :: "string \<Rightarrow> (string \<Rightarrow> (string, json) result) \<Rightarrow> (insert_row list, unit, unit) postgres" where
  "memory_postgres schema from_str =
     \<lparr>pg_build_pool = (\<lambda>config size timeout. Inr ()), pg_get = (\<lambda>pool w. (Inr (), w)),
      pg_query = (\<lambda>k s row w. if s = store_query schema
        then (case sql_insert row w of None \<Rightarrow> (Inl ''duplicate key'', w) | Some w' \<Rightarrow> (Inr (), w'))
        else (Inl ''syntax error'', w)),
      pg_from_str = from_str\<rparr>"

interpretation memory_reader: document_reader "memory_driver schema parse print show_json" "\<lambda>w. w" schema
  by unfold_locales (auto simp: memory_driver_def split: query_argument.splits if_splits)

interpretation memory_writer: document_writer "memory_postgres schema from_str" "\<lambda>w. w" schema
  by unfold_locales (auto simp: memory_postgres_def split: option.splits if_splits)

end
