(* ===== verification/Db_Shrinker.thy ===== *)
theory Db_Shrinker
  imports Query_Service
begin

text \<open>
  The shrinker, \<open>main.rs\<close> of the crate db-shrinker-postgres: it merges all versions of a document
  into the newest one. The PostgreSQL client is a parameter; a transaction that is dropped before
  its commit is rolled back by the client.
\<close>

section \<open>Merging documents\<close>

text \<open>
  \<open>merge\<close>: objects are merged key by key, where an entry of the second that the first lacks is
  inserted as null first; anything else is overwritten.
\<close>

function (sequential) merge_json :: "json \<Rightarrow> json \<Rightarrow> json"
  and merge_entries :: "(string \<times> json) list \<Rightarrow> (string \<times> json) list \<Rightarrow> (string \<times> json) list" where
  "merge_json (JObject a) (JObject b) = JObject (merge_entries a b)"
| "merge_json a b = b"
| "merge_entries a [] = a"
| "merge_entries a ((k, v) # b) =
     merge_entries (obj_insert k (merge_json (case map_of a k of None \<Rightarrow> JNull | Some u \<Rightarrow> u) v) a) b"
  by pat_completeness auto
termination
  by (relation "measure (case_sum (\<lambda>(a, b). size b) (\<lambda>(a, b). size_list (size_prod (\<lambda>_. 0) size) b))") auto

definition minimize_document :: "(i64 \<times> json) list \<Rightarrow> json option" where
  "minimize_document rows =
     (case map snd rows of [] \<Rightarrow> None | doc # docs \<Rightarrow> Some (foldl merge_json doc docs))"

section \<open>The client\<close>

record shrinker_opts =
  so_username :: string
  so_password :: string
  so_host :: string
  so_port :: "16 word"
  so_dbname :: string
  so_schema :: string

record ('w, 'k, 'x) shrinker_client =
  sh_connect :: "shrinker_opts \<Rightarrow> ('w, string, 'k) op"
  sh_execute :: "'k \<Rightarrow> string \<Rightarrow> ('w, string, unit) op"
  sh_select_ids :: "'k \<Rightarrow> string \<Rightarrow> ('w, string, uuid list) op"
  sh_select_versions :: "'k \<Rightarrow> string \<Rightarrow> uuid \<Rightarrow> ('w, string, (i64 \<times> json) list) op"
  sh_transaction :: "'k \<Rightarrow> ('w, string, 'x) op"
  sh_delete :: "'x \<Rightarrow> string \<Rightarrow> uuid \<Rightarrow> i64 \<Rightarrow> ('w, string, unit) op"
  sh_update :: "'x \<Rightarrow> string \<Rightarrow> json \<Rightarrow> uuid \<Rightarrow> i64 \<Rightarrow> ('w, string, unit) op"
  sh_commit :: "'x \<Rightarrow> ('w, string, unit) op"
  sh_rollback :: "'x \<Rightarrow> 'w \<Rightarrow> 'w"
  sh_uuid_to_string :: "uuid \<Rightarrow> string"

definition search_path_statement :: "string \<Rightarrow> string" where
  "search_path_statement schema = ''set search_path to '' @ [CHR 0x27] @ schema @ [CHR 0x27]"

definition duplicated_query :: string where
  "duplicated_query = ''SELECT object_id FROM data GROUP BY object_id HAVING count(*) > 1''"

definition versions_query :: string where
  "versions_query = ''SELECT version, payload FROM data WHERE object_id = $1 ORDER BY version ASC''"

definition delete_statement :: string where
  "delete_statement = ''DELETE FROM data WHERE object_id = $1 AND version < $2''"

definition update_statement :: string where
  "update_statement = ''UPDATE data SET payload = $1 WHERE object_id = $2 AND version = $3''"

text \<open>The question mark operator on a client error, and a statement whose error drops the transaction.\<close>

definition anyhowE :: "('w, string, 'a) op \<Rightarrow> ('w, anyhow, 'a) op" where
  "anyhowE m = map_errE (\<lambda>e. [e]) m"

definition or_rollback ::
  "('w, 'k, 'x) shrinker_client \<Rightarrow> 'x \<Rightarrow> ('w, string, 'a) op \<Rightarrow> ('w, anyhow, 'a) op" where
  "or_rollback S tx m =
     (\<lambda>w. case m w of (Inl e, w) \<Rightarrow> (Inl [e], sh_rollback S tx w) | (Inr x, w) \<Rightarrow> (Inr x, w))"

definition get_all_with_id ::
  "('w, 'k, 'x) shrinker_client \<Rightarrow> 'k \<Rightarrow> uuid \<Rightarrow> ('w, anyhow, (i64 \<times> json) list) op" where
  "get_all_with_id S client object_id = anyhowE (sh_select_versions S client versions_query object_id)"

definition shrink_by_id ::
  "('w, 'k, 'x) shrinker_client \<Rightarrow> 'k \<Rightarrow> uuid \<Rightarrow> ('w, anyhow, unit) op" where
  "shrink_by_id S client object_id =
     bindE (get_all_with_id S client object_id) (\<lambda>rows.
     bindE (liftR (ok_or [''No rows with selected ID, did database change mid-shrink?'']
       (map_option fst (if rows = [] then None else Some (last rows))))) (\<lambda>version.
     bindE (liftR (ok_or [''Failed minimizing document''] (minimize_document rows))) (\<lambda>document.
     bindE (anyhowE (sh_transaction S client)) (\<lambda>tx.
     thenE (or_rollback S tx (sh_delete S tx delete_statement object_id version))
     (thenE (or_rollback S tx (sh_update S tx update_statement document object_id version))
       (anyhowE (sh_commit S tx)))))))"

definition shrinker_main :: "('w, 'k, 'x) shrinker_client \<Rightarrow> shrinker_opts \<Rightarrow> ('w, anyhow, unit) op" where
  "shrinker_main S opts =
     bindE (map_errE (\<lambda>e. [''Connection to PostgreSQL'', e]) (sh_connect S opts)) (\<lambda>client.
     thenE (map_errE (\<lambda>e. [''Unable to select schema!'', e])
       (sh_execute S client (search_path_statement (so_schema opts))))
     (bindE (map_errE (\<lambda>e. [''Select duplicated object_ids'', e])
       (sh_select_ids S client duplicated_query)) (\<lambda>changed_ids.
     forE changed_ids (\<lambda>object_id.
       map_errE (\<lambda>e. (''Shrinking of '' @ sh_uuid_to_string S object_id) # e)
         (shrink_by_id S client object_id)))))"

section \<open>Lemmas on merging\<close>

lemma merge_entries_get:
  "distinct (map fst b) \<Longrightarrow> map_of (merge_entries a b) k =
    (case map_of b k of None \<Rightarrow> map_of a k
     | Some v \<Rightarrow> Some (merge_json (case map_of a k of None \<Rightarrow> JNull | Some u \<Rightarrow> u) v))"
proof (induction b arbitrary: a)
  case (Cons e b)
  obtain k' v where e: "e = (k', v)" by fastforce
  from Cons.prems e have "k' \<notin> fst ` set b" by simp
  then have none: "map_of b k' = None" by (metis map_of_eq_None_iff)
  show ?case
  proof (cases "k = k'")
    case True
    with Cons e none show ?thesis by simp
  next
    case False
    with Cons e show ?thesis by (simp split: option.split)
  qed
qed simp

lemma merge_entries_distinct:
  "distinct (map fst a) \<Longrightarrow> distinct (map fst (merge_entries a b))"
  by (induction b arbitrary: a) auto

lemma merge_json_other: "\<not> (is_object a \<and> is_object b) \<Longrightarrow> merge_json a b = b"
  by (cases a; cases b) auto

text \<open>The value at a path of keys, and whether a document settles what is at a path.\<close>

fun json_at :: "string list \<Rightarrow> json \<Rightarrow> json option" where
  "json_at [] j = Some j"
| "json_at (k # p) j = Option.bind (json_get j k) (json_at p)"

fun settles :: "string list \<Rightarrow> json \<Rightarrow> bool" where
  "settles [] j \<longleftrightarrow> \<not> is_object j"
| "settles (k # p) j \<longleftrightarrow> \<not> is_object j \<or> (case json_get j k of None \<Rightarrow> False | Some v \<Rightarrow> settles p v)"

text \<open>Objects without repeated keys, at every level, as \<open>serde_json::Map\<close> keeps them.\<close>

fun unique_keys :: "json \<Rightarrow> bool" where
  "unique_keys (JObject kvs) \<longleftrightarrow> distinct (map fst kvs) \<and> list_all (\<lambda>(k, v). unique_keys v) kvs"
| "unique_keys (JArray xs) \<longleftrightarrow> list_all unique_keys xs"
| "unique_keys _ \<longleftrightarrow> True"

lemma unique_keys_get: "unique_keys j \<Longrightarrow> json_get j k = Some v \<Longrightarrow> unique_keys v"
  by (cases j) (auto simp: list_all_iff dest: map_of_SomeD)

lemma json_get_not_object: "\<not> is_object j \<Longrightarrow> json_get j k = None"
  by (cases j) auto

lemma merge_json_get:
  assumes "is_object a" and "is_object b" and "unique_keys b"
  shows "json_get (merge_json a b) k =
    (case json_get b k of None \<Rightarrow> json_get a k
     | Some v \<Rightarrow> Some (merge_json (case json_get a k of None \<Rightarrow> JNull | Some u \<Rightarrow> u) v))"
  using assms by (cases a; cases b) (auto simp: merge_entries_get split: option.split)

lemma merge_json_null [simp]: "merge_json JNull b = b"
  by (cases b) auto

text \<open>
  C15. Merging is decided path by path: where the second document settles a path, that is, has
  something other than an object at it or on the way to it, its value counts, also when it is
  null or nothing; where it does not, a path it does not mention keeps the first document's value,
  and two objects at a path are merged.
\<close>

theorem merge_json_at:
  assumes "unique_keys b"
  shows "json_at p (merge_json a b) =
    (if settles p b then json_at p b
     else case json_at p b of None \<Rightarrow> json_at p a
     | Some v \<Rightarrow> Some (merge_json (case json_at p a of None \<Rightarrow> JNull | Some u \<Rightarrow> u) v))"
  using assms
proof (induction p arbitrary: a b)
  case Nil
  then show ?case by (simp add: merge_json_other)
next
  case (Cons k p)
  show ?case
  proof (cases "is_object a \<and> is_object b")
    case True
    show ?thesis
    proof (cases "json_get b k")
      case (Some v)
      have u: "unique_keys v" by (rule unique_keys_get [OF Cons.prems Some])
      show ?thesis using True Some Cons.IH [OF u] Cons.prems
        by (cases "json_get a k") (auto simp: merge_json_get split: option.splits)
    qed (use True Cons.prems in \<open>simp add: merge_json_get\<close>)
  next
    case False
    have other: "merge_json a b = b" by (rule merge_json_other [OF False])
    show ?thesis
    proof (cases "is_object b")
      case True
      with False have "json_get a k = None" by (simp add: json_get_not_object)
      then show ?thesis by (auto simp: other split: option.split)
    qed (simp add: other)
  qed
qed

theorem merge_json_at_witness:
  "json_at [''a'', ''x''] (merge_json (JObject [(''a'', JObject [(''x'', JBool True)])])
     (JObject [(''a'', JObject [(''y'', JNull)])])) = Some (JBool True)"
  using merge_json_at [of "JObject [(''a'', JObject [(''y'', JNull)])]" "[''a'', ''x'']"
      "JObject [(''a'', JObject [(''x'', JBool True)])]"] by simp

section \<open>The contract with the database\<close>

text \<open>
  The statements name the table \<open>data\<close>, which the search path resolves: \<open>path w\<close> is the path of
  the session, \<open>table w\<close> the table of the configured schema, and \<open>pending x w\<close> what the open
  transaction \<open>x\<close> sees of it. A transaction becomes visible with its commit; a commit that fails
  may or may not have taken effect.
\<close>

locale shrinker_database =
  fixes S :: "('w, 'k, 'x) shrinker_client" and table :: "'w \<Rightarrow> insert_row list" and path :: "'w \<Rightarrow> string"
    and pending :: "'x \<Rightarrow> 'w \<Rightarrow> insert_row list" and schema :: string
  assumes connect: "sh_connect S opts w = (r, w') \<Longrightarrow> table w' = table w"
    and execute: "sh_execute S k (search_path_statement schema) w = (q, w') \<Longrightarrow>
      table w' = table w \<and> (\<forall>u. q = Inr u \<longrightarrow> path w' = schema)"
    and select_ids: "sh_select_ids S k duplicated_query w = (ri, w') \<Longrightarrow> table w' = table w \<and> path w' = path w \<and>
      (\<forall>ids. ri = Inr ids \<longrightarrow> path w = schema \<longrightarrow> mset ids = mset (sql_duplicated (table w)))"
    and select_versions: "sh_select_versions S k versions_query i w = (rv, w') \<Longrightarrow>
      table w' = table w \<and> path w' = path w \<and>
      (\<forall>rows. rv = Inr rows \<longrightarrow> path w = schema \<longrightarrow> rows = sql_versions i (table w))"
    and begin_tx: "sh_transaction S k w = (rx, w') \<Longrightarrow> table w' = table w \<and> path w' = path w \<and>
      (\<forall>x. rx = Inr x \<longrightarrow> pending x w' = table w)"
    and delete_older: "sh_delete S x delete_statement i v w = (q, w') \<Longrightarrow> table w' = table w \<and> path w' = path w \<and>
      (\<forall>u. q = Inr u \<longrightarrow> path w = schema \<longrightarrow> pending x w' = sql_delete_older i v (pending x w))"
    and update_payload: "sh_update S x update_statement doc i v w = (q, w') \<Longrightarrow>
      table w' = table w \<and> path w' = path w \<and>
      (\<forall>u. q = Inr u \<longrightarrow> path w = schema \<longrightarrow> pending x w' = sql_update_payload doc i v (pending x w))"
    and commit: "sh_commit S x w = (q, w') \<Longrightarrow> path w' = path w \<and>
      (if \<exists>u. q = Inr u then table w' = pending x w else table w' \<in> {table w, pending x w})"
    and rollback: "table (sh_rollback S x w) = table w \<and> path (sh_rollback S x w) = path w"

text \<open>A database in memory: the session's search path, the table, and the open transaction's view of it.\<close>

record memory_session =
  ms_path :: string
  ms_table :: "insert_row list"
  ms_pending :: "insert_row list"

definition on_path :: "string \<Rightarrow> bool \<Rightarrow> (memory_session \<Rightarrow> 'a \<times> memory_session) \<Rightarrow> (memory_session, string, 'a) op" where
  "on_path schema known f = (\<lambda>w. if known \<and> ms_path w = schema then map_prod Inr id (f w)
     else (Inl ''relation does not exist'', w))"

definition memory_shrinker :: "string \<Rightarrow> (uuid \<Rightarrow> string) \<Rightarrow> (memory_session, unit, unit) shrinker_client" where
  "memory_shrinker schema print =
     \<lparr>sh_connect = (\<lambda>opts w. (Inr (), w)),
      sh_execute = (\<lambda>k s w. if s = search_path_statement schema then (Inr (), w\<lparr>ms_path := schema\<rparr>)
        else (Inl ''syntax error'', w)),
      sh_select_ids = (\<lambda>k s. on_path schema (s = duplicated_query) (\<lambda>w. (sql_duplicated (ms_table w), w))),
      sh_select_versions = (\<lambda>k s i. on_path schema (s = versions_query) (\<lambda>w. (sql_versions i (ms_table w), w))),
      sh_transaction = (\<lambda>k w. (Inr (), w\<lparr>ms_pending := ms_table w\<rparr>)),
      sh_delete = (\<lambda>x s i v. on_path schema (s = delete_statement)
        (\<lambda>w. ((), w\<lparr>ms_pending := sql_delete_older i v (ms_pending w)\<rparr>))),
      sh_update = (\<lambda>x s doc i v. on_path schema (s = update_statement)
        (\<lambda>w. ((), w\<lparr>ms_pending := sql_update_payload doc i v (ms_pending w)\<rparr>))),
      sh_commit = (\<lambda>x w. (Inr (), w\<lparr>ms_table := ms_pending w\<rparr>)),
      sh_rollback = (\<lambda>x w. w\<lparr>ms_pending := ms_table w\<rparr>),
      sh_uuid_to_string = print\<rparr>"

interpretation memory_shrinker: shrinker_database "memory_shrinker schema print" ms_table ms_path "\<lambda>x. ms_pending" schema
  by unfold_locales (auto simp: memory_shrinker_def on_path_def split: if_splits)

end
