(* ===== verification/Document_Props.thy ===== *)
theory Document_Props
  imports Db_Shrinker
begin

text \<open>
  Properties of the document services over their shared table: what the query service answers,
  that what the command service stored can be read, what the shrinker leaves, and how the
  shrinker and later writes combine.
\<close>

section \<open>The effect of shrinking one object\<close>

definition shrink_object :: "uuid \<Rightarrow> insert_row list \<Rightarrow> insert_row list" where
  "shrink_object i t =
     (case minimize_document (sql_versions i t) of
        None \<Rightarrow> t
      | Some doc \<Rightarrow> (let v = fst (last (sql_versions i t)) in sql_update_payload doc i v (sql_delete_older i v t)))"

lemma rows_of_idem [simp]: "rows_of i (rows_of i t) = rows_of i t"
  by (simp add: rows_of_def)

lemma rows_of_update: "rows_of j (sql_update_payload doc i v t) =
    (if j = i then sql_update_payload doc i v (rows_of j t) else rows_of j t)"
  by (induction t) (auto simp: rows_of_def sql_update_payload_def)

lemma rows_of_delete: "rows_of j (sql_delete_older i v t) =
    (if j = i then sql_delete_older i v (rows_of j t) else rows_of j t)"
  by (induction t) (auto simp: rows_of_def sql_delete_older_def)

lemma sql_versions_rows_of [simp]: "sql_versions i (rows_of i t) = sql_versions i t"
  by (simp add: sql_versions_def)

lemma rows_of_shrink: "rows_of j (shrink_object i t) = (if j = i then shrink_object i (rows_of i t) else rows_of j t)"
  by (auto simp: shrink_object_def rows_of_update rows_of_delete Let_def split: option.split)

lemma minimize_None_iff: "minimize_document rows = None \<longleftrightarrow> rows = []"
  by (auto simp: minimize_document_def split: list.splits)

lemma sql_versions_set: "set (sql_versions i t) = (\<lambda>r. (row_version r, row_payload r)) ` set (rows_of i t)"
  by (simp add: sql_versions_def)

lemma sql_versions_empty_iff: "sql_versions i t = [] \<longleftrightarrow> rows_of i t = []"
proof -
  have "length (sql_versions i t) = length (rows_of i t)" by (simp add: sql_versions_def)
  then show ?thesis by (metis length_0_conv)
qed

lemma rows_of_empty_iff: "rows_of i t = [] \<longleftrightarrow> latest i t = None"
  by (simp add: latest_def)

lemma last_version:
  assumes "primary_key t" and "latest i t = Some r"
  shows "last (sql_versions i t) = (row_version r, row_payload r)"
proof -
  note r = latest_Some_D [OF assms(2)]
  have ne: "sql_versions i t \<noteq> []" using assms(2) by (simp add: sql_versions_empty_iff rows_of_empty_iff)
  then have "last (sql_versions i t) \<in> set (sql_versions i t)" by simp
  then obtain d where d: "d \<in> set t" "row_object_id d = i" "last (sql_versions i t) = (row_version d, row_payload d)"
    by (auto simp: sql_versions_set)
  have sorted: "sorted (map (\<lambda>(v, p). sint v) (sql_versions i t))" by (simp add: sql_versions_def)
  have "sint (fst x) \<le> sint (fst (last xs))"
    if "x \<in> set xs" "sorted (map (\<lambda>(v, p). sint v) xs)" for x :: "i64 \<times> json" and xs
    using that by (induction xs) (auto simp: case_prod_beta dest!: bspec [OF _ last_in_set])
  then have "x \<in> set (sql_versions i t) \<Longrightarrow> sint (fst x) \<le> sint (fst (last (sql_versions i t)))" for x
    using sorted by blast
  then have "sint (row_version r) \<le> sint (row_version d)"
    using r d(3) by (force simp: sql_versions_set)
  with r d have "latest i t = Some d" using latestI [OF assms(1) d(1)] by force
  with assms(2) d(3) show ?thesis by simp
qed

text \<open>The one row a shrunk object keeps: the newest, with all versions merged in order.\<close>

definition merged_row :: "uuid \<Rightarrow> insert_row list \<Rightarrow> insert_row option" where
  "merged_row i t =
     (case latest i t of None \<Rightarrow> None
      | Some r \<Rightarrow> map_option (\<lambda>doc. r\<lparr>row_payload := doc\<rparr>) (minimize_document (sql_versions i t)))"

lemma filter_single:
  assumes "distinct xs" and "x \<in> set xs" and "\<And>y. y \<in> set xs \<Longrightarrow> P y \<longleftrightarrow> y = x"
  shows "filter P xs = [x]"
proof -
  have "filter P xs = filter (\<lambda>y. y = x) xs" by (rule filter_cong) (use assms(3) in auto)
  also have "\<dots> = [x]" using assms(1,2) by (induction xs) (auto simp: filter_empty_conv)
  finally show ?thesis .
qed

lemma shrink_object_rows:
  assumes "primary_key t"
  shows "rows_of i (shrink_object i t) = (case merged_row i t of None \<Rightarrow> [] | Some r \<Rightarrow> [r])"
proof (cases "latest i t")
  case None
  then have "rows_of i t = []" by (simp add: rows_of_empty_iff)
  moreover from this have "sql_versions i t = []" by (simp add: sql_versions_empty_iff)
  ultimately show ?thesis using None
    by (simp add: rows_of_shrink shrink_object_def minimize_document_def merged_row_def sql_versions_def)
next
  case (Some r)
  note r = latest_Some_D [OF Some]
  have "rows_of i t \<noteq> []" using Some by (simp add: rows_of_empty_iff)
  then have "minimize_document (sql_versions i t) \<noteq> None" by (simp add: minimize_None_iff sql_versions_empty_iff)
  then obtain doc where doc: "minimize_document (sql_versions i t) = Some doc" by blast
  have "distinct t" using assms by (simp add: primary_key_def distinct_map)
  then have dist: "distinct (rows_of i t)" by (simp add: rows_of_def)
  have "sql_delete_older i (row_version r) (rows_of i t) = [r]"
    unfolding sql_delete_older_def
  proof (rule filter_single [OF dist])
    show "r \<in> set (rows_of i t)" using r by simp
    fix y assume y: "y \<in> set (rows_of i t)"
    then have "sint (row_version y) \<le> sint (row_version r)" using r by simp
    then have "\<not> sint (row_version y) < sint (row_version r) \<longleftrightarrow> row_version y = row_version r"
      by (metis antisym_conv1 signed_word_eqI less_irrefl)
    also have "\<dots> \<longleftrightarrow> y = r" using primary_keyD [OF assms, of y r] y r by auto
    finally show "\<not> (row_object_id y = i \<and> sint (row_version y) < sint (row_version r)) \<longleftrightarrow> y = r" using y by simp
  qed
  moreover have "rows_of i (shrink_object i t) =
      sql_update_payload doc i (row_version r) (sql_delete_older i (row_version r) (rows_of i t))"
    by (simp add: shrink_object_def doc last_version [OF assms Some] rows_of_update rows_of_delete Let_def)
  ultimately show ?thesis using r by (simp add: sql_update_payload_def merged_row_def Some doc)
qed

lemma primary_key_shrink: "primary_key t \<Longrightarrow> primary_key (shrink_object i t)"
proof -
  have u: "map row_key (sql_update_payload doc i v t) = map row_key t" for doc v t
    by (auto simp: sql_update_payload_def row_key_def)
  assume "primary_key t"
  then show ?thesis
    by (auto simp: shrink_object_def primary_key_def u sql_delete_older_def distinct_map_filter Let_def split: option.split)
qed

section \<open>Runs of the shrinker\<close>

context shrinker_database
begin

lemma shrink_by_id_run:
  assumes "shrink_by_id S k i w = (r, w')" and "path w = schema"
  shows "path w' = schema \<and> (case r of Inr _ \<Rightarrow> table w' = shrink_object i (table w)
    | Inl _ \<Rightarrow> table w' \<in> {table w, shrink_object i (table w)})"
proof -
  obtain rv w1 where v: "sh_select_versions S k versions_query i w = (rv, w1)" by fastforce
  note v' = select_versions [OF v]
  show ?thesis
  proof (cases rv)
    case (Inl e)
    then show ?thesis using assms v v' by (auto simp: shrink_by_id_def get_all_with_id_def anyhowE_def bindE_def map_errE_def)
  next
    case (Inr rows)
    then have rows: "rows = sql_versions i (table w)" using v' assms(2) by simp
    show ?thesis
    proof (cases "rows = []")
      case True
      then show ?thesis using assms v v' Inr
        by (auto simp: shrink_by_id_def get_all_with_id_def anyhowE_def bindE_def map_errE_def ok_or_def)
    next
      case False
      then obtain doc where doc: "minimize_document rows = Some doc" using minimize_None_iff by blast
      let ?v = "fst (last rows)"
      have goal: "shrink_object i (table w) = sql_update_payload doc i ?v (sql_delete_older i ?v (table w))"
        using doc rows by (simp add: shrink_object_def Let_def)
      obtain rx w2 where x: "sh_transaction S k w1 = (rx, w2)" by fastforce
      note x' = begin_tx [OF x]
      have run: "shrink_by_id S k i w = (case rx of Inl e \<Rightarrow> (Inl [e], w2) | Inr tx \<Rightarrow>
          thenE (or_rollback S tx (sh_delete S tx delete_statement i ?v))
          (thenE (or_rollback S tx (sh_update S tx update_statement doc i ?v)) (anyhowE (sh_commit S tx))) w2)"
        using v Inr False doc x
        by (simp add: shrink_by_id_def get_all_with_id_def anyhowE_def bindE_def map_errE_def ok_or_def split: sum.split)
      show ?thesis
      proof (cases rx)
        case (Inl e)
        then show ?thesis using run assms x' v' by simp
      next
        case tx: (Inr tx)
        obtain rd w3 where d: "sh_delete S tx delete_statement i ?v w2 = (rd, w3)" by fastforce
        note d' = delete_older [OF d]
        obtain ru w4 where u: "sh_update S tx update_statement doc i ?v w3 = (ru, w4)" by fastforce
        note u' = update_payload [OF u]
        obtain rc w5 where c: "sh_commit S tx w4 = (rc, w5)" by fastforce
        note c' = commit [OF c]
        have "(r, w') = (case rd of Inl e \<Rightarrow> (Inl [e], sh_rollback S tx w3) | Inr _ \<Rightarrow>
            (case ru of Inl e \<Rightarrow> (Inl [e], sh_rollback S tx w4) | Inr _ \<Rightarrow> (case rc of Inl e \<Rightarrow> (Inl [e], w5) | Inr _ \<Rightarrow> (Inr (), w5))))"
          using run assms(1) tx d u c
          by (simp add: or_rollback_def anyhowE_def thenE_def bindE_def map_errE_def split: sum.splits)
        then show ?thesis using x' v' d' u' c' tx assms(2) goal rollback
          by (auto split: sum.splits if_splits)
      qed
    qed
  qed
qed

lemma shrink_all:
  assumes "forE ids (\<lambda>i. map_errE (g i) (shrink_by_id S k i)) w = (r, w')"
    and "path w = schema" and "distinct ids"
  shows "case r of
      Inr _ \<Rightarrow> \<forall>i. rows_of i (table w') = (if i \<in> set ids then rows_of i (shrink_object i (table w)) else rows_of i (table w))
    | Inl _ \<Rightarrow> \<forall>i. rows_of i (table w') = rows_of i (table w) \<or>
        i \<in> set ids \<and> rows_of i (table w') = rows_of i (shrink_object i (table w))"
  using assms
proof (induction ids arbitrary: w)
  case Nil
  then show ?case by auto
next
  case (Cons i ids)
  obtain q w1 where q: "shrink_by_id S k i w = (q, w1)" by fastforce
  note q' = shrink_by_id_run [OF q Cons.prems(2)]
  show ?case
  proof (cases q)
    case (Inl e)
    then have "r = Inl (g i e) \<and> w' = w1" using Cons.prems(1) q by (simp add: thenE_def bindE_def map_errE_def)
    with q' Inl show ?thesis by (auto simp: rows_of_shrink split: if_splits)
  next
    case (Inr u)
    then have rest: "forE ids (\<lambda>i. map_errE (g i) (shrink_by_id S k i)) w1 = (r, w')"
      using Cons.prems(1) q by (simp add: thenE_def bindE_def map_errE_def)
    have t1: "table w1 = shrink_object i (table w)" and p1: "path w1 = schema" using q' Inr by auto
    have dist: "distinct ids" and i: "i \<notin> set ids" using Cons.prems(3) by auto
    have other: "j \<noteq> i \<Longrightarrow> rows_of j (table w1) = rows_of j (table w) \<and>
        rows_of j (shrink_object j (table w1)) = rows_of j (shrink_object j (table w))" for j
      by (simp add: t1 rows_of_shrink)
    note IH = Cons.IH [OF rest p1 dist]
    show ?thesis
    proof (cases r)
      case (Inl e)
      have "rows_of j (table w') = rows_of j (table w) \<or>
          j \<in> set (i # ids) \<and> rows_of j (table w') = rows_of j (shrink_object j (table w))" for j
      proof (cases "j = i")
        case True
        with IH Inl i have "rows_of i (table w') = rows_of i (table w1)" by auto
        with True t1 show ?thesis by simp
      next
        case False
        from IH Inl have "rows_of j (table w') = rows_of j (table w1) \<or>
            j \<in> set ids \<and> rows_of j (table w') = rows_of j (shrink_object j (table w1))" by simp
        with other [OF False] show ?thesis by auto
      qed
      with Inl show ?thesis by simp
    next
      case ok: (Inr y)
      then show ?thesis using IH other i t1 by (auto simp: rows_of_shrink)
    qed
  qed
qed

lemma shrinker_main_run:
  assumes "shrinker_main S opts w = (r, w')" and "so_schema opts = schema"
  shows "case r of
      Inr _ \<Rightarrow> \<forall>i. rows_of i (table w') = (if i \<in> set (sql_duplicated (table w))
        then rows_of i (shrink_object i (table w)) else rows_of i (table w))
    | Inl _ \<Rightarrow> \<forall>i. rows_of i (table w') = rows_of i (table w) \<or> rows_of i (table w') = rows_of i (shrink_object i (table w))"
proof -
  obtain rk w1 where k: "sh_connect S opts w = (rk, w1)" by fastforce
  show ?thesis
  proof (cases rk)
    case (Inl e)
    with k assms connect [OF k] show ?thesis by (auto simp: shrinker_main_def bindE_def map_errE_def)
  next
    case client: (Inr k)
    obtain re w2 where e: "sh_execute S k (search_path_statement schema) w1 = (re, w2)" by fastforce
    note e' = execute [OF e]
    show ?thesis
    proof (cases re)
      case (Inl x)
      with k client e e' assms connect [OF k] show ?thesis
        by (auto simp: shrinker_main_def thenE_def bindE_def map_errE_def)
    next
      case sel: (Inr u)
      obtain ri w3 where i: "sh_select_ids S k duplicated_query w2 = (ri, w3)" by fastforce
      note i' = select_ids [OF i]
      show ?thesis
      proof (cases ri)
        case (Inl x)
        with k client e sel i i' e' assms connect [OF k] show ?thesis
          by (auto simp: shrinker_main_def thenE_def bindE_def map_errE_def)
      next
        case (Inr ids)
        with i' e' sel have ids: "mset ids = mset (sql_duplicated (table w))" and p: "path w3 = schema"
          and t: "table w3 = table w" using connect [OF k] by auto
        have "distinct (sql_duplicated (table w))" by (simp add: sql_duplicated_def)
        then have d: "distinct ids" using ids by (metis mset_eq_imp_distinct_iff)
        have "forE ids (\<lambda>i. map_errE (\<lambda>e. (''Shrinking of '' @ sh_uuid_to_string S i) # e) (shrink_by_id S k i)) w3 = (r, w')"
          using assms k client e sel i Inr by (simp add: shrinker_main_def thenE_def bindE_def map_errE_def)
        from shrink_all [OF this p d] show ?thesis using t mset_eq_setD [OF ids] by (auto split: sum.splits)
      qed
    qed
  qed
qed

end

section \<open>What the query service answers\<close>

lemma make_query_internal: "make_query D q s a w = (Inl st, w') \<Longrightarrow> st_code st = Internal"
  by (auto simp: make_query_def psql_connect_def internal_status_def bindE_Inl_iff)

lemma hash_collect_get:
  assumes "distinct (map fst xs)"
  shows "map_of (hash_collect xs) k = Some v \<longleftrightarrow> (k, v) \<in> set xs"
  using assms by (simp add: map_of_hash_collect map_of_eq_Some_iff flip: rev_map)

lemma collect_rows_get:
  assumes "inj (qd_uuid_to_string D)" and "distinct (map fst rows)"
  shows "map_of (collect_id_payload_rows D rows) (qd_uuid_to_string D i) = Some s \<longleftrightarrow>
    (\<exists>j. (i, j) \<in> set rows \<and> s = qd_json_to_string D j)"
proof -
  have "distinct (map fst (map (\<lambda>(i, j). (qd_uuid_to_string D i, qd_json_to_string D j)) rows))"
  proof -
    have "map fst (map (\<lambda>(i, j). (qd_uuid_to_string D i, qd_json_to_string D j)) rows) =
        map (qd_uuid_to_string D) (map fst rows)" by auto
    then show ?thesis using assms by (auto simp: distinct_map simp del: map_map intro: inj_on_subset)
  qed
  from hash_collect_get [OF this] show ?thesis
    using assms(1) by (auto simp: collect_id_payload_rows_def inj_eq image_iff split: prod.splits)
qed

lemma collect_rows_map:
  assumes "inj (qd_uuid_to_string D)" and "distinct (map fst rows)" and "\<And>i j. (i, j) \<in> set rows \<longleftrightarrow> f i = Some j"
  shows "map_of (collect_id_payload_rows D rows) (qd_uuid_to_string D i) = map_option (qd_json_to_string D) (f i)"
proof -
  have "map_of (collect_id_payload_rows D rows) (qd_uuid_to_string D i) = Some s \<longleftrightarrow>
      map_option (qd_json_to_string D) (f i) = Some s" for s
    using collect_rows_get [OF assms(1,2)] assms(3) by auto
  then show ?thesis by (metis not_Some_eq)
qed

lemma collect_rows_distinct: "distinct (map fst (collect_id_payload_rows D rows))"
  by (simp add: collect_id_payload_rows_def distinct_hash_collect)

lemma mset_distinct_fst: "mset xs = mset ys \<Longrightarrow> distinct (map fst ys) \<Longrightarrow> distinct (map fst xs)"
  by (metis mset_eq_imp_distinct_iff mset_map)

lemma query_multiple_reads:
  assumes "document_reader D table (pq_schema q)" and "primary_key (table w)" and "inj (qd_uuid_to_string D)"
    and "psql_query_multiple D q object_ids w = (Inr reply, w')"
  obtains ids where "map (qd_uuid_parse D) object_ids = map Inr ids" "table w' = table w" "distinct (map fst reply)"
    "\<And>i. map_of reply (qd_uuid_to_string D i) =
      (if i \<in> set ids then map_option (qd_json_to_string D) (documents (table w) i) else None)"
proof -
  from assms(4) obtain ids rows where ids: "collectR (map (qd_uuid_parse D) object_ids) = Inr ids"
    and rows: "make_query D q (multiple_query (pq_schema q)) (ObjectIdsArg ids) w = (Inr rows, w')"
    and reply: "reply = collect_id_payload_rows D rows"
    by (auto simp: psql_query_multiple_def bindE_Inr_iff)
  note m = document_reader.make_query_multiple [OF assms(1) rows]
  have d: "distinct (map fst rows)" by (rule mset_distinct_fst [OF m sql_latest_distinct [OF assms(2)]])
  have r: "(i, j) \<in> set rows \<longleftrightarrow> (if i \<in> set ids then documents (table w) i else None) = Some j" for i j
    using sql_latest_set [OF assms(2)] mset_eq_setD [OF m] by simp
  show ?thesis
  proof (rule that)
    show "map (qd_uuid_parse D) object_ids = map Inr ids" using ids by (simp add: collectR_Inr_iff)
    show "table w' = table w" by (rule document_reader.make_query_table [OF assms(1) rows])
    show "distinct (map fst reply)" by (simp add: reply collect_rows_distinct)
    show "map_of reply (qd_uuid_to_string D i) =
        (if i \<in> set ids then map_option (qd_json_to_string D) (documents (table w) i) else None)" for i
      using collect_rows_map [OF assms(3) d r] by (simp add: reply)
  qed
qed

text \<open>
  C9. A successful \<open>query_multiple\<close> implements a lookup in the current documents: for every
  requested object it holds the payload of the greatest version in the table, it holds nothing
  for an object that is not stored or was not asked for, every identifier was well-formed, and
  the table is not changed. A malformed identifier is answered with \<open>InvalidArgument\<close> before the
  database is touched.
\<close>

theorem query_multiple_returns_latest:
  assumes "document_reader D table (pq_schema q)" and "primary_key (table w)" and "inj (qd_uuid_to_string D)"
    and "psql_query_multiple D q object_ids w = (r, w')"
  shows "case collectR (map (qd_uuid_parse D) object_ids) of
      Inl e \<Rightarrow> r = Inl (invalid_argument_status e) \<and> w' = w
    | Inr ids \<Rightarrow> table w' = table w \<and> (case r of
          Inl st \<Rightarrow> st_code st = Internal
        | Inr reply \<Rightarrow> distinct (map fst reply) \<and> (\<forall>i. map_of reply (qd_uuid_to_string D i) =
            (if i \<in> set ids then map_option (qd_json_to_string D) (documents (table w) i) else None)))"
proof (cases "collectR (map (qd_uuid_parse D) object_ids)")
  case (Inl e)
  with assms(4) show ?thesis by (simp add: psql_query_multiple_def bindE_def)
next
  case (Inr ids)
  show ?thesis
  proof (cases r)
    case st: (Inl st)
    with assms(4) Inr have "make_query D q (multiple_query (pq_schema q)) (ObjectIdsArg ids) w = (Inl st, w')"
      by (auto simp: psql_query_multiple_def bindE_Inl_iff)
    then show ?thesis using Inr st document_reader.make_query_table [OF assms(1)] make_query_internal by fastforce
  next
    case reply: (Inr reply)
    from query_multiple_reads [OF assms(1-3), of object_ids reply w'] assms(4) reply obtain ids' where
      "map (qd_uuid_parse D) object_ids = map Inr ids'" "table w' = table w" "distinct (map fst reply)"
      "\<And>i. map_of reply (qd_uuid_to_string D i) =
        (if i \<in> set ids' then map_option (qd_json_to_string D) (documents (table w) i) else None)" by auto
    with reply Inr show ?thesis by simp
  qed
qed

text \<open>
  C30. A successful \<open>query_by_schema\<close> holds exactly the objects whose greatest version over all
  schemas is stored under the requested schema, with that version's payload: an object whose newest
  version is stored under another schema is not part of the answer, whatever older versions it has
  under the requested one.
\<close>

theorem query_by_schema_returns_current:
  assumes "document_reader D table (pq_schema q)" and "primary_key (table w)" and "inj (qd_uuid_to_string D)"
    and "psql_query_by_schema D q schema_id w = (Inr reply, w')"
  shows "\<exists>sid. qd_uuid_parse D schema_id = Inr sid \<and> table w' = table w \<and> distinct (map fst reply) \<and>
    (\<forall>i. map_of reply (qd_uuid_to_string D i) =
      (case latest i (table w) of None \<Rightarrow> None
       | Some r \<Rightarrow> if row_schema_id r = sid then Some (qd_json_to_string D (row_payload r)) else None))"
proof -
  from assms(4) obtain sid rows where sid: "qd_uuid_parse D schema_id = Inr sid"
    and rows: "make_query D q (by_schema_query (pq_schema q)) (SchemaIdArg sid) w = (Inr rows, w')"
    and reply: "reply = collect_id_payload_rows D rows"
    by (auto simp: psql_query_by_schema_def bindE_Inr_iff)
  note m = document_reader.make_query_by_schema [OF assms(1) rows]
  have d: "distinct (map fst rows)" by (rule mset_distinct_fst [OF m sql_schema_latest_distinct [OF assms(2)]])
  have r: "(i, j) \<in> set rows \<longleftrightarrow> (case latest i (table w) of None \<Rightarrow> None
      | Some r \<Rightarrow> if row_schema_id r = sid then Some (row_payload r) else None) = Some j" for i j
    using sql_schema_latest_set [OF assms(2)] mset_eq_setD [OF m] by (auto split: option.split)
  from collect_rows_map [OF assms(3) d r]
  have "map_of reply (qd_uuid_to_string D i) =
      (case latest i (table w) of None \<Rightarrow> None
       | Some r \<Rightarrow> if row_schema_id r = sid then Some (qd_json_to_string D (row_payload r)) else None)" for i
    by (simp add: reply split: option.split)
  moreover have "table w' = table w" by (rule document_reader.make_query_table [OF assms(1) rows])
  moreover have "distinct (map fst reply)" by (simp add: reply collect_rows_distinct)
  ultimately show ?thesis using sid by blast
qed

section \<open>What was stored can be read\<close>

lemma inserted_row_is_read:
  assumes "document_reader D table (pq_schema q)" and pk: "primary_key t" and ins: "sql_insert row t = Some (table w1)"
    and inj: "inj (qd_uuid_to_string D)"
    and parse: "qd_uuid_parse D (qd_uuid_to_string D (row_object_id row)) = Inr (row_object_id row)"
    and run: "psql_query_multiple D q [qd_uuid_to_string D (row_object_id row)] w1 = (Inr reply, w2)"
  shows "map_of reply (qd_uuid_to_string D (row_object_id row)) =
    (if \<forall>d \<in> set t. row_object_id d = row_object_id row \<longrightarrow> sint (row_version d) \<le> sint (row_version row)
     then Some (qd_json_to_string D (row_payload row))
     else map_option (qd_json_to_string D) (documents t (row_object_id row)))"
proof -
  have "primary_key (table w1)" by (rule sql_insert_primary_key [OF pk ins])
  from query_multiple_reads [OF assms(1) this inj run] obtain ids where
    ids: "map (qd_uuid_parse D) [qd_uuid_to_string D (row_object_id row)] = map Inr ids"
    and reply: "\<And>i. map_of reply (qd_uuid_to_string D i) =
      (if i \<in> set ids then map_option (qd_json_to_string D) (documents (table w1) i) else None)"
    by metis
  from ids parse have "row_object_id row \<in> set ids" by auto
  with reply documents_insert [OF pk ins] show ?thesis by auto
qed

text \<open>
  A message the PostgreSQL plugin resolved with success can be read back: its object had no
  row with that version before, and a query of the object answers with the message's document,
  unless the table held a greater version of the object already, which then stays the answer.
\<close>

theorem stored_document_is_read:
  assumes "document_writer P table schema" and "document_reader D table schema"
    and "primary_key (table w)" and "inj (qd_uuid_to_string D)"
    and "qd_uuid_parse D (qd_uuid_to_string D (bi_object_id m)) = Inr (bi_object_id m)"
    and "pp_schema plugin = schema" and "pq_schema q = schema"
    and "postgres_handle P plugin m w = (Success, w1)"
    and "psql_query_multiple D q [qd_uuid_to_string D (bi_object_id m)] w1 = (Inr reply, w2)"
  shows "\<exists>j. pg_from_str P (bi_data m) = Inr j \<and> (bi_object_id m, bi_timestamp m) \<notin> row_key ` set (table w) \<and>
    map_of reply (qd_uuid_to_string D (bi_object_id m)) =
      (if \<forall>d \<in> set (table w). row_object_id d = bi_object_id m \<longrightarrow> sint (row_version d) \<le> sint (bi_timestamp m)
       then Some (qd_json_to_string D j)
       else map_option (qd_json_to_string D) (documents (table w) (bi_object_id m)))"
proof -
  let ?row = "\<lambda>j. \<lparr>row_object_id = bi_object_id m, row_version = bi_timestamp m, row_schema_id = bi_schema_id m,
      row_payload = j\<rparr>"
  from document_writer.handle_success [OF assms(1,8,6)] obtain j where j: "pg_from_str P (bi_data m) = Inr j"
    and ins: "sql_insert (?row j) (table w) = Some (table w1)" by blast
  have "document_reader D table (pq_schema q)" using assms(2,7) by simp
  note read = inserted_row_is_read [OF this assms(3) ins assms(4), unfolded insert_row.simps, OF assms(5,9)]
  have "row_key (?row j) \<notin> row_key ` set (table w)"
    using ins by (simp add: sql_insert_def split: if_splits)
  then have "(bi_object_id m, bi_timestamp m) \<notin> row_key ` set (table w)"
    by (simp only: row_key_def [of "?row j"] insert_row.simps not_False_eq_True)
  with j read show ?thesis by (intro exI [of _ j] conjI)
qed

section \<open>What the shrinker leaves\<close>

lemma rows_of_latest: "rows_of i t = [r] \<Longrightarrow> latest i t = Some r"
  by (simp add: latest_def)

lemma merged_row_rows_of: "merged_row i (rows_of i t) = merged_row i t"
proof -
  have "latest i (rows_of i t) = latest i t" by (simp add: latest_def)
  then show ?thesis by (simp add: merged_row_def cong: option.case_cong)
qed

lemma merged_row_cong: "rows_of i t = rows_of i t' \<Longrightarrow> merged_row i t = merged_row i t'"
  by (metis merged_row_rows_of)

lemma merged_row_single: "rows_of i t = [r] \<Longrightarrow> merged_row i t = Some r"
  by (simp add: merged_row_def rows_of_latest sql_versions_def minimize_document_def)

lemma merged_row_None_iff: "merged_row i t = None \<longleftrightarrow> rows_of i t = []"
  by (simp add: merged_row_def rows_of_empty_iff minimize_None_iff sql_versions_empty_iff split: option.split)

lemma not_duplicated:
  assumes "i \<notin> set (sql_duplicated t)"
  shows "rows_of i t = (case merged_row i t of None \<Rightarrow> [] | Some r \<Rightarrow> [r])"
proof (cases "rows_of i t")
  case Nil
  then show ?thesis by (simp add: merged_row_None_iff [THEN iffD2])
next
  case (Cons r rs)
  then have "r \<in> set t" "row_object_id r = i" by (metis rows_of_set list.set_intros(1))+
  with assms have "length (rows_of i t) \<le> 1" by (auto simp: sql_duplicated_def)
  with Cons have "rows_of i t = [r]" by simp
  from merged_row_single [OF this] this show ?thesis by simp
qed

text \<open>
  C31. A run of the shrinker that succeeds leaves every stored object with exactly one row: its
  greatest version, under that version's schema, with the payloads of all its versions merged in
  the order of the versions. A run that fails, wherever it fails, leaves every object either
  untouched or in that form; no version is lost without having been merged.
\<close>

theorem shrinker_merges_versions:
  assumes "shrinker_database S table path pending (so_schema opts)" and "primary_key (table w)"
    and "shrinker_main S opts w = (r, w')"
  shows "case r of
      Inr _ \<Rightarrow> \<forall>i. rows_of i (table w') = (case merged_row i (table w) of None \<Rightarrow> [] | Some row \<Rightarrow> [row])
    | Inl _ \<Rightarrow> \<forall>i. rows_of i (table w') = rows_of i (table w) \<or>
        rows_of i (table w') = (case merged_row i (table w) of None \<Rightarrow> [] | Some row \<Rightarrow> [row])"
proof -
  note run = shrinker_database.shrinker_main_run [OF assms(1,3) refl]
  note shrunk = shrink_object_rows [OF assms(2)]
  show ?thesis
  proof (cases r)
    case (Inl e)
    with run shrunk show ?thesis by auto
  next
    case (Inr u)
    with run have ok: "\<And>i. rows_of i (table w') = (if i \<in> set (sql_duplicated (table w))
        then rows_of i (shrink_object i (table w)) else rows_of i (table w))" by simp
    have "rows_of i (table w') = (case merged_row i (table w) of None \<Rightarrow> [] | Some row \<Rightarrow> [row])" for i
      by (cases "i \<in> set (sql_duplicated (table w))") (use ok shrunk not_duplicated in simp_all)
    with Inr show ?thesis by simp
  qed
qed

section \<open>Shrinking between writes\<close>

lemma insort_key_snoc: "f a \<le> f x \<Longrightarrow> insort_key f a (ys @ [x]) = insort_key f a ys @ [x]"
  by (induction ys) auto

lemma sort_key_snoc:
  fixes f :: "'a \<Rightarrow> 'b :: linorder"
  shows "\<forall>y \<in> set xs. f y \<le> f x \<Longrightarrow> sort_key f (xs @ [x]) = sort_key f xs @ [x]"
  by (induction xs) (auto simp: insort_key_snoc)

text \<open>The row is a new version of its object.\<close>

definition newer_than :: "insert_row list \<Rightarrow> insert_row \<Rightarrow> bool" where
  "newer_than t r \<longleftrightarrow>
     (\<forall>d \<in> set t. row_object_id d = row_object_id r \<longrightarrow> sint (row_version d) < sint (row_version r))"

lemma sql_versions_snoc:
  assumes "newer_than t r"
  shows "sql_versions (row_object_id r) (t @ [r]) = sql_versions (row_object_id r) t @ [(row_version r, row_payload r)]"
proof -
  have "\<forall>y \<in> set (map (\<lambda>d. (row_version d, row_payload d)) (rows_of (row_object_id r) t)).
      (case y of (v, p) \<Rightarrow> sint v) \<le> (case (row_version r, row_payload r) of (v, p) \<Rightarrow> sint v)"
    using assms by (auto simp: newer_than_def intro: less_imp_le)
  from sort_key_snoc [OF this] show ?thesis by (simp add: sql_versions_def rows_of_def)
qed

lemma minimize_snoc: "minimize_document (rows @ [(v, p)]) =
    Some (case minimize_document rows of None \<Rightarrow> p | Some doc \<Rightarrow> merge_json doc p)"
  by (auto simp: minimize_document_def split: list.splits)

lemma documents_merged: "map_option row_payload (merged_row i t) = minimize_document (sql_versions i t)"
proof (cases "rows_of i t = []")
  case True
  then show ?thesis by (simp add: merged_row_None_iff [THEN iffD2] minimize_None_iff [THEN iffD2] sql_versions_empty_iff)
next
  case False
  then obtain r doc where "latest i t = Some r" "minimize_document (sql_versions i t) = Some doc"
    using rows_of_empty_iff minimize_None_iff sql_versions_empty_iff by (metis option.exhaust)
  then show ?thesis by (simp add: merged_row_def)
qed

lemma merged_row_snoc:
  assumes "primary_key t"
    and newer: "newer_than t r"
  shows "primary_key (t @ [r]) \<and> latest (row_object_id r) (t @ [r]) = Some r \<and>
    merged_row (row_object_id r) (t @ [r]) = Some (r\<lparr>row_payload :=
      (case merged_row (row_object_id r) t of None \<Rightarrow> row_payload r
       | Some m \<Rightarrow> merge_json (row_payload m) (row_payload r))\<rparr>)"
proof -
  have "row_key r \<notin> row_key ` set t" using newer by (fastforce simp: row_key_def newer_than_def)
  then have pk: "primary_key (t @ [r])" using assms(1) by (simp add: primary_key_def)
  have l: "latest (row_object_id r) (t @ [r]) = Some r"
    by (rule latestI [OF pk]) (use newer in \<open>auto simp: newer_than_def intro: less_imp_le\<close>)
  have "(case minimize_document (sql_versions (row_object_id r) t) of None \<Rightarrow> row_payload r
      | Some doc \<Rightarrow> merge_json doc (row_payload r)) =
     (case merged_row (row_object_id r) t of None \<Rightarrow> row_payload r | Some m \<Rightarrow> merge_json (row_payload m) (row_payload r))"
    unfolding documents_merged [symmetric] by (simp split: option.split)
  with pk l show ?thesis
    by (simp add: merged_row_def [of _ "t @ [r]"] sql_versions_snoc [OF newer] minimize_snoc)
qed

lemma shrunk_newer:
  assumes "primary_key t" and "newer_than t r"
  shows "newer_than (shrink_object (row_object_id r) t) r"
  unfolding newer_than_def
proof (intro ballI impI)
  fix d assume "d \<in> set (shrink_object (row_object_id r) t)" "row_object_id d = row_object_id r"
  then have "d \<in> set (rows_of (row_object_id r) (shrink_object (row_object_id r) t))" by simp
  then obtain doc l where "latest (row_object_id r) t = Some l" "d = l\<lparr>row_payload := doc\<rparr>"
    by (auto simp: shrink_object_rows [OF assms(1)] merged_row_def map_option_case split: option.splits)
  with latest_Some_D assms(2) show "sint (row_version d) < sint (row_version r)"
    by (fastforce simp: newer_than_def)
qed


text \<open>
  Between two runs of the shrinker the current document of an object whose newest version is a
  partial update is only that update, and after a run it is all versions merged: the answer of the
  query service changes although nothing was written. It stays the same only if merging the update
  into what was there gives the update.
\<close>

theorem shrinking_changes_answers:
  assumes "primary_key t"
    and "newer_than t r"
  shows "documents (t @ [r]) (row_object_id r) = Some (row_payload r) \<and>
    documents (shrink_object (row_object_id r) (t @ [r])) (row_object_id r) =
      Some (case documents (shrink_object (row_object_id r) t) (row_object_id r) of None \<Rightarrow> row_payload r
        | Some doc \<Rightarrow> merge_json doc (row_payload r))"
proof -
  have d: "documents (shrink_object i u) i = map_option row_payload (merged_row i u)" if "primary_key u" for i u
    using shrink_object_rows [OF that, of i]
    by (auto simp: documents_def rows_of_latest rows_of_empty_iff split: option.splits)
  note b = merged_row_snoc [OF assms]
  from b d [OF assms(1)] d [of "t @ [r]"] show ?thesis
    by (auto simp: documents_def split: option.split)
qed

section \<open>Concrete runs\<close>

text \<open>Identifiers written in unary, two versions of object 1, and a query service over them.\<close>

definition unary :: "uuid \<Rightarrow> string" where "unary i = replicate (unat i) CHR ''i''"

definition unary_parse :: "string \<Rightarrow> (string, uuid) result" where
  "unary_parse s = (if list_all (\<lambda>c. c = CHR ''i'') s then Inr (of_nat (length s)) else Inl ''invalid'')"

lemma inj_unary: "inj unary"
  by (rule injI) (metis length_replicate unary_def word_unat_eq_iff)

lemma unary_examples: "unary 1 = ''i''" "unary 2 = ''ii''"
proof -
  have two: "unat (2 :: uuid) = Suc (Suc 0)" by simp
  show "unary 1 = ''i''" by (simp add: unary_def)
  show "unary 2 = ''ii''" unfolding unary_def two by simp
qed

lemma unary_parse_unary: "unary_parse (unary i) = Inr i"
  by (simp add: unary_parse_def unary_def list_all_iff)

definition demo_rows :: "insert_row list" where
  "demo_rows =
     [\<lparr>row_object_id = 1, row_version = 1, row_schema_id = 7, row_payload = JObject [(''a'', JBool True)]\<rparr>,
      \<lparr>row_object_id = 1, row_version = 2, row_schema_id = 8, row_payload = JObject [(''b'', JNull)]\<rparr>]"

abbreviation "demo_document_driver \<equiv> memory_driver ''cdl'' unary_parse unary (\<lambda>j. case j of JObject ((k, v) # _) \<Rightarrow> k | _ \<Rightarrow> [])"

abbreviation "demo_psql_query \<equiv> \<lparr>pq_pool = (), pq_schema = ''cdl''\<rparr>"

lemma demo_rows_ok: "primary_key demo_rows" "documents demo_rows 1 = Some (JObject [(''b'', JNull)])"
  "latest 1 demo_rows = Some \<lparr>row_object_id = 1, row_version = 2, row_schema_id = 8, row_payload = JObject [(''b'', JNull)]\<rparr>"
  by (simp_all add: primary_key_def demo_rows_def row_key_def documents_def latest_def rows_of_def)

theorem query_multiple_returns_latest_witness:
  "case psql_query_multiple demo_document_driver demo_psql_query [''i'', ''ii''] demo_rows of
     (Inl st, _) \<Rightarrow> st_code st = Internal
   | (Inr reply, _) \<Rightarrow> map_of reply ''i'' = Some ''b'' \<and> map_of reply ''ii'' = None"
proof -
  obtain r w' where run: "psql_query_multiple demo_document_driver demo_psql_query [''i'', ''ii''] demo_rows = (r, w')"
    by fastforce
  have ids: "collectR (map (qd_uuid_parse demo_document_driver) [''i'', ''ii'']) = Inr [1, 2]"
    by (simp add: memory_driver_def unary_parse_def)
  have none: "documents demo_rows 2 = None" by (simp add: documents_def latest_def rows_of_def demo_rows_def)
  have "document_reader demo_document_driver (\<lambda>w. w) (pq_schema demo_psql_query)"
    using memory_reader.document_reader_axioms by simp
  from query_multiple_returns_latest [OF this, of demo_rows, OF demo_rows_ok(1) _ run]
  have m: "case r of Inl st \<Rightarrow> st_code st = Internal
      | Inr reply \<Rightarrow> \<forall>i. map_of reply (unary i) =
        (if i \<in> {1, 2} then map_option (\<lambda>j. case j of JObject ((k, v) # _) \<Rightarrow> k | _ \<Rightarrow> []) (documents demo_rows i) else None)"
    unfolding ids by (auto simp: memory_driver_def inj_unary split: sum.split_asm)
  show ?thesis
  proof (cases r)
    case (Inr reply)
    with m have "map_of reply (unary 1) = Some ''b''" "map_of reply (unary 2) = None"
      by (simp_all add: demo_rows_ok none)
    with run Inr show ?thesis by (simp add: unary_examples)
  qed (use m run in simp)
qed

lemma memory_query_multiple:
  "collectR (map parse oids) = Inr ids \<Longrightarrow>
    psql_query_multiple (memory_driver sch parse print show_json) \<lparr>pq_pool = (), pq_schema = sch\<rparr> oids w =
    (Inr (collect_id_payload_rows (memory_driver sch parse print show_json) (sql_latest ids w)), w)"
  by (simp add: psql_query_multiple_def make_query_def psql_connect_def memory_driver_def bindE_def map_errE_def)

lemma memory_query_by_schema:
  "parse s = Inr i \<Longrightarrow>
    psql_query_by_schema (memory_driver sch parse print show_json) \<lparr>pq_pool = (), pq_schema = sch\<rparr> s w =
    (Inr (collect_id_payload_rows (memory_driver sch parse print show_json) (sql_schema_latest i w)), w)"
  by (simp add: psql_query_by_schema_def make_query_def psql_connect_def memory_driver_def bindE_def map_errE_def)

theorem query_by_schema_returns_current_witness:
  "\<exists>reply. psql_query_by_schema demo_document_driver demo_psql_query ''iiiiiii'' demo_rows = (Inr reply, demo_rows) \<and>
     map_of reply ''i'' = None"
proof -
  have p: "unary_parse ''iiiiiii'' = Inr 7" by (simp add: unary_parse_def)
  obtain reply where run: "psql_query_by_schema demo_document_driver demo_psql_query ''iiiiiii'' demo_rows = (Inr reply, demo_rows)"
    using memory_query_by_schema [of unary_parse "''iiiiiii''" 7] p by blast
  have "document_reader demo_document_driver (\<lambda>w. w) (pq_schema demo_psql_query)"
    using memory_reader.document_reader_axioms by simp
  from query_by_schema_returns_current [OF this demo_rows_ok(1) _ run] p
  have "\<forall>i. map_of reply (unary i) = (case latest i demo_rows of None \<Rightarrow> None
      | Some r \<Rightarrow> if row_schema_id r = 7 then Some (qd_json_to_string demo_document_driver (row_payload r)) else None)"
    by (simp add: memory_driver_def inj_unary)
  then have "map_of reply (unary 1) = None" by (simp add: demo_rows_ok(3))
  with run show ?thesis by (auto simp: unary_examples)
qed

definition demo_update :: borrowed_insert_message where
  "demo_update = \<lparr>bi_object_id = 1, bi_schema_id = 7, bi_timestamp = 3, bi_data = ''c''\<rparr>"

abbreviation "demo_document_store \<equiv> memory_postgres ''cdl'' (\<lambda>s. Inr (JObject [(s, JNull)]))"

theorem stored_document_is_read_witness:
  "\<exists>w1 reply. postgres_handle demo_document_store \<lparr>pp_pool = (), pp_schema = ''cdl''\<rparr> demo_update demo_rows = (Success, w1) \<and>
     psql_query_multiple demo_document_driver demo_psql_query [''i''] w1 = (Inr reply, w1) \<and> map_of reply ''i'' = Some ''c''"
proof -
  let ?row = "\<lparr>row_object_id = 1, row_version = 3, row_schema_id = 7, row_payload = JObject [(''c'', JNull)]\<rparr>"
  have w: "postgres_handle demo_document_store \<lparr>pp_pool = (), pp_schema = ''cdl''\<rparr> demo_update demo_rows =
      (Success, demo_rows @ [?row])"
    by (simp add: postgres_handle_def memory_postgres_def demo_update_def sql_insert_def demo_rows_def row_key_def)
  have p: "collectR (map unary_parse [''i'']) = Inr [1]" by (simp add: unary_parse_def)
  obtain reply where run: "psql_query_multiple demo_document_driver demo_psql_query [''i''] (demo_rows @ [?row]) =
      (Inr reply, demo_rows @ [?row])"
    using memory_query_multiple [of unary_parse "[''i'']" "[1]"] p by blast
  have oid: "bi_object_id demo_update = (1 :: uuid)" "bi_timestamp demo_update = 3" "bi_data demo_update = ''c''"
    by (simp_all add: demo_update_def)
  have pr: "qd_uuid_to_string demo_document_driver = unary" "qd_uuid_parse demo_document_driver = unary_parse"
    by (simp_all add: memory_driver_def)
  from stored_document_is_read [OF memory_writer.document_writer_axioms memory_reader.document_reader_axioms
      demo_rows_ok(1) _ _ _ _ w, of unary_parse unary "\<lambda>j. case j of JObject ((k, v) # _) \<Rightarrow> k | _ \<Rightarrow> []"
      demo_psql_query reply "demo_rows @ [?row]"] run
  obtain j where j: "pg_from_str demo_document_store ''c'' = Inr j" and r: "map_of reply ''i'' =
      (if \<forall>d \<in> set demo_rows. row_object_id d = 1 \<longrightarrow> sint (row_version d) \<le> sint (3 :: i64)
       then Some (qd_json_to_string demo_document_driver j)
       else map_option (qd_json_to_string demo_document_driver) (documents demo_rows 1))"
    using unary_parse_unary [of 1]
    by (auto simp: pr oid inj_unary unary_examples simp del: if_split cong: if_cong)
  have "\<forall>d \<in> set demo_rows. row_object_id d = 1 \<longrightarrow> sint (row_version d) \<le> sint (3 :: i64)"
    by (simp add: demo_rows_def)
  with j r have "map_of reply ''i'' = Some ''c''" by (auto simp: memory_postgres_def memory_driver_def)
  with w run show ?thesis by blast
qed

theorem shrinker_merges_versions_witness:
  "case shrinker_main (memory_shrinker ''cdl'' unary) \<lparr>so_username = [], so_password = [], so_host = [], so_port = 5432,
       so_dbname = [], so_schema = ''cdl''\<rparr> \<lparr>ms_path = [], ms_table = demo_rows, ms_pending = []\<rparr> of
     (Inr _, w') \<Rightarrow> rows_of 1 (ms_table w') = [\<lparr>row_object_id = 1, row_version = 2, row_schema_id = 8,
         row_payload = JObject [(''a'', JBool True), (''b'', JNull)]\<rparr>]
   | (Inl _, w') \<Rightarrow> length (rows_of 1 (ms_table w')) \<in> {1, 2}"
proof -
  let ?opts = "\<lparr>so_username = [], so_password = [], so_host = [], so_port = 5432, so_dbname = [],
      so_schema = ''cdl''\<rparr>" and ?w = "\<lparr>ms_path = [], ms_table = demo_rows, ms_pending = []\<rparr>"
  obtain r w' where run: "shrinker_main (memory_shrinker ''cdl'' unary) ?opts ?w = (r, w')" by fastforce
  have m: "merged_row 1 demo_rows = Some \<lparr>row_object_id = 1, row_version = 2, row_schema_id = 8,
      row_payload = JObject [(''a'', JBool True), (''b'', JNull)]\<rparr>"
    by (simp add: merged_row_def demo_rows_ok(3)) (simp add: demo_rows_def sql_versions_def rows_of_def minimize_document_def)
  have l: "length (rows_of 1 demo_rows) = 2" by (simp add: rows_of_def demo_rows_def)
  have "shrinker_database (memory_shrinker ''cdl'' unary) ms_table ms_path (\<lambda>x. ms_pending) (so_schema ?opts)"
    using memory_shrinker.shrinker_database_axioms by simp
  note main = shrinker_merges_versions [OF this _ run, unfolded memory_session.simps]
  have "case r of
      Inr _ \<Rightarrow> \<forall>i. rows_of i (ms_table w') = (case merged_row i demo_rows of None \<Rightarrow> [] | Some row \<Rightarrow> [row])
    | Inl _ \<Rightarrow> \<forall>i. rows_of i (ms_table w') = rows_of i demo_rows \<or>
        rows_of i (ms_table w') = (case merged_row i demo_rows of None \<Rightarrow> [] | Some row \<Rightarrow> [row])"
    by (rule main) (rule demo_rows_ok)
  then show ?thesis using l m run by (cases r) (auto dest: spec [of _ 1])
qed

text \<open>The newest version of the object in the table so far, and an update to it.\<close>

definition demo_delta :: insert_row where
  "demo_delta = \<lparr>row_object_id = 1, row_version = 3, row_schema_id = 8, row_payload = JObject [(''c'', JBool False)]\<rparr>"

lemma demo_delta_newer: "newer_than demo_rows demo_delta"
  by (simp add: newer_than_def demo_rows_def demo_delta_def)


theorem shrinking_changes_answers_witness:
  "documents (demo_rows @ [demo_delta]) 1 = Some (JObject [(''c'', JBool False)]) \<and>
   documents (shrink_object 1 (demo_rows @ [demo_delta])) 1 \<noteq> Some (JObject [(''c'', JBool False)])"
proof -
  have d: "documents (shrink_object 1 demo_rows) 1 = Some (JObject [(''a'', JBool True), (''b'', JNull)])"
    by (simp add: shrink_object_def sql_versions_def demo_rows_def rows_of_def minimize_document_def documents_def
        latest_def sql_update_payload_def sql_delete_older_def)
  have "row_object_id demo_delta = 1" "row_payload demo_delta = JObject [(''c'', JBool False)]"
    by (simp_all add: demo_delta_def)
  with shrinking_changes_answers [OF demo_rows_ok(1) demo_delta_newer] d show ?thesis by simp
qed

end
