(* ===== verification/Query_Service_Ts.thy ===== *)
theory Query_Service_Ts
  imports Document_Props
begin

text \<open>
  The time-series query service: \<open>victoria.rs\<close> and \<open>druid.rs\<close> of the crate query-service-ts. The
  HTTP client (reqwest, with its pool) is a parameter: what it sends is a value of \<open>http_call\<close>.
  The last section relates what the service selects on to what the Victoria Metrics plugin of the
  command service writes.
\<close>

section \<open>The HTTP client\<close>

datatype http_call =
    PostForm string "(string \<times> string) list"
  | GetQuery string "(string \<times> string) list"
  | PostJson string json
  | PostBody string string

text \<open>
  A connection of the pool is a client. The trait \<open>ManageConnection\<close> of both managers: a new
  client is made without an error, every client is valid, and none is ever broken.
\<close>

record ('w, 'k) manage_connection =
  mc_connect :: "('w, string, 'k) op"
  mc_is_valid :: "'k \<Rightarrow> ('w, string, 'k) op"
  mc_has_broken :: "'k \<Rightarrow> bool"

definition victoria_connection_manager :: "'k \<Rightarrow> ('w, 'k) manage_connection" where
  "victoria_connection_manager client =
     \<lparr>mc_connect = returnE client, mc_is_valid = (\<lambda>conn. returnE conn), mc_has_broken = (\<lambda>conn. False)\<rparr>"

definition druid_connection_manager :: "'k \<Rightarrow> ('w, 'k) manage_connection" where
  "druid_connection_manager client =
     \<lparr>mc_connect = returnE client, mc_is_valid = (\<lambda>conn. returnE conn), mc_has_broken = (\<lambda>conn. False)\<rparr>"

record raw_statement_parameters =
  rs_method :: string
  rs_endpoint :: string
  rs_queries :: "(string \<times> string) list"

record ('w, 'p, 'k, 'r) http_client =
  hc_build_pool :: "('w, 'k) manage_connection \<Rightarrow> (string, 'p) result"
  hc_new :: 'k
  hc_get :: "'p \<Rightarrow> ('w, string, 'k) op"
  hc_send :: "'k \<Rightarrow> http_call \<Rightarrow> ('w, string, 'r) op"
  hc_text :: "'r \<Rightarrow> ('w, string, string) op"
  hc_bytes :: "'r \<Rightarrow> ('w, string, string) op"
  hc_parameters_from_str :: "string \<Rightarrow> (string, raw_statement_parameters) result"

definition http_connect :: "('w, 'p, 'k, 'r) http_client \<Rightarrow> 'p \<Rightarrow> ('w, status, 'k) op" where
  "http_connect H pool =
     map_errE (\<lambda>err. internal_status (''Unable to connect to database: '' @ err)) (hc_get H pool)"

section \<open>Victoria Metrics\<close>

record 'p victoria_query =
  vq_pool :: 'p
  vq_addr :: string

definition victoria_load :: "('w, 'p, 'k, 'r) http_client \<Rightarrow> string \<Rightarrow> (anyhow, 'p victoria_query) result" where
  "victoria_load H victoria_url =
     bindR (context_of ''Failed to build connection pool''
       (hc_build_pool H (victoria_connection_manager (hc_new H)))) (\<lambda>pool.
     Inr \<lparr>vq_pool = pool, vq_addr = victoria_url\<rparr>)"

definition victoria_query_db ::
  "('w, 'p, 'k, 'r) http_client \<Rightarrow> 'p victoria_query \<Rightarrow> string \<Rightarrow> string \<Rightarrow> (string \<times> string) list \<Rightarrow>
   ('w, status, string) op" where
  "victoria_query_db H v method endpoint query =
     bindE (http_connect H (vq_pool v)) (\<lambda>conn.
     bindE (let url = vq_addr v @ endpoint in
        if method = ''POST'' then returnE (PostForm url query)
        else if method = ''GET'' then returnE (GetQuery url query)
        else throwE (internal_status (''Method '' @ quoted method @
          '' not matched. Only POST and GET are currently supported''))) (\<lambda>request.
     bindE (map_errE (\<lambda>err. internal_status (''Error requesting value from VictoriaMetrics: '' @ err))
       (hc_send H conn request)) (\<lambda>response.
     map_errE (\<lambda>err. internal_status (''Failed to deserialize response from VictoriaMetrics: '' @ err))
       (hc_text H response))))"

definition object_selector :: "string \<Rightarrow> string" where
  "object_selector object_id = ''{object_id='' @ quoted object_id @ ''}''"

definition schema_selector :: "string \<Rightarrow> string" where
  "schema_selector schema_id = ''{__name__=~'' @ quoted (schema_id @ ''_.*'') @ ''}''"

definition range_parameters :: "ts_range \<Rightarrow> (string \<times> string) list" where
  "range_parameters rg =
     [(''query'', object_selector (tr_object_id rg))] @
     (if tr_start rg = [] then [] else [(''start'', tr_start rg)]) @
     (if tr_end rg = [] then [] else [(''end'', tr_end rg)]) @
     (if tr_step rg = [] then [] else [(''step'', tr_step rg)])"

definition victoria_query_by_range ::
  "('w, 'p, 'k, 'r) http_client \<Rightarrow> 'p victoria_query \<Rightarrow> ts_range \<Rightarrow> ('w, status, string) op" where
  "victoria_query_by_range H v rg = victoria_query_db H v ''GET'' ''/query_range'' (range_parameters rg)"

definition victoria_query_by_schema ::
  "('w, 'p, 'k, 'r) http_client \<Rightarrow> 'p victoria_query \<Rightarrow> string \<Rightarrow> ('w, status, string) op" where
  "victoria_query_by_schema H v schema_id =
     victoria_query_db H v ''GET'' ''/query'' [(''query'', schema_selector schema_id)]"

definition victoria_query_raw ::
  "('w, 'p, 'k, 'r) http_client \<Rightarrow> 'p victoria_query \<Rightarrow> string \<Rightarrow> ('w, status, string) op" where
  "victoria_query_raw H v raw_statement =
     bindE (liftR (map_err (\<lambda>e. internal_status (''Did not deserialize raw_statement: '' @ e))
       (hc_parameters_from_str H raw_statement))) (\<lambda>params.
     victoria_query_db H v (rs_method params) (rs_endpoint params) (rs_queries params))"

section \<open>Druid\<close>

record 'p druid_query =
  dq_pool :: 'p
  dq_addr :: string
  dq_table_name :: string

definition druid_load :: "('w, 'p, 'k, 'r) http_client \<Rightarrow> string \<Rightarrow> string \<Rightarrow> (anyhow, 'p druid_query) result" where
  "druid_load H druid_url druid_table_name =
     bindR (context_of ''Failed to build connection pool''
       (hc_build_pool H (druid_connection_manager (hc_new H)))) (\<lambda>pool.
     Inr \<lparr>dq_pool = pool, dq_addr = druid_url, dq_table_name = druid_table_name\<rparr>)"

definition druid_query_db ::
  "('w, 'p, 'k, 'r) http_client \<Rightarrow> 'p druid_query \<Rightarrow> json \<Rightarrow> ('w, status, string) op" where
  "druid_query_db H d query =
     bindE (http_connect H (dq_pool d)) (\<lambda>conn.
     bindE (map_errE (\<lambda>err. internal_status (''Error requesting value from druid: '' @ err))
       (hc_send H conn (PostJson (dq_addr d) query))) (\<lambda>response.
     map_errE (\<lambda>err. internal_status (''Failed to deserialize response from Druid: '' @ err)) (hc_text H response)))"

definition druid_raw :: "('w, 'p, 'k, 'r) http_client \<Rightarrow> 'p druid_query \<Rightarrow> string \<Rightarrow> ('w, status, string) op" where
  "druid_raw H d query =
     bindE (http_connect H (dq_pool d)) (\<lambda>conn.
     bindE (map_errE (\<lambda>err. internal_status (''Error when querying DRUID with raw query: '' @ err))
       (hc_send H conn (PostBody (dq_addr d) query))) (\<lambda>response.
     map_errE (\<lambda>err. internal_status (''Couldn'' @ [CHR 0x27] @ ''t retrieve respones bytes: '' @ err))
       (hc_bytes H response)))"

definition druid_selector :: "string \<Rightarrow> string \<Rightarrow> json" where
  "druid_selector dimension v =
     JObject [(''type'', JString ''selector''), (''dimension'', JString dimension), (''value'', JString v)]"

definition druid_range_query :: "'p druid_query \<Rightarrow> ts_range \<Rightarrow> json" where
  "druid_range_query d rg =
     JObject [(''queryType'', JString ''scan''), (''dataSource'', JString (dq_table_name d)), (''columns'', JArray []),
       (''filter'', JObject [(''type'', JString ''and''), (''fields'', JArray
          [druid_selector ''object_id'' (tr_object_id rg), druid_selector ''schema_id'' (tr_schema_id rg)])]),
       (''granularity'', JString (tr_step rg)),
       (''intervals'', JArray [JString (tr_start rg @ ''/'' @ tr_end rg)])]"

definition druid_schema_query :: "'p druid_query \<Rightarrow> string \<Rightarrow> json" where
  "druid_schema_query d schema_id =
     JObject [(''queryType'', JString ''scan''), (''dataSource'', JString (dq_table_name d)), (''columns'', JArray []),
       (''filter'', druid_selector ''schema_id'' schema_id), (''granularity'', JString ''none''),
       (''intervals'', JArray [JString ''2000-01-01T00:00Z/3000-01-01T00:00Z''])]"

definition druid_query_by_range ::
  "('w, 'p, 'k, 'r) http_client \<Rightarrow> 'p druid_query \<Rightarrow> ts_range \<Rightarrow> ('w, status, string) op" where
  "druid_query_by_range H d rg = druid_query_db H d (druid_range_query d rg)"

definition druid_query_by_schema ::
  "('w, 'p, 'k, 'r) http_client \<Rightarrow> 'p druid_query \<Rightarrow> string \<Rightarrow> ('w, status, string) op" where
  "druid_query_by_schema H d schema_id = druid_query_db H d (druid_schema_query d schema_id)"

definition druid_query_raw ::
  "('w, 'p, 'k, 'r) http_client \<Rightarrow> 'p druid_query \<Rightarrow> string \<Rightarrow> ('w, status, string) op" where
  "druid_query_raw H d raw_statement = druid_raw H d raw_statement"

section \<open>What was written and what is selected\<close>

text \<open>
  The labels of a line of the line protocol: the tags between the measurement and the first space.
  The label a selector of the form \<open>{label op "value"}\<close> tests.
\<close>

definition line_labels :: "string \<Rightarrow> (string \<times> string) list" where
  "line_labels line =
     map (\<lambda>tag. (takeWhile (\<lambda>c. c \<noteq> CHR ''='') tag, tl (dropWhile (\<lambda>c. c \<noteq> CHR ''='') tag)))
       (tl (split_on CHR '','' (takeWhile (\<lambda>c. c \<noteq> CHR '' '') line)))"

definition selector_label :: "string \<Rightarrow> string" where
  "selector_label selector = takeWhile (\<lambda>c. c \<noteq> CHR ''='') (tl selector)"

lemma takeWhile_no: "CHR '' '' \<notin> set x \<Longrightarrow> takeWhile (\<lambda>c. c \<noteq> CHR '' '') (x @ CHR '' '' # y) = x"
  by (induction x) auto

lemma split_on_app: "c \<notin> set x \<Longrightarrow> split_on c (x @ c # y) = x # split_on c y"
  by (induction x) auto

lemma split_on_none: "c \<notin> set x \<Longrightarrow> split_on c x = [x]"
  by (induction x) auto


definition demo_victoria :: "(unit, unit) victoria" where
  "demo_victoria = \<lparr>vm_join = (\<lambda>u s. Inr ()), vm_set_query = (\<lambda>u s. ()),
     vm_post = (\<lambda>u s w. (Inl ''down'', w)), vm_payloads_from_str = (\<lambda>s. Inl ''unused''),
     vm_value_to_string = (\<lambda>j. ''1''), vm_uuid_to_string = unary\<rparr>"


text \<open>
  The documents Druid ingests from the plugin's records (the derived \<open>Serialize\<close> of
  \<open>DruidOutputMessage\<close>), and the documented meaning of the filters the service sends.
\<close>

definition druid_document :: "(uuid \<Rightarrow> string) \<Rightarrow> druid_output \<Rightarrow> json" where
  "druid_document print r =
     JObject [(''fields'', do_fields r), (''ts'', JNumber (PosInt (do_ts r))),
       (''object_id'', JString (print (do_object_id r))), (''schema_id'', JString (print (do_schema_id r)))]"

definition selector_matches :: "json \<Rightarrow> json \<Rightarrow> bool" where
  "selector_matches f doc \<longleftrightarrow> json_get f ''type'' = Some (JString ''selector'') \<and>
     (case Option.bind (json_get f ''dimension'') as_str of
        None \<Rightarrow> False | Some d \<Rightarrow> json_get doc d \<noteq> None \<and> json_get doc d = json_get f ''value'')"

definition filter_matches :: "json \<Rightarrow> json \<Rightarrow> bool" where
  "filter_matches f doc \<longleftrightarrow> selector_matches f doc \<or>
     json_get f ''type'' = Some (JString ''and'') \<and>
     (case json_get f ''fields'' of Some (JArray fs) \<Rightarrow> list_all (\<lambda>g. selector_matches g doc) fs | _ \<Rightarrow> False)"

text \<open>
  In Druid a range query selects exactly the records the plugin wrote for that object under
  that schema, and a schema query exactly those of the schema.
\<close>

theorem written_records_are_selected:
  assumes "inj print"
  shows "(\<exists>f. json_get (druid_range_query d \<lparr>tr_schema_id = print s, tr_object_id = print i, tr_start = a, tr_end = b,
        tr_step = c\<rparr>) ''filter'' = Some f \<and>
      (filter_matches f (druid_document print r) \<longleftrightarrow> do_object_id r = i \<and> do_schema_id r = s)) \<and>
    (\<exists>f. json_get (druid_schema_query d (print s)) ''filter'' = Some f \<and>
      (filter_matches f (druid_document print r) \<longleftrightarrow> do_schema_id r = s))"
  using assms by (simp add: druid_range_query_def druid_schema_query_def filter_matches_def selector_matches_def
      druid_selector_def druid_document_def inj_eq eq_commute [of "do_object_id r"])

theorem written_records_are_selected_witness:
  "\<exists>f. json_get (druid_range_query \<lparr>dq_pool = (), dq_addr = ''druid'', dq_table_name = ''t''\<rparr> \<lparr>tr_schema_id = unary 1,
      tr_object_id = unary 2, tr_start = ''a'', tr_end = ''b'', tr_step = ''c''\<rparr>) ''filter'' = Some f \<and>
     filter_matches f (druid_document unary \<lparr>do_fields = JNull, do_ts = 0, do_object_id = 2, do_schema_id = 1\<rparr>)"
  using written_records_are_selected [OF inj_unary, of "\<lparr>dq_pool = (), dq_addr = ''druid'', dq_table_name = ''t''\<rparr>" 1 2 "''a''" "''b''" "''c''"
      "\<lparr>do_fields = JNull, do_ts = 0, do_object_id = 2, do_schema_id = 1\<rparr>"] by auto

end
