(* ===== verification/Service_Mains.thy ===== *)
theory Service_Mains
  imports Output_Plugins Query_Service_Ts
begin

text \<open>
  The \<open>main\<close> functions that choose what a process serves: the command service, with one of its
  three output plugins, and the two query services. Parsing the command line is structopt's; the
  parsed configurations are the arguments. Serving gRPC is a parameter.
\<close>

section \<open>The command service\<close>

datatype 'u output_args =
    PostgresArgs postgres_config
  | DruidArgs string string
  | VictoriaMetricsArgs 'u

record 'u command_args =
  ag_communication :: communication_args
  ag_output_config :: "'u output_args"
  ag_report_topic :: "string option"
  ag_metrics_port :: "16 word"

text \<open>
  A plugin is made from its configuration; the client that the Druid producer or the Victoria
  Metrics URL gives is put into the plugin's environment.
\<close>

definition output_plugin_new ::
  "('w, 'p, 'k) postgres \<Rightarrow> ((string \<times> string) list \<Rightarrow> (string, 'q) result) \<Rightarrow> ('q \<Rightarrow> 'w druid) \<Rightarrow> ('w, 'u) victoria \<Rightarrow>
   'u output_args \<Rightarrow> (string, 'w output_plugin) result" where
  "output_plugin_new P create druid_of V args =
     (case args of
        PostgresArgs config \<Rightarrow>
          bindR (map_err psql_error_to_string (postgres_plugin_new P config)) (\<lambda>plugin.
          Inr (postgres_output P plugin))
      | DruidArgs brokers topic \<Rightarrow>
          bindR (map_err druid_error_to_string (druid_plugin_new create brokers topic)) (\<lambda>(producer, topic).
          Inr (druid_output_plugin (druid_of producer) topic))
      | VictoriaMetricsArgs url \<Rightarrow>
          bindR (map_err victoria_error_to_string (victoria_plugin_new V url)) (\<lambda>url.
          Inr (victoria_output V url)))"

text \<open>
  \<open>main\<close> up to the point where the input listens or serves: a missing variable or a plugin that
  cannot be made is an error before any service starts.
\<close>

definition command_main ::
  "('k, 'n, 'h, 'a, 'o) mq_clients \<Rightarrow> (bool \<Rightarrow> 'o) \<Rightarrow>
   (string \<Rightarrow> (mq_error, 'w common_publisher) result) \<Rightarrow> (string \<Rightarrow> (mq_error, 'w common_publisher) result) \<Rightarrow>
   (string \<Rightarrow> (string, json) result) \<Rightarrow> (report_body \<Rightarrow> (string, string) result) \<Rightarrow>
   ('w, 'p, 'c) postgres \<Rightarrow> ((string \<times> string) list \<Rightarrow> (string, 'q) result) \<Rightarrow> ('q \<Rightarrow> 'w druid) \<Rightarrow> ('w, 'u) victoria \<Rightarrow>
   'u command_args \<Rightarrow> (string, ('k, 'a, 'w) start_outcome) result" where
  "command_main M exclusive new_kafka new_amqp from_str to_vec P create druid_of V args =
     bindR (map_err missing_config_to_string (communication_config (ag_communication args))) (\<lambda>config.
     bindR (output_plugin_new P create druid_of V (ag_output_config args)) (\<lambda>output.
     Inr (start_services M exclusive new_kafka new_amqp from_str to_vec config (ag_report_topic args) output)))"

text \<open>The name that reports carry is that of the chosen plugin.\<close>

lemma output_plugin_name:
  assumes "output_plugin_new P create druid_of V args = Inr output"
  shows "op_name output = (case args of PostgresArgs _ \<Rightarrow> ''PostgreSQL'' | DruidArgs _ _ \<Rightarrow> ''Druid timeseries''
    | VictoriaMetricsArgs _ \<Rightarrow> ''Victoria metrics'')"
  using assms
  by (auto simp: output_plugin_new_def bindR_Inr_iff postgres_output_def druid_output_plugin_def victoria_output_def
      split: output_args.splits)

text \<open>A service on PostgreSQL only starts with a schema name that cannot break out of its statement.\<close>

lemma postgres_needs_valid_schema:
  assumes "command_main M exclusive new_kafka new_amqp from_str to_vec P create druid_of V args = Inr outcome"
    and "ag_output_config args = PostgresArgs config"
  shows "validate_schema (pc_schema config)"
  using assms
  by (auto simp: command_main_def output_plugin_new_def bindR_Inr_iff postgres_plugin_new_def split: if_splits)

section \<open>The query services\<close>

definition spawn_server :: "('q \<Rightarrow> 16 word \<Rightarrow> (string, unit) result) \<Rightarrow> 'q \<Rightarrow> 16 word \<Rightarrow> (anyhow, unit) result" where
  "spawn_server serve service port = context_of ''gRPC server failed'' (serve service port)"

datatype query_service_type = PostgresService psql_config

record query_service_config =
  qs_inner :: query_service_type
  qs_input_port :: "16 word"
  qs_metrics_port :: "16 word"

definition query_service_main ::
  "('w, 'p, 'k, 'q) psql_driver \<Rightarrow> ('p psql_query \<Rightarrow> 16 word \<Rightarrow> (string, unit) result) \<Rightarrow>
   query_service_config \<Rightarrow> (anyhow, unit) result" where
  "query_service_main D serve config =
     (case qs_inner config of
        PostgresService psql_config \<Rightarrow>
          bindR (psql_load D psql_config) (\<lambda>service. spawn_server serve service (qs_input_port config)))"

datatype query_service_ts_type = VictoriaService string | DruidService string string

record query_service_ts_config =
  qt_inner :: query_service_ts_type
  qt_input_port :: "16 word"
  qt_metrics_port :: "16 word"

definition query_service_ts_main ::
  "('w, 'p, 'k, 'r) http_client \<Rightarrow> ('p victoria_query + 'p druid_query \<Rightarrow> 16 word \<Rightarrow> (string, unit) result) \<Rightarrow>
   query_service_ts_config \<Rightarrow> (anyhow, unit) result" where
  "query_service_ts_main H serve config =
     (case qt_inner config of
        VictoriaService victoria_url \<Rightarrow>
          bindR (victoria_load H victoria_url) (\<lambda>service. spawn_server serve (Inl service) (qt_input_port config))
      | DruidService druid_url druid_table_name \<Rightarrow>
          bindR (druid_load H druid_url druid_table_name) (\<lambda>service.
          spawn_server serve (Inr service) (qt_input_port config)))"

text \<open>A refused configuration is the same error whatever the server would answer.\<close>

lemma query_service_invalid_schema:
  assumes "qs_inner config = PostgresService psql" and "\<not> validate_schema (sc_schema psql)"
  shows "\<exists>e. \<forall>serve. query_service_main D serve config = Inl e"
  using assms
  by (cases "context_of ''Failed to build connection pool'' (qd_build_pool D psql)")
    (simp_all add: query_service_main_def psql_load_def)

end
