(* ===== verification/Lru_Cache.thy ===== *)
theory Lru_Cache
  imports Prelude
begin

text \<open>
  The cache the routers keep. \<open>lru_cache::LruCache\<close> is a third-party crate: its two calls are the
  fields of \<open>lru_ops\<close>, and the locale \<open>lru\<close> states what the routers rely on, through the map of the
  entries a cache holds. A lookup keeps the entries; an insertion adds its entry and may evict
  others. \<open>lru_list\<close> is a complete instance that keeps entries in order of use.
\<close>

record ('c, 'k, 'a) lru_ops =
  lru_get :: "'k \<Rightarrow> 'c \<Rightarrow> 'a option \<times> 'c"
  lru_insert :: "'k \<Rightarrow> 'a \<Rightarrow> 'c \<Rightarrow> 'c"

text \<open>
  How both routers use their cache: look the key up, and on a miss fetch the value and insert it.
  A failed fetch inserts nothing. The state is the cache beside the outside world.
\<close>

definition read_through ::
  "('c, 'k, 'a) lru_ops \<Rightarrow> ('k \<Rightarrow> ('w, 'e, 'a) op) \<Rightarrow> 'k \<Rightarrow> ('c \<times> 'w, 'e, 'a) op" where
  "read_through L fetch k =
     (\<lambda>(c, w). case lru_get L k c of
        (Some v, c) \<Rightarrow> (Inr v, (c, w))
      | (None, c) \<Rightarrow>
          (case fetch k w of
             (Inl e, w) \<Rightarrow> (Inl e, (c, w))
           | (Inr v, w) \<Rightarrow> (Inr v, (lru_insert L k v c, w))))"

locale lru =
  fixes L :: "('c, 'k, 'a) lru_ops" and contents :: "'c \<Rightarrow> 'k \<rightharpoonup> 'a"
  assumes get_value: "fst (lru_get L k c) = contents c k"
    and get_keeps: "contents (snd (lru_get L k c)) = contents c"
    and insert_bound: "contents (lru_insert L k v c) \<subseteq>\<^sub>m (contents c)(k \<mapsto> v)"
begin

text \<open>A predicate that all entries meet survives both calls when the new entry meets it.\<close>

lemma entries_get: "(\<forall>k v. contents c k = Some v \<longrightarrow> P k v) \<Longrightarrow>
    contents (snd (lru_get L k' c)) k = Some v \<Longrightarrow> P k v"
  by (simp add: get_keeps)

lemma entries_insert:
  assumes "\<forall>k v. contents c k = Some v \<longrightarrow> P k v" and "P k' v'"
    and "contents (lru_insert L k' v' c) k = Some v"
  shows "P k v"
proof -
  have "((contents c)(k' \<mapsto> v')) k = Some v"
    using insert_bound [of k' v' c] assms(3) by (metis domI map_le_def)
  with assms(1,2) show ?thesis by (auto split: if_splits)
qed

text \<open>A hit returns the entry and does not touch the world.\<close>

lemma read_through_hit:
  assumes "contents c k = Some v"
  shows "\<exists>c'. read_through L fetch k (c, w) = (Inr v, (c', w)) \<and> contents c' = contents c"
  using assms get_value [of k c] get_keeps [of k c]
  by (cases "lru_get L k c") (auto simp: read_through_def)

text \<open>If every fetch meets \<open>P\<close>, every entry and every answer does.\<close>

lemma read_through_coherent:
  assumes c: "\<forall>k v. contents c k = Some v \<longrightarrow> P k v"
    and fetch: "\<And>v w'. fetch k w = (Inr v, w') \<Longrightarrow> P k v"
    and run: "read_through L fetch k (c, w) = (r, (c', w'))"
  shows "(\<forall>k v. contents c' k = Some v \<longrightarrow> P k v) \<and> (\<forall>v. r = Inr v \<longrightarrow> P k v)"
proof -
  obtain q c1 where g: "lru_get L k c = (q, c1)" by fastforce
  then have c1: "contents c1 = contents c" and q: "q = contents c k"
    using get_keeps [of k c] get_value [of k c] by simp_all
  show ?thesis
  proof (cases q)
    case (Some v)
    then show ?thesis using g run c c1 q by (auto simp: read_through_def)
  next
    case None
    obtain f w1 where f: "fetch k w = (f, w1)" by fastforce
    show ?thesis
    proof (cases f)
      case (Inl e)
      then show ?thesis using g run c c1 None f by (auto simp: read_through_def)
    next
      case (Inr v)
      then have "c' = lru_insert L k v c1" "r = Inr v" using g run None f by (auto simp: read_through_def)
      then show ?thesis using entries_insert [of c1 P k v] c c1 fetch f Inr by auto
    qed
  qed
qed

end

section \<open>An instance\<close>

text \<open>A capacity and the entries, most recently used first.\<close>

record ('k, 'a) lru_list =
  ll_capacity :: nat
  ll_entries :: "('k \<times> 'a) list"

definition ll_touch :: "'k \<Rightarrow> 'a \<Rightarrow> ('k \<times> 'a) list \<Rightarrow> ('k \<times> 'a) list" where
  "ll_touch k v es = (k, v) # filter (\<lambda>(k', _). k' \<noteq> k) es"

definition ll_get :: "'k \<Rightarrow> ('k, 'a) lru_list \<Rightarrow> 'a option \<times> ('k, 'a) lru_list" where
  "ll_get k c =
     (case map_of (ll_entries c) k of
        None \<Rightarrow> (None, c)
      | Some v \<Rightarrow> (Some v, c\<lparr>ll_entries := ll_touch k v (ll_entries c)\<rparr>))"

definition ll_insert :: "'k \<Rightarrow> 'a \<Rightarrow> ('k, 'a) lru_list \<Rightarrow> ('k, 'a) lru_list" where
  "ll_insert k v c = c\<lparr>ll_entries := take (ll_capacity c) (ll_touch k v (ll_entries c))\<rparr>"

definition lru_list_ops :: "(('k, 'a) lru_list, 'k, 'a) lru_ops" where
  "lru_list_ops = \<lparr>lru_get = ll_get, lru_insert = ll_insert\<rparr>"

definition ll_contents :: "('k, 'a) lru_list \<Rightarrow> 'k \<rightharpoonup> 'a" where
  "ll_contents c = map_of (ll_entries c)"

lemma map_of_touch: "map_of (ll_touch k v es) = (map_of es)(k \<mapsto> v)"
  by (simp add: ll_touch_def map_of_filter_key)

lemma map_of_take_le: "map_of (take n es) \<subseteq>\<^sub>m map_of es"
proof -
  have "map_of es = map_of (drop n es) ++ map_of (take n es)"
    by (metis append_take_drop_id map_of_append)
  then show ?thesis by (simp add: map_le_map_add)
qed

interpretation lru_list: lru lru_list_ops ll_contents
proof (unfold_locales, goal_cases)
  case (2 k c)
  show ?case
    by (auto simp: lru_list_ops_def ll_get_def ll_contents_def map_of_touch fun_upd_idem split: option.splits)
next
  case (3 k v c)
  show ?case
    using map_of_take_le [of "ll_capacity c" "ll_touch k v (ll_entries c)"]
    by (simp add: lru_list_ops_def ll_contents_def ll_insert_def map_of_touch)
qed (simp add: lru_list_ops_def ll_get_def ll_contents_def split: option.splits)

lemma lru_list_lru: "lru lru_list_ops ll_contents"
  using lru_list.lru_axioms .

end
