(* ===== verification/Data_Router.thy ===== *)
theory Data_Router
  imports Rpc_Client Lru_Cache Task_Queue
begin

text \<open>
  The data router, \<open>data-router/src/main.rs\<close>: it consumes insert messages (one, or an array of
  them), asks the schema registry for the topic of each entry's schema through a cache, publishes
  every entry to that topic under the key of the message, reports a failure on the error topic and
  acknowledges the message.

  The state is the cache beside the outside world \<open>'w\<close> (the broker, the registry). An operation
  may fail with an \<open>anyhow\<close> error, which the handler reports, or end the process or the task.
\<close>

section \<open>Configuration\<close>

datatype message_queue_kind = Kafka | Amqp

record router_config =
  message_queue :: message_queue_kind
  kafka_brokers :: "string option"
  kafka_group_id :: "string option"
  amqp_connection_string :: "string option"
  amqp_consumer_tag :: "string option"
  input_topic_or_queue :: string
  error_topic_or_exchange :: string
  schema_registry_addr :: string
  cache_capacity :: nat
  task_limit :: nat

text \<open>The question mark operator turns an \<open>mq_error\<close> into an \<open>anyhow\<close> error.\<close>

definition mq_question :: "(mq_error, 'a) result \<Rightarrow> (anyhow, 'a) result" where
  "mq_question r = map_err (\<lambda>e. [mq_error_to_string e]) r"

definition new_producer ::
  "(string \<Rightarrow> (mq_error, 'p) result) \<Rightarrow> (string \<Rightarrow> (mq_error, 'p) result) \<Rightarrow> router_config \<Rightarrow>
   (anyhow, 'p) result" where
  "new_producer new_kafka new_amqp config =
     (case message_queue config of
        Kafka \<Rightarrow>
          bindR (ok_or [''kafka brokers were not specified''] (kafka_brokers config)) (\<lambda>brokers.
          mq_question (new_kafka brokers))
      | Amqp \<Rightarrow>
          bindR (ok_or [''amqp connection string was not specified''] (amqp_connection_string config))
            (\<lambda>connection_string. mq_question (new_amqp connection_string)))"

definition router_consumer_config :: "router_config \<Rightarrow> string \<Rightarrow> (anyhow, 'o consumer_config) result" where
  "router_consumer_config config topic_or_queue =
     (case message_queue config of
        Kafka \<Rightarrow>
          bindR (ok_or [''kafka brokers were not specified''] (kafka_brokers config)) (\<lambda>brokers.
          bindR (ok_or [''kafka group was not specified''] (kafka_group_id config)) (\<lambda>group_id.
          Inr (KafkaConsumerConfig group_id brokers topic_or_queue)))
      | Amqp \<Rightarrow>
          bindR (ok_or [''amqp connection string was not specified''] (amqp_connection_string config))
            (\<lambda>connection_string.
          bindR (ok_or [''amqp consumer tag was not specified''] (amqp_consumer_tag config)) (\<lambda>consumer_tag.
          Inr (AmqpConsumerConfig connection_string consumer_tag topic_or_queue None))))"

definition new_consumer ::
  "('k, 'n, 'h, 'a, 'o) mq_clients \<Rightarrow> router_config \<Rightarrow> string \<Rightarrow> (anyhow, ('k, 'a) common_consumer) result" where
  "new_consumer M config topic_or_queue =
     bindR (router_consumer_config config topic_or_queue) (\<lambda>config. mq_question (consumer_new M config))"

section \<open>Routing\<close>

text \<open>What the handler relies on: the cache crate, the clock, the registry, the producer, serde.\<close>

record ('c, 'w, 'k) router_env =
  re_lru :: "('c, uuid, string) lru_ops"
  re_clock :: "'w \<Rightarrow> int"
  re_registry :: "('w, 'k) registry_client"
  re_publisher :: "'w common_publisher"
  re_uuid_to_string :: "uuid \<Rightarrow> string"
  re_to_vec :: "borrowed_insert_message \<Rightarrow> (string, string) result"
  re_value_from_str :: "string \<Rightarrow> (string, json) result"
  re_entry_from_str :: "string \<Rightarrow> (string, data_router_insert_message) result"
  re_entries_from_str :: "string \<Rightarrow> (string, data_router_insert_message list) result"
  re_debug :: "anyhow \<Rightarrow> string"

datatype router_stop =
    RouteError anyhow
  | RouterAborted       \<comment> \<open>\<open>process::abort\<close>\<close>
  | RouterPanicked      \<comment> \<open>the clock is before the epoch\<close>
  | RouterAckDied ack_failure

type_synonym ('c, 'w, 'a) router_op = "('c \<times> 'w, router_stop, 'a) op"

definition on_world :: "('w, 'e, 'a) op \<Rightarrow> ('c \<times> 'w, 'e, 'a) op" where
  "on_world m = (\<lambda>(c, w). case m w of (r, w) \<Rightarrow> (r, (c, w)))"

text \<open>Any failure of the publisher ends the process.\<close>

definition send_message ::
  "('c, 'w, 'k) router_env \<Rightarrow> string \<Rightarrow> string \<Rightarrow> string \<Rightarrow> ('c, 'w, unit) router_op" where
  "send_message R topic_name key payload =
     on_world (map_errE (\<lambda>_. RouterAborted) (publish_message (re_publisher R) topic_name key payload))"

definition fetch_topic :: "('c, 'w, 'k) router_env \<Rightarrow> string \<Rightarrow> uuid \<Rightarrow> ('w, anyhow, string) op" where
  "fetch_topic R schema_addr schema_id =
     bindE (map_errE (\<lambda>e. [rpc_client_error_to_string e]) (connect_registry (re_registry R) schema_addr)) (\<lambda>client.
     map_errE (\<lambda>status. [status]) (rc_get_schema_topic (re_registry R) client (re_uuid_to_string R schema_id)))"

definition cached_schema_topic ::
  "('c, 'w, 'k) router_env \<Rightarrow> string \<Rightarrow> uuid \<Rightarrow> ('c, 'w, string) router_op" where
  "cached_schema_topic R schema_addr schema_id =
     map_errE RouteError (read_through (re_lru R) (fetch_topic R schema_addr) schema_id)"

definition route ::
  "('c, 'w, 'k) router_env \<Rightarrow> data_router_insert_message \<Rightarrow> string \<Rightarrow> string \<Rightarrow> ('c, 'w, unit) router_op" where
  "route R event message_key addr =
     (\<lambda>(c, w). case current_timestamp (re_clock R w) of
        None \<Rightarrow> (Inl RouterPanicked, (c, w))
      | Some now \<Rightarrow>
          (let payload = \<lparr>bi_object_id = dr_object_id event, bi_schema_id = dr_schema_id event,
                bi_timestamp = now, bi_data = dr_data event\<rparr> in
           bindE (cached_schema_topic R addr (bi_schema_id payload)) (\<lambda>topic_name.
           bindE (liftR (map_err (\<lambda>e. RouteError [e]) (re_to_vec R payload))) (\<lambda>bytes.
           send_message R topic_name message_key bytes)) (c, w)))"

text \<open>\<open>.context(..)\<close> on the result of \<open>route\<close>.\<close>

fun with_context :: "string \<Rightarrow> router_stop \<Rightarrow> router_stop" where
  "with_context message (RouteError e) = RouteError (message # e)"
| "with_context message stop = stop"

definition route_entry ::
  "('c, 'w, 'k) router_env \<Rightarrow> string \<Rightarrow> string \<Rightarrow> data_router_insert_message \<Rightarrow> ('c, 'w, unit) router_op" where
  "route_entry R message_key addr entry =
     map_errE (with_context ''Tried to send message and failed'') (route R entry message_key addr)"

text \<open>The loop over the entries of a multimessage keeps the last failure and goes on.\<close>

primrec route_entries ::
  "('c, 'w, 'k) router_env \<Rightarrow> string \<Rightarrow> string \<Rightarrow> data_router_insert_message list \<Rightarrow>
   (router_stop, unit) result \<Rightarrow> ('c, 'w, unit) router_op" where
  "route_entries R message_key addr [] outcome = liftR outcome"
| "route_entries R message_key addr (entry # entries) outcome =
     (\<lambda>s. case route_entry R message_key addr entry s of
        (Inr _, s) \<Rightarrow> route_entries R message_key addr entries outcome s
      | (Inl (RouteError e), s) \<Rightarrow> route_entries R message_key addr entries (Inl (RouteError e)) s
      | (Inl stop, s) \<Rightarrow> (Inl stop, s))"

definition deserialized :: "string \<Rightarrow> (string, 'a) result \<Rightarrow> ('c, 'w, 'a) router_op" where
  "deserialized message r = liftR (map_err RouteError (context_of message r))"

definition process_message ::
  "('c, 'w, 'k) router_env \<Rightarrow> string \<Rightarrow> string \<Rightarrow> 'w communication_message \<Rightarrow> ('c, 'w, unit) router_op" where
  "process_message R addr message_key message =
     bindE (liftR (map_err RouteError (mq_question (cm_payload message)))) (\<lambda>payload.
     bindE (deserialized ''Payload deserialization failed'' (re_value_from_str R payload)) (\<lambda>json_something.
     if is_array json_something then
       bindE (deserialized ''Payload deserialization failed, message is not a valid cdl message ''
          (re_entries_from_str R payload)) (\<lambda>entries.
       route_entries R message_key addr entries (Inr ()))
     else
       bindE (deserialized ''Payload deserialization failed, message is not a valid cdl message''
          (re_entry_from_str R payload)) (\<lambda>entry.
       route_entry R message_key addr entry)))"

definition acknowledge :: "'w communication_message \<Rightarrow> ('c, 'w, unit) router_op" where
  "acknowledge message =
     on_world (map_errE (\<lambda>e. case e of AckRefused _ \<Rightarrow> RouterAborted | AckDied failure \<Rightarrow> RouterAckDied failure)
       (cm_ack message))"

definition message_key_of :: "'w communication_message \<Rightarrow> string" where
  "message_key_of message = (case get_order_group_id message of None \<Rightarrow> [] | Some key \<Rightarrow> key)"

definition handle_message ::
  "('c, 'w, 'k) router_env \<Rightarrow> string \<Rightarrow> string \<Rightarrow> 'w communication_message \<Rightarrow> ('c, 'w, unit) router_op" where
  "handle_message R error_topic addr message =
     (\<lambda>s. case process_message R addr (message_key_of message) message s of
        (Inl (RouteError e), s) \<Rightarrow>
          thenE (send_message R error_topic ''data-router'' (re_debug R e)) (acknowledge message) s
      | (Inl stop, s) \<Rightarrow> (Inl stop, s)
      | (Inr _, s) \<Rightarrow> acknowledge message s)"

section \<open>Running in a steady world\<close>

text \<open>
  What an observer sees: messages published and messages acknowledged. In a steady world the
  registry's answers do not change, publishing succeeds and is observed, and serializing a
  message does not fail.
\<close>

datatype router_event = Sent string string string | Acked

definition steady ::
  "('c, 'w, 'k) router_env \<Rightarrow> string \<Rightarrow> ('w \<Rightarrow> router_event list) \<Rightarrow> (uuid \<Rightarrow> (anyhow, string) result) \<Rightarrow>
   (borrowed_insert_message \<Rightarrow> string) \<Rightarrow> bool" where
  "steady R addr obs topics vec \<longleftrightarrow>
     (\<forall>w. 0 \<le> re_clock R w) \<and>
     (\<forall>i w. \<exists>w'. fetch_topic R addr i w = (topics i, w') \<and> obs w' = obs w) \<and>
     (\<forall>t k p w. \<exists>w'. publish_message (re_publisher R) t k p w = (Inr (), w') \<and> obs w' = obs w @ [Sent t k p]) \<and>
     (\<forall>m. re_to_vec R m = Inr (vec m))"

definition acks_seen :: "('w \<Rightarrow> router_event list) \<Rightarrow> 'w communication_message \<Rightarrow> bool" where
  "acks_seen obs message \<longleftrightarrow> (\<forall>w. \<exists>w'. cm_ack message w = (Inr (), w') \<and> obs w' = obs w @ [Acked])"

text \<open>What one entry contributes: nothing if its topic is unknown, else one message to its topic.\<close>

definition entry_sent ::
  "(uuid \<Rightarrow> (anyhow, string) result) \<Rightarrow> (borrowed_insert_message \<Rightarrow> string) \<Rightarrow> string \<Rightarrow>
   data_router_insert_message \<Rightarrow> router_event list \<Rightarrow> bool" where
  "entry_sent topics vec key entry sent \<longleftrightarrow>
     (case topics (dr_schema_id entry) of
        Inl _ \<Rightarrow> sent = []
      | Inr topic \<Rightarrow> \<exists>now. sent = [Sent topic key (vec \<lparr>bi_object_id = dr_object_id entry,
          bi_schema_id = dr_schema_id entry, bi_timestamp = now, bi_data = dr_data entry\<rparr>)])"

definition entry_errors ::
  "(uuid \<Rightarrow> (anyhow, string) result) \<Rightarrow> data_router_insert_message list \<Rightarrow> anyhow list" where
  "entry_errors topics entries =
     concat (map (\<lambda>e. case topics (dr_schema_id e) of Inl x \<Rightarrow> [x] | Inr _ \<Rightarrow> []) entries)"

abbreviation coherent :: "('c \<Rightarrow> uuid \<rightharpoonup> string) \<Rightarrow> (uuid \<Rightarrow> (anyhow, string) result) \<Rightarrow> 'c \<Rightarrow> bool" where
  "coherent contents topics c \<equiv> (\<forall>i t. contents c i = Some t \<longrightarrow> topics i = Inr t)"

lemma cached_topic_steady:
  assumes lru: "lru (re_lru R) contents" and st: "steady R addr obs topics vec"
    and c: "coherent contents topics c"
  shows "\<exists>c' w'. cached_schema_topic R addr i (c, w) = (map_err RouteError (topics i), (c', w')) \<and>
    coherent contents topics c' \<and> obs w' = obs w"
proof -
  obtain r c' w' where run: "read_through (re_lru R) (fetch_topic R addr) i (c, w) = (r, (c', w'))"
    by (metis prod.exhaust)
  obtain q c1 where g: "lru_get (re_lru R) i c = (q, c1)" by fastforce
  then have q: "q = contents c i" using lru.get_value [OF lru, of i c] by simp
  obtain w1 where f: "fetch_topic R addr i w = (topics i, w1)" "obs w1 = obs w"
    using st unfolding steady_def by blast
  have "coherent contents topics c'"
    by (rule lru.read_through_coherent [OF lru c _ run, THEN conjunct1]) (use f in simp)
  moreover have "r = topics i \<and> obs w' = obs w"
  proof (cases q)
    case None
    show ?thesis
    proof (cases "topics i")
      case (Inl e)
      then show ?thesis using run g f None by (simp add: read_through_def)
    next
      case (Inr t)
      then show ?thesis using run g f None by (simp add: read_through_def)
    qed
  next
    case (Some t)
    then show ?thesis using run g q c by (auto simp: read_through_def)
  qed
  ultimately show ?thesis using run
    by (auto simp: cached_schema_topic_def map_errE_def map_err_def split: sum.splits)
qed

lemma route_entry_steady:
  assumes lru: "lru (re_lru R) contents" and st: "steady R addr obs topics vec"
    and c: "coherent contents topics c"
  shows "\<exists>c' w' sent. route_entry R key addr entry (c, w) =
      (case topics (dr_schema_id entry) of
         Inl e \<Rightarrow> Inl (RouteError (''Tried to send message and failed'' # e))
       | Inr _ \<Rightarrow> Inr (), (c', w')) \<and>
    coherent contents topics c' \<and> entry_sent topics vec key entry sent \<and> obs w' = obs w @ sent"
proof -
  have "\<not> re_clock R w < 0" using st by (simp add: steady_def not_less)
  then obtain now where now: "current_timestamp (re_clock R w) = Some now" by (simp add: current_timestamp_def)
  define payload where "payload = \<lparr>bi_object_id = dr_object_id entry, bi_schema_id = dr_schema_id entry,
    bi_timestamp = now, bi_data = dr_data entry\<rparr>"
  obtain c1 w1 where t: "cached_schema_topic R addr (dr_schema_id entry) (c, w) =
      (map_err RouteError (topics (dr_schema_id entry)), (c1, w1))"
    and c1: "coherent contents topics c1" "obs w1 = obs w"
    using cached_topic_steady [OF lru st c] by blast
  have vec: "re_to_vec R payload = Inr (vec payload)" using st by (simp add: steady_def)
  show ?thesis
  proof (cases "topics (dr_schema_id entry)")
    case (Inl e)
    then show ?thesis using c1 t
      by (auto simp: route_entry_def route_def now map_errE_def Let_def bindE_def map_err_def entry_sent_def)
  next
    case (Inr topic)
    obtain w2 where p: "publish_message (re_publisher R) topic key (vec payload) w1 = (Inr (), w2)"
        "obs w2 = obs w1 @ [Sent topic key (vec payload)]"
      using st unfolding steady_def by blast
    have "entry_sent topics vec key entry [Sent topic key (vec payload)]"
      unfolding entry_sent_def Inr payload_def by auto
    moreover have "route_entry R key addr entry (c, w) = (Inr (), (c1, w2))"
      using t vec p(1) unfolding Inr payload_def
      by (simp add: route_entry_def route_def now map_errE_def Let_def bindE_def map_err_def send_message_def
          on_world_def)
    ultimately show ?thesis using c1 p(2) Inr by auto
  qed
qed

lemma route_entries_steady:
  assumes lru: "lru (re_lru R) contents" and st: "steady R addr obs topics vec"
  shows "coherent contents topics c \<Longrightarrow>
    \<exists>c' w' sents. route_entries R key addr entries outcome (c, w) =
      (if entry_errors topics entries = [] then outcome
       else Inl (RouteError (''Tried to send message and failed'' # last (entry_errors topics entries))), (c', w')) \<and>
    coherent contents topics c' \<and> list_all2 (entry_sent topics vec key) entries sents \<and>
    obs w' = obs w @ concat sents"
proof (induction entries arbitrary: c w outcome)
  case Nil
  then show ?case by (auto simp: entry_errors_def)
next
  case (Cons entry entries)
  from route_entry_steady [OF lru st Cons.prems, of key entry w] obtain c1 w1 sent where
    one: "route_entry R key addr entry (c, w) =
      (case topics (dr_schema_id entry) of
         Inl e \<Rightarrow> Inl (RouteError (''Tried to send message and failed'' # e))
       | Inr _ \<Rightarrow> Inr (), (c1, w1))"
    and c1: "coherent contents topics c1" "entry_sent topics vec key entry sent" "obs w1 = obs w @ sent"
    by blast
  define outcome' where "outcome' = (case topics (dr_schema_id entry) of
      Inl e \<Rightarrow> Inl (RouteError (''Tried to send message and failed'' # e)) | Inr _ \<Rightarrow> outcome)"
  from Cons.IH [OF c1(1), of outcome' w1] obtain c2 w2 sents where
    rest: "route_entries R key addr entries outcome' (c1, w1) =
      (if entry_errors topics entries = [] then outcome'
       else Inl (RouteError (''Tried to send message and failed'' # last (entry_errors topics entries))), (c2, w2))"
    and c2: "coherent contents topics c2" "list_all2 (entry_sent topics vec key) entries sents"
      "obs w2 = obs w1 @ concat sents" by blast
  have step: "route_entries R key addr (entry # entries) outcome (c, w) = route_entries R key addr entries outcome' (c1, w1)"
    using one by (simp add: outcome'_def split: sum.splits)
  have sent: "list_all2 (entry_sent topics vec key) (entry # entries) (sent # sents)"
    "obs w2 = obs w @ concat (sent # sents)"
    using c1(2,3) c2(2,3) by simp_all
  have "(if entry_errors topics entries = [] then outcome'
       else Inl (RouteError (''Tried to send message and failed'' # last (entry_errors topics entries)))) =
    (if entry_errors topics (entry # entries) = [] then outcome
       else Inl (RouteError (''Tried to send message and failed'' # last (entry_errors topics (entry # entries)))))"
    by (auto simp: entry_errors_def outcome'_def split: sum.splits)
  with step rest show ?case using c2(1) sent
    by (intro exI [of _ c2] exI [of _ w2] exI [of _ "sent # sents"]) (simp only: simp_thms)
qed

text \<open>After the routing, the report and the acknowledgement.\<close>

lemma handle_message_steady:
  assumes st: "steady R addr obs topics vec" and ack: "acks_seen obs message"
    and run: "process_message R addr (message_key_of message) message (c, w) = (map_err RouteError r, (c', w'))"
  shows "\<exists>w''. handle_message R error_topic addr message (c, w) = (Inr (), (c', w'')) \<and>
    obs w'' = obs w' @ (case r of Inl e \<Rightarrow> [Sent error_topic ''data-router'' (re_debug R e)] | Inr _ \<Rightarrow> []) @ [Acked]"
proof (cases r)
  case (Inl e)
  obtain w1 where p: "publish_message (re_publisher R) error_topic ''data-router'' (re_debug R e) w' = (Inr (), w1)"
      "obs w1 = obs w' @ [Sent error_topic ''data-router'' (re_debug R e)]"
    using st unfolding steady_def by blast
  obtain w2 where "cm_ack message w1 = (Inr (), w2)" "obs w2 = obs w1 @ [Acked]"
    using ack unfolding acks_seen_def by blast
  with p run Inl show ?thesis
    by (simp add: handle_message_def map_err_def thenE_def bindE_def send_message_def acknowledge_def on_world_def
        map_errE_def)
next
  case (Inr u)
  obtain w2 where "cm_ack message w' = (Inr (), w2)" "obs w2 = obs w' @ [Acked]"
    using ack unfolding acks_seen_def by blast
  with run Inr show ?thesis
    by (simp add: handle_message_def map_err_def acknowledge_def on_world_def map_errE_def)
qed

end
