(* ===== verification/Router_Props.thy ===== *)
theory Router_Props
  imports Data_Router "HOL-Library.Multiset"
begin

text \<open>
  Properties of the data router: what is published, reported and acknowledged for a message, what
  the cache does to topics that change, and how the tasks of the main loop interleave.
\<close>

section \<open>A message and its entries\<close>

text \<open>
  C4. A multimessage in a steady world: every entry whose schema has a topic is published to that
  topic, under the key of the message and in the order of the entries, also after entries that
  failed; then, if any entry failed, the last failure is reported on the error topic; then the
  message is acknowledged, once. The cache stays in agreement with the registry.
\<close>

theorem multimessage_routing:
  assumes "lru (re_lru R) contents" and "steady R addr obs topics vec" and "acks_seen obs message"
    and "coherent contents topics c"
    and "cm_payload message = Inr payload" and "re_value_from_str R payload = Inr (JArray js)"
    and "re_entries_from_str R payload = Inr entries"
  shows "\<exists>c' w' sents. handle_message R error_topic addr message (c, w) = (Inr (), (c', w')) \<and>
    coherent contents topics c' \<and>
    list_all2 (entry_sent topics vec (message_key_of message)) entries sents \<and>
    obs w' = obs w @ concat sents @
      (if entry_errors topics entries = [] then []
       else [Sent error_topic ''data-router''
         (re_debug R (''Tried to send message and failed'' # last (entry_errors topics entries)))]) @ [Acked]"
proof -
  define r where "r = (if entry_errors topics entries = [] then Inr ()
    else Inl (''Tried to send message and failed'' # last (entry_errors topics entries)))"
  from route_entries_steady [OF assms(1,2,4), of "message_key_of message" entries "Inr ()" w]
  obtain c1 w1 sents where run: "route_entries R (message_key_of message) addr entries (Inr ()) (c, w) =
      (map_err RouteError r, (c1, w1))"
    and c1: "coherent contents topics c1" "list_all2 (entry_sent topics vec (message_key_of message)) entries sents"
      "obs w1 = obs w @ concat sents"
    by (auto simp: r_def map_err_def)
  have "process_message R addr (message_key_of message) message (c, w) = (map_err RouteError r, (c1, w1))"
    using run assms(5-7)
    by (simp add: process_message_def mq_question_def deserialized_def context_of_def map_err_def [of RouteError "Inr _"]
        map_err_def [of _ "Inr _"] bindE_def)
  from handle_message_steady [OF assms(2,3) this, of error_topic] c1 show ?thesis
    by (fastforce simp: r_def)
qed

text \<open>
  C26. A message that cannot be decoded is reported on the error topic and acknowledged; nothing
  else is published and the cache is not touched. Not a JSON value, or a JSON value that is not
  (an array of) insert messages, are both such.
\<close>

definition decode_error :: "('c, 'w, 'k) router_env \<Rightarrow> string \<Rightarrow> anyhow option" where
  "decode_error R payload =
     (case re_value_from_str R payload of
        Inl e \<Rightarrow> Some [''Payload deserialization failed'', e]
      | Inr j \<Rightarrow>
          if is_array j then
            (case re_entries_from_str R payload of
               Inl e \<Rightarrow> Some [''Payload deserialization failed, message is not a valid cdl message '', e]
             | Inr _ \<Rightarrow> None)
          else
            (case re_entry_from_str R payload of
               Inl e \<Rightarrow> Some [''Payload deserialization failed, message is not a valid cdl message'', e]
             | Inr _ \<Rightarrow> None))"

theorem undecodable_message_is_reported:
  assumes "steady R addr obs topics vec" and "acks_seen obs message"
    and "cm_payload message = Inr payload" and "decode_error R payload = Some e"
  shows "\<exists>w'. handle_message R error_topic addr message (c, w) = (Inr (), (c, w')) \<and>
    obs w' = obs w @ [Sent error_topic ''data-router'' (re_debug R e), Acked]"
proof -
  have "process_message R addr (message_key_of message) message (c, w) = (map_err RouteError (Inl e), (c, w))"
    using assms(3,4)
    by (auto simp: process_message_def mq_question_def deserialized_def context_of_def map_err_def bindE_def
        decode_error_def split: sum.splits if_splits)
  from handle_message_steady [OF assms(1,2) this, of error_topic] show ?thesis by simp
qed

text \<open>
  A cached topic is used whatever the registry says now: after a schema's topic has been
  changed in the registry, entries go on to the old topic while it stays in the cache, and the
  registry is not asked.
\<close>

theorem cached_topic_is_never_refreshed:
  assumes "lru (re_lru R) contents" and "contents c (dr_schema_id entry) = Some topic"
    and "current_timestamp (re_clock R w) = Some now"
    and "re_to_vec R \<lparr>bi_object_id = dr_object_id entry, bi_schema_id = dr_schema_id entry,
      bi_timestamp = now, bi_data = dr_data entry\<rparr> = Inr bytes"
  shows "\<exists>c'. contents c' = contents c \<and>
    route R entry key addr (c, w) = send_message R topic key bytes (c', w)"
proof -
  from lru.read_through_hit [OF assms(1,2), of "fetch_topic R addr" w] obtain c' where
    "read_through (re_lru R) (fetch_topic R addr) (dr_schema_id entry) (c, w) = (Inr topic, (c', w))"
    "contents c' = contents c" by blast
  then show ?thesis using assms(3,4)
    by (intro exI [of _ c']) (simp add: route_def cached_schema_topic_def map_errE_def Let_def bindE_def map_err_def)
qed

section \<open>The main loop\<close>

text \<open>
  The task the main loop spawns for a message runs a closure: it maps the order group to an async
  block that would acquire the permit of the group, binds that block to \<open>_guard\<close>, and awaits only
  the handler. The instructions of the closure say which futures are built and which are awaited.
\<close>

datatype task_instruction = BuildFuture string | AwaitPermit string | AwaitHandler

definition task_body :: "string option \<Rightarrow> task_instruction list" where
  "task_body order_group_id =
     (case order_group_id of None \<Rightarrow> [] | Some key \<Rightarrow> [BuildFuture key]) @ [AwaitHandler]"

text \<open>
  The loop over the messages \<open>'m\<close> still to come, the limiter, the permits, the running tasks with
  their remaining instructions, and the messages in the order their handlers ran.
\<close>

record 'm router_run =
  rr_incoming :: "'m list"
  rr_limiter :: task_limiter
  rr_queue :: task_queue
  rr_running :: "('m \<times> task_instruction list) list"
  rr_handled :: "'m list"

definition router_start :: "nat \<Rightarrow> 'm list \<Rightarrow> 'm router_run" where
  "router_start limit ms =
     \<lparr>rr_incoming = ms, rr_limiter = task_limiter_new limit, rr_queue = parallel_task_queue_new,
      rr_running = [], rr_handled = []\<rparr>"

text \<open>Task \<open>i\<close> executes one instruction.\<close>

fun run_instruction :: "nat \<Rightarrow> 'm \<Rightarrow> task_instruction list \<Rightarrow> 'm router_run \<Rightarrow> 'm router_run" where
  "run_instruction i m (BuildFuture key # rest) rr = rr\<lparr>rr_running := (rr_running rr)[i := (m, rest)]\<rparr>"
| "run_instruction i m (AwaitPermit key # rest) rr =
     rr\<lparr>rr_queue := snd (acquire_permit key (rr_queue rr)), rr_running := (rr_running rr)[i := (m, rest)]\<rparr>"
| "run_instruction i m (AwaitHandler # rest) rr =
     rr\<lparr>rr_handled := rr_handled rr @ [m], rr_running := (rr_running rr)[i := (m, rest)]\<rparr>"
| "run_instruction i m [] rr =
     rr\<lparr>rr_limiter := task_limiter_end (rr_limiter rr), rr_running := take i (rr_running rr) @ drop (Suc i) (rr_running rr)\<rparr>"

inductive router_step :: "('m \<Rightarrow> string option) \<Rightarrow> 'm router_run \<Rightarrow> 'm router_run \<Rightarrow> bool" for grp where
  router_spawn: "rr_incoming rr = m # ms \<Longrightarrow> task_limiter_run (rr_limiter rr) = Some l \<Longrightarrow>
    router_step grp rr (rr\<lparr>rr_incoming := ms, rr_limiter := l,
      rr_running := rr_running rr @ [(m, task_body (grp m))]\<rparr>)"
| router_run: "i < length (rr_running rr) \<Longrightarrow> rr_running rr ! i = (m, todo) \<Longrightarrow>
    router_step grp rr (run_instruction i m todo rr)"

inductive router_reaches :: "('m \<Rightarrow> string option) \<Rightarrow> 'm router_run \<Rightarrow> 'm router_run \<Rightarrow> bool" for grp where
  router_here: "router_reaches grp rr rr"
| router_more: "router_reaches grp rr rr' \<Longrightarrow> router_step grp rr' rr'' \<Longrightarrow> router_reaches grp rr rr''"

text \<open>A running task whose handler has not run yet counts as pending.\<close>

definition pending :: "'m router_run \<Rightarrow> 'm list" where
  "pending rr = map fst (filter (\<lambda>(m, todo). AwaitHandler \<in> set todo) (rr_running rr))"

definition router_inv :: "nat \<Rightarrow> 'm list \<Rightarrow> 'm router_run \<Rightarrow> bool" where
  "router_inv limit ms rr \<longleftrightarrow>
     mset (rr_incoming rr) + mset (pending rr) + mset (rr_handled rr) = mset ms \<and>
     rr_queue rr = parallel_task_queue_new \<and>
     running (rr_limiter rr) = length (rr_running rr) \<and>
     semaphore (rr_limiter rr) + running (rr_limiter rr) = limit \<and>
     (\<forall>(m, todo) \<in> set (rr_running rr). (\<exists>k. todo = [BuildFuture k, AwaitHandler]) \<or> todo = [AwaitHandler] \<or> todo = [])"

lemma router_step_inv:
  assumes "router_step grp rr rr'" and inv: "router_inv limit ms rr"
  shows "router_inv limit ms rr'"
  using assms(1)
proof cases
  case (router_spawn m ms' l)
  then show ?thesis using inv
    by (cases "grp m")
      (auto simp: router_inv_def pending_def task_body_def task_limiter_run_def split: if_splits)
next
  case (router_run i m todo)
  then obtain ls rs where split: "rr_running rr = ls @ (m, todo) # rs" "length ls = i"
    by (metis id_take_nth_drop length_take less_imp_le min.absorb2)
  then have "(\<exists>k. todo = [BuildFuture k, AwaitHandler]) \<or> todo = [AwaitHandler] \<or> todo = []"
    using inv by (auto simp: router_inv_def)
  then show ?thesis using inv split unfolding router_run(1)
    by (elim disjE exE; hypsubst) (auto simp: router_inv_def pending_def task_limiter_end_def)
qed

lemma router_reaches_inv: "router_reaches grp (router_start limit ms) rr \<Longrightarrow> router_inv limit ms rr"
proof (induction "router_start limit ms" rr rule: router_reaches.induct)
  case router_here
  show ?case
    by (simp add: router_inv_def router_start_def pending_def task_limiter_new_def)
next
  case (router_more rr' rr'')
  then show ?case using router_step_inv by blast
qed


lemma reaches_step: "router_reaches grp a b \<Longrightarrow> router_step grp b c \<Longrightarrow> c = d \<Longrightarrow> router_reaches grp a d"
  using router_more by blast

text \<open>
  Messages of one order group can be handled out of order: with room for two tasks, the second
  of two messages with the same key can be handled before the first, because the permit of the
  group is never acquired.
\<close>

theorem same_group_out_of_order:
  assumes "2 \<le> limit" and "grp m1 = Some key" and "grp m2 = Some key"
  shows "\<exists>rr. router_reaches grp (router_start limit [m1, m2]) rr \<and> rr_handled rr = [m2, m1]"
proof -
  let ?b = "[BuildFuture key, AwaitHandler]"
  let ?st = "\<lambda>inc sem ts h. \<lparr>rr_incoming = inc, rr_limiter = \<lparr>semaphore = limit - sem, running = sem\<rparr>,
    rr_queue = parallel_task_queue_new, rr_running = ts, rr_handled = h\<rparr>"
  have body: "task_body (grp m1) = ?b" "task_body (grp m2) = ?b"
    using assms(2,3) by (simp_all add: task_body_def)
  let ?R = "router_reaches grp (router_start limit [m1, m2])"
  have r0: "?R (?st [m1, m2] 0 [] [])"
    using router_here [of grp "router_start limit [m1, m2]"] by (simp add: router_start_def task_limiter_new_def)
  have r1: "?R (?st [m2] 1 [(m1, ?b)] [])"
    by (rule reaches_step [OF r0], rule router_spawn [where m = m1 and ms = "[m2]" and l = "\<lparr>semaphore = limit - 1, running = 1\<rparr>"])
      (use assms(1) body in \<open>simp_all add: task_limiter_run_def\<close>)
  have r2: "?R (?st [] 2 [(m1, ?b), (m2, ?b)] [])"
    by (rule reaches_step [OF r1], rule router_spawn [where m = m2 and ms = "[]" and l = "\<lparr>semaphore = limit - 2, running = 2\<rparr>"])
      (use assms(1) body in \<open>simp_all add: task_limiter_run_def\<close>)
  have r3: "?R (?st [] 2 [(m1, ?b), (m2, [AwaitHandler])] [])"
    by (rule reaches_step [OF r2], rule router_run [where i = 1 and m = m2 and todo = ?b]) simp_all
  have r4: "?R (?st [] 2 [(m1, ?b), (m2, [])] [m2])"
    by (rule reaches_step [OF r3], rule router_run [where i = 1 and m = m2 and todo = "[AwaitHandler]"]) simp_all
  have r5: "?R (?st [] 2 [(m1, [AwaitHandler]), (m2, [])] [m2])"
    by (rule reaches_step [OF r4], rule router_run [where i = 0 and m = m1 and todo = ?b]) simp_all
  have r6: "?R (?st [] 2 [(m1, []), (m2, [])] [m2, m1])"
    by (rule reaches_step [OF r5], rule router_run [where i = 0 and m = m1 and todo = "[AwaitHandler]"]) simp_all
  show ?thesis using r6 by force
qed

section \<open>A concrete router\<close>

text \<open>
  The world is the list of events seen so far; schemas 1 and 3 have topics, all others have none;
  a message text \<open>[..]\<close> is an array of one entry per character, the character being the schema.
\<close>

definition demo_topic :: "uuid \<Rightarrow> (anyhow, string) result" where
  "demo_topic i = (if i = 1 then Inr ''A'' else if i = 3 then Inr ''B'' else Inl [''not found''])"

definition demo_entry :: "uuid \<Rightarrow> data_router_insert_message" where
  "demo_entry i = \<lparr>dr_object_id = 9, dr_schema_id = i, dr_data = ''{}''\<rparr>"

definition demo_router :: "((uuid, string) lru_list, router_event list, unit) router_env" where
  "demo_router =
     \<lparr>re_lru = lru_list_ops, re_clock = (\<lambda>w. 5),
      re_registry = \<lparr>rc_connect = (\<lambda>addr w. (Inr (), w)),
        rc_get_schema_topic = (\<lambda>conn i w. (map_err hd (demo_topic (of_nat (length i))), w)),
        rc_get_schema_query_address = (\<lambda>conn i w. (Inl ''unused'', w)),
        rc_get_schema_type = (\<lambda>conn i w. (Inl ''unused'', w))\<rparr>,
      re_publisher = KafkaPublisher (\<lambda>topic payload key timeout w. (Inr (), w @ [Sent topic key payload])),
      re_uuid_to_string = (\<lambda>i. replicate (unat i) CHR ''x''),
      re_to_vec = (\<lambda>m. Inr (bi_data m)),
      re_value_from_str = (\<lambda>s. if s = [] then Inl ''EOF'' else if s = ''all'' then Inr (JArray []) else Inr JNull),
      re_entry_from_str = (\<lambda>s. if s = ''one'' then Inr (demo_entry 1) else Inl ''missing field''),
      re_entries_from_str = (\<lambda>s. Inr [demo_entry 1, demo_entry 2, demo_entry 3]),
      re_debug = concat\<rparr>"

definition demo_message :: "string \<Rightarrow> router_event list communication_message" where
  "demo_message payload = \<lparr>cm_payload = Inr payload, cm_key = Inr ''k'', cm_ack = (\<lambda>w. (Inr (), w @ [Acked]))\<rparr>"

definition empty_cache :: "(uuid, string) lru_list" where
  "empty_cache = \<lparr>ll_capacity = 2, ll_entries = []\<rparr>"

lemma demo_steady: "steady demo_router addr (\<lambda>w. w) demo_topic bi_data"
proof -
  have "fetch_topic demo_router addr i w = (demo_topic i, w)" for i w
    by (simp add: fetch_topic_def demo_router_def connect_registry_def rpc_connect_def bindE_def map_errE_def
        demo_topic_def map_err_def)
  then show ?thesis by (simp add: steady_def) (simp add: demo_router_def map_errE_def)
qed

lemma demo_lru: "lru (re_lru demo_router) ll_contents"
  using lru_list_lru by (simp add: demo_router_def)

theorem multimessage_routing_witness:
  "\<exists>s. handle_message demo_router ''errors'' ''r'' (demo_message ''all'') (empty_cache, []) = (Inr (), s) \<and>
     snd s = [Sent ''A'' ''k'' ''{}'', Sent ''B'' ''k'' ''{}'',
       Sent ''errors'' ''data-router'' ''Tried to send message and failednot found'', Acked]"
proof -
  have key: "message_key_of (demo_message p) = ''k''" for p
    by (simp add: message_key_of_def get_order_group_id_def demo_message_def)
  have d: "re_value_from_str demo_router ''all'' = Inr (JArray [])" "re_debug demo_router = concat"
    "re_entries_from_str demo_router ''all'' = Inr [demo_entry 1, demo_entry 2, demo_entry 3]"
    by (simp_all add: demo_router_def)
  have ack: "acks_seen (\<lambda>w. w) (demo_message ''all'')" "cm_payload (demo_message ''all'') = Inr ''all''"
    by (simp_all add: acks_seen_def demo_message_def)
  have none: "coherent ll_contents demo_topic empty_cache" by (simp add: ll_contents_def empty_cache_def)
  from multimessage_routing [OF demo_lru demo_steady ack(1) none ack(2) d(1,3), of "''errors''" "''r''" "[]"] show ?thesis
    by (auto simp: key d(2) entry_errors_def entry_sent_def demo_topic_def demo_entry_def list_all2_Cons1)
qed

theorem undecodable_message_is_reported_witness:
  "\<exists>w'. handle_message demo_router ''errors'' ''r'' (demo_message []) (empty_cache, []) = (Inr (), (empty_cache, w')) \<and>
     w' = [Sent ''errors'' ''data-router'' ''Payload deserialization failedEOF'', Acked]"
proof -
  have d: "decode_error demo_router [] = Some [''Payload deserialization failed'', ''EOF'']"
    "re_debug demo_router = concat"
    by (simp_all add: demo_router_def decode_error_def)
  have ack: "acks_seen (\<lambda>w. w) (demo_message [])" "cm_payload (demo_message []) = Inr []"
    by (simp_all add: acks_seen_def demo_message_def)
  from undecodable_message_is_reported [OF demo_steady ack d(1), of "''errors''" "''r''" empty_cache "[]"]
  show ?thesis by (simp add: d(2))
qed

theorem cached_topic_is_never_refreshed_witness:
  "\<exists>c'. route demo_router (demo_entry 1) ''k'' ''r'' (\<lparr>ll_capacity = 2, ll_entries = [(1, ''old'')]\<rparr>, []) =
     (Inr (), (c', [Sent ''old'' ''k'' ''{}''])) \<and> demo_topic 1 \<noteq> Inr ''old''"
proof -
  let ?c = "\<lparr>ll_capacity = 2, ll_entries = [(1, ''old'')]\<rparr> :: (uuid, string) lru_list"
  have "ll_contents ?c (dr_schema_id (demo_entry 1)) = Some ''old''"
    "current_timestamp (re_clock demo_router []) = Some 5"
    "re_to_vec demo_router \<lparr>bi_object_id = dr_object_id (demo_entry 1), bi_schema_id = dr_schema_id (demo_entry 1),
      bi_timestamp = 5, bi_data = dr_data (demo_entry 1)\<rparr> = Inr ''{}''"
    by (simp_all add: ll_contents_def demo_entry_def demo_router_def current_timestamp_def)
  from cached_topic_is_never_refreshed [OF demo_lru this, of "''k''" "''r''"] show ?thesis
    by (auto simp: send_message_def demo_router_def on_world_def map_errE_def demo_topic_def)
qed


theorem same_group_out_of_order_witness:
  "\<exists>rr. router_reaches (\<lambda>m. Some ''k'') (router_start 128 [''first'', ''second'']) rr \<and>
     rr_handled rr = [''second'', ''first'']"
  by (rule same_group_out_of_order) simp_all

end
