(* ===== verification/Registry_Client.thy ===== *)
theory Registry_Client
  imports Registry_Rpc Rpc_Client
begin

text \<open>
  The registry as its clients see it: the calls of the gRPC client that the GraphQL API and the
  command line tool use, over the requests and responses of \<open>Registry_Rpc\<close>. A status is represented
  by its text. \<open>direct_client\<close> is the client whose calls run on the node in the same process.
\<close>

record ('w, 'k) schema_registry_client =
  sr_connect :: "string \<Rightarrow> ('w, string, 'k) op"
  sr_get_schema :: "'k \<Rightarrow> rq_versioned_id \<Rightarrow> ('w, string, rs_schema_definition) op"
  sr_get_schema_metadata :: "'k \<Rightarrow> string \<Rightarrow> ('w, string, rs_schema) op"
  sr_get_schema_versions :: "'k \<Rightarrow> string \<Rightarrow> ('w, string, string list) op"
  sr_get_schema_topic :: "'k \<Rightarrow> string \<Rightarrow> ('w, string, string) op"
  sr_get_schema_query_address :: "'k \<Rightarrow> string \<Rightarrow> ('w, string, string) op"
  sr_get_schema_type :: "'k \<Rightarrow> string \<Rightarrow> ('w, string, i32) op"
  sr_get_all_schemas :: "'k \<Rightarrow> ('w, string, (string \<times> rs_schema) list) op"
  sr_get_all_schema_names :: "'k \<Rightarrow> ('w, string, (string \<times> string) list) op"
  sr_get_view :: "'k \<Rightarrow> string \<Rightarrow> ('w, string, rs_view) op"
  sr_get_all_views_of_schema :: "'k \<Rightarrow> string \<Rightarrow> ('w, string, (string \<times> rs_view) list) op"
  sr_add_schema :: "'k \<Rightarrow> rq_new_schema \<Rightarrow> ('w, string, string) op"
  sr_add_schema_version :: "'k \<Rightarrow> rq_new_schema_version \<Rightarrow> ('w, string, unit) op"
  sr_add_view_to_schema :: "'k \<Rightarrow> rq_new_schema_view \<Rightarrow> ('w, string, string) op"
  sr_update_view :: "'k \<Rightarrow> rq_updated_view \<Rightarrow> ('w, string, rs_view) op"
  sr_update_schema_metadata :: "'k \<Rightarrow> rq_schema_metadata_update \<Rightarrow> ('w, string, unit) op"
  sr_validate_value :: "'k \<Rightarrow> rq_value_to_validate \<Rightarrow> ('w, string, string list) op"

definition sr_open :: "('w, 'k) schema_registry_client \<Rightarrow> string \<Rightarrow> ('w, rpc_client_error, 'k) op" where
  "sr_open C addr = rpc_connect ''schema registry'' (sr_connect C) addr"

text \<open>A client in the process of the node. What went wrong in a call is reduced to a text.\<close>

fun failure_text :: "rpc_failure \<Rightarrow> string" where
  "failure_text (Refused st) = st_message st"
| "failure_text Panicked = ''panicked''"
| "failure_text Aborted = ''aborted''"

definition direct_client ::
  "('s, 'v, 'r) crates \<Rightarrow> (string \<Rightarrow> (string, bool) result) \<Rightarrow> (('s, 'v) node, unit) schema_registry_client" where
  "direct_client E topic_exists =
     \<lparr>sr_connect = (\<lambda>addr. returnE ()),
      sr_get_schema = (\<lambda>k q. map_errE failure_text (rpc_get_schema E q)),
      sr_get_schema_metadata = (\<lambda>k i. map_errE failure_text (rpc_get_schema_metadata E i)),
      sr_get_schema_versions = (\<lambda>k i. map_errE failure_text (rpc_get_schema_versions E i)),
      sr_get_schema_topic = (\<lambda>k i. map_errE failure_text (rpc_get_schema_topic E i)),
      sr_get_schema_query_address = (\<lambda>k i. map_errE failure_text (rpc_get_schema_query_address E i)),
      sr_get_schema_type = (\<lambda>k i. map_errE failure_text (rpc_get_schema_type E i)),
      sr_get_all_schemas = (\<lambda>k. map_errE failure_text (rpc_get_all_schemas E)),
      sr_get_all_schema_names = (\<lambda>k. map_errE failure_text (rpc_get_all_schema_names E)),
      sr_get_view = (\<lambda>k i. map_errE failure_text (rpc_get_view E i)),
      sr_get_all_views_of_schema = (\<lambda>k i. map_errE failure_text (rpc_get_all_views_of_schema E i)),
      sr_add_schema = (\<lambda>k q. map_errE failure_text (rpc_add_schema E topic_exists q)),
      sr_add_schema_version = (\<lambda>k q. map_errE failure_text (rpc_add_schema_version E q)),
      sr_add_view_to_schema = (\<lambda>k q. map_errE failure_text (rpc_add_view_to_schema E q)),
      sr_update_view = (\<lambda>k q. map_errE failure_text (rpc_update_view E q)),
      sr_update_schema_metadata = (\<lambda>k q. map_errE failure_text (rpc_update_schema_metadata E topic_exists q)),
      sr_validate_value = (\<lambda>k q. map_errE failure_text (rpc_validate_value E q))\<rparr>"

section \<open>Lemmas on calls\<close>

lemma type_numbers [simp]:
  "schema_type_getter (schema_type_to_i32 t) = t" "schema_type_from_i32 (schema_type_to_i32 t) = Some t"
  by (cases t; simp add: schema_type_getter_def schema_type_from_i32_def)+

lemma rpc_db_Inr_iff: "rpc_db E m n = (Inr x, n') \<longleftrightarrow> (\<exists>s. m (node_db n) = (Inr x, s) \<and> n' = n\<lparr>node_db := s\<rparr>)"
  by (auto simp: rpc_db_def split: prod.splits sum.splits)

lemma replicate_keeps_db: "rpc_replicate_message ev n = (r, n') \<Longrightarrow> node_db n' = node_db n"
  by (auto simp: rpc_replicate_message_def lock_replication_def thenE_def bindE_def split: if_splits)

lemma require_topic_keeps: "require_topic E te topic n = (r, n') \<Longrightarrow> n' = n"
  by (auto simp: require_topic_def rpc_error_def split: sum.splits if_splits)

lemma rpc_add_schema_run:
  assumes "rpc_add_schema E te q n = (Inr reply, n')" and "rns_id q = []"
  obtains ns i where "json_from_str E (rns_definition q) = Inr (ns_definition ns)" "ns_name ns = rns_name q"
    "ns_kafka_topic ns = rns_topic q" "ns_query_address ns = rns_query_address q"
    "ns_schema_type ns = schema_type_getter (rns_schema_type q)"
    "add_schema E ns None (node_db n) = (Inr i, node_db n')" "reply = uuid_to_string E i"
proof -
  from assms obtain j n1 i n2 where
    j: "json_from_str E (rns_definition q) = Inr j"
    and n1: "require_topic E te (rns_topic q) n = (Inr (), n1)"
    and added: "rpc_db E (add_schema E \<lparr>ns_name = rns_name q, ns_definition = j, ns_kafka_topic = rns_topic q,
        ns_query_address = rns_query_address q, ns_schema_type = schema_type_getter (rns_schema_type q)\<rparr> None) n1 = (Inr i, n2)"
    and repl: "\<exists>ev. rpc_replicate_message ev n2 = (Inr (), n')" and reply: "reply = uuid_to_string E i"
    by (clarsimp simp: rpc_add_schema_def rpc_pure_def parse_optional_uuid_def parse_json_def bindE_Inr_iff
        thenE_Inr_iff Let_def) blast
  from repl obtain ev where "rpc_replicate_message ev n2 = (Inr (), n')" ..
  from replicate_keeps_db [OF this] require_topic_keeps [OF n1] added show ?thesis
    by (intro that [of "\<lparr>ns_name = rns_name q, ns_definition = j, ns_kafka_topic = rns_topic q,
        ns_query_address = rns_query_address q, ns_schema_type = schema_type_getter (rns_schema_type q)\<rparr>" i])
      (auto simp: j reply rpc_db_Inr_iff)
qed

end
