(* ===== verification/Query_Router.thy ===== *)
theory Query_Router
  imports Rpc_Client Lru_Cache Registry_Types
begin

text \<open>
  The query router: \<open>cache.rs\<close>, \<open>error.rs\<close>, \<open>handler.rs\<close> and the routes of \<open>main.rs\<close>. It learns
  a schema's query service and type from the registry through a cache and forwards the query to
  the document or the time-series service. The state is the cache beside the outside world.
\<close>

section \<open>Errors\<close>

datatype query_router_error =
    RouterClientError rpc_client_error
  | JsonError string
  | SingleQueryMissingValue
  | RawQueryMissingValue
  | WrongValueFormat

text \<open>
  \<open>recover\<close>: the message of the JSON reply with status 500, or \<open>None\<close> for a rejection that is not
  one of these errors.
\<close>

definition recover :: "query_router_error option \<Rightarrow> (string \<times> nat) option" where
  "recover rejection =
     map_option (\<lambda>error.
       (case error of
          RouterClientError err \<Rightarrow> rpc_client_error_to_string err
        | JsonError err \<Rightarrow> ''Unable to serialize JSON: '' @ err
        | SingleQueryMissingValue \<Rightarrow> []
        | WrongValueFormat \<Rightarrow> []
        | RawQueryMissingValue \<Rightarrow> [], 500)) rejection"

section \<open>The cache\<close>

record ('c, 'w, 'k, 'q, 't) query_router_env =
  qe_lru :: "('c, uuid, string \<times> schema_type) lru_ops"
  qe_registry :: "('w, 'k) registry_client"
  qe_query :: "('w, 'q) query_client"
  qe_ts_query :: "('w, 't) ts_query_client"
  qe_uuid_to_string :: "uuid \<Rightarrow> string"
  qe_from_slice :: "string \<Rightarrow> (string, json) result"
  qe_map_to_vec :: "(string \<times> json) list \<Rightarrow> (string, string) result"
  qe_registry_addr :: string

type_synonym ('c, 'w, 'a) query_op = "('c \<times> 'w, query_router_error, 'a) op"

definition fetch_schema_info ::
  "('c, 'w, 'k, 'q, 't) query_router_env \<Rightarrow> uuid \<Rightarrow> ('w, query_router_error, string \<times> schema_type) op" where
  "fetch_schema_info Q schema_id =
     bindE (map_errE RouterClientError (connect_registry (qe_registry Q) (qe_registry_addr Q))) (\<lambda>conn.
     bindE (map_errE (\<lambda>err. RouterClientError (QueryError ''schema registry'' err))
        (rc_get_schema_query_address (qe_registry Q) conn (qe_uuid_to_string Q schema_id))) (\<lambda>address.
     bindE (map_errE (\<lambda>err. RouterClientError (QueryError ''schema registry'' err))
        (rc_get_schema_type (qe_registry Q) conn (qe_uuid_to_string Q schema_id))) (\<lambda>type.
     returnE (address, schema_type_getter type))))"

definition get_schema_info ::
  "('c, 'w, 'k, 'q, 't) query_router_env \<Rightarrow> uuid \<Rightarrow> ('c, 'w, string \<times> schema_type) query_op" where
  "get_schema_info Q schema_id = read_through (qe_lru Q) (fetch_schema_info Q) schema_id"

definition outside :: "('w, rpc_client_error, 'a) op \<Rightarrow> ('c, 'w, 'a) query_op" where
  "outside m = (\<lambda>(c, w). case map_errE RouterClientError m w of (r, w) \<Rightarrow> (r, (c, w)))"

section \<open>Request bodies\<close>

datatype query_body =
    BodyRange string string string
  | BodyRaw string
  | BodyEmpty

text \<open>
  The derived \<open>Deserialize\<close> of an untagged enum tries the variants in order. A struct variant is
  read from an object only, where unknown keys are skipped, a missing or repeated key is an error,
  and a field must be a text. The keys of the object are those of the text of the body, so here
  they may repeat.
\<close>

definition text_field :: "(string \<times> json) list \<Rightarrow> string \<Rightarrow> string option" where
  "text_field kvs k = (case filter (\<lambda>(k', v). k' = k) kvs of [(_, v)] \<Rightarrow> as_str v | _ \<Rightarrow> None)"

fun body_range :: "json \<Rightarrow> query_body option" where
  "body_range (JObject kvs) =
     (case (text_field kvs ''from'', text_field kvs ''to'', text_field kvs ''step'') of
        (Some f, Some t, Some s) \<Rightarrow> Some (BodyRange f t s)
      | _ \<Rightarrow> None)"
| "body_range _ = None"

fun body_raw :: "json \<Rightarrow> query_body option" where
  "body_raw (JObject kvs) = map_option BodyRaw (text_field kvs ''raw_statement'')"
| "body_raw _ = None"

fun body_empty :: "json \<Rightarrow> query_body option" where
  "body_empty (JObject kvs) = Some BodyEmpty"
| "body_empty _ = None"

definition body_of_json :: "json \<Rightarrow> query_body option" where
  "body_of_json j =
     (case body_range j of Some b \<Rightarrow> Some b | None \<Rightarrow>
       (case body_raw j of Some b \<Rightarrow> Some b | None \<Rightarrow> body_empty j))"

text \<open>The derived \<open>Serialize\<close>.\<close>

fun json_of_body :: "query_body \<Rightarrow> json" where
  "json_of_body (BodyRange f t s) = JObject [(''from'', JString f), (''to'', JString t), (''step'', JString s)]"
| "json_of_body (BodyRaw s) = JObject [(''raw_statement'', JString s)]"
| "json_of_body BodyEmpty = JObject []"

section \<open>Handlers\<close>

definition query_single ::
  "('c, 'w, 'k, 'q, 't) query_router_env \<Rightarrow> uuid \<Rightarrow> uuid \<Rightarrow> query_body \<Rightarrow> ('c, 'w, string) query_op" where
  "query_single Q object_id schema_id request_body =
     bindE (get_schema_info Q schema_id) (\<lambda>(address, schema_type).
     case (schema_type, request_body) of
       (DocumentStorage, _) \<Rightarrow>
         bindE (outside (qs_query_multiple (qe_query Q) [qe_uuid_to_string Q object_id] address)) (\<lambda>values.
         liftR (ok_or SingleQueryMissingValue (map_of values (qe_uuid_to_string Q object_id))))
     | (Timeseries, BodyRange f t s) \<Rightarrow>
         outside (qts_query_by_range (qe_ts_query Q) (qe_uuid_to_string Q schema_id)
           (qe_uuid_to_string Q object_id) f t s address)
     | (Timeseries, BodyEmpty) \<Rightarrow> throwE SingleQueryMissingValue
     | (_, BodyRaw _) \<Rightarrow> throwE WrongValueFormat)"

definition byte_map_to_json_map ::
  "('c, 'w, 'k, 'q, 't) query_router_env \<Rightarrow> byte_map \<Rightarrow> (query_router_error, (string \<times> json) list) result" where
  "byte_map_to_json_map Q values =
     collectR (map (\<lambda>(oid, v). bindR (map_err JsonError (qe_from_slice Q v)) (\<lambda>j. Inr (oid, j))) values)"

definition json_map_reply ::
  "('c, 'w, 'k, 'q, 't) query_router_env \<Rightarrow> byte_map \<Rightarrow> ('c, 'w, string) query_op" where
  "json_map_reply Q values =
     bindE (liftR (byte_map_to_json_map Q values)) (\<lambda>m. liftR (map_err JsonError (qe_map_to_vec Q m)))"

definition query_multiple ::
  "('c, 'w, 'k, 'q, 't) query_router_env \<Rightarrow> string \<Rightarrow> uuid \<Rightarrow> ('c, 'w, string) query_op" where
  "query_multiple Q object_ids schema_id =
     bindE (get_schema_info Q schema_id) (\<lambda>(address, _).
     bindE (outside (qs_query_multiple (qe_query Q) (split_on CHR '','' object_ids) address)) (json_map_reply Q))"

definition query_by_schema :: "('c, 'w, 'k, 'q, 't) query_router_env \<Rightarrow> uuid \<Rightarrow> ('c, 'w, string) query_op" where
  "query_by_schema Q schema_id =
     bindE (get_schema_info Q schema_id) (\<lambda>(address, schema_type).
     case schema_type of
       DocumentStorage \<Rightarrow>
         bindE (outside (qs_query_by_schema (qe_query Q) (qe_uuid_to_string Q schema_id) address)) (json_map_reply Q)
     | Timeseries \<Rightarrow>
         outside (qts_query_by_schema (qe_ts_query Q) (qe_uuid_to_string Q schema_id) address))"

definition query_raw :: "('c, 'w, 'k, 'q, 't) query_router_env \<Rightarrow> uuid \<Rightarrow> query_body \<Rightarrow> ('c, 'w, string) query_op" where
  "query_raw Q schema_id request_body =
     bindE (get_schema_info Q schema_id) (\<lambda>(address, schema_type).
     case (request_body, schema_type) of
       (BodyRaw raw_statement, DocumentStorage) \<Rightarrow> outside (qs_query_raw (qe_query Q) raw_statement address)
     | (BodyRaw raw_statement, Timeseries) \<Rightarrow> outside (qts_query_raw (qe_ts_query Q) raw_statement address)
     | (BodyEmpty, _) \<Rightarrow> throwE RawQueryMissingValue
     | (BodyRange _ _ _, _) \<Rightarrow> throwE WrongValueFormat)"

section \<open>Routes\<close>

datatype http_method = GET | POST | OtherMethod

record http_request =
  hq_method :: http_method
  hq_path :: "string list"
  hq_schema_id :: "string option"
  hq_content_length :: "nat option"
  hq_body :: "json option"

datatype route_call =
    CallSingle uuid uuid query_body
  | CallRaw uuid query_body
  | CallMultiple string uuid
  | CallSchema uuid

text \<open>Bodies of up to 32 KiB with a declared length are read as JSON.\<close>

definition body_filter :: "http_request \<Rightarrow> query_body option" where
  "body_filter request =
     (case hq_content_length request of
        None \<Rightarrow> None
      | Some n \<Rightarrow> if n \<le> 1024 * 32 then Option.bind (hq_body request) body_of_json else None)"

definition schema_id_filter :: "(string \<Rightarrow> (string, uuid) result) \<Rightarrow> http_request \<Rightarrow> uuid option" where
  "schema_id_filter uuid_parse request = Option.bind (hq_schema_id request) (\<lambda>h. ok (uuid_parse h))"

text \<open>Which handler a request reaches; \<open>None\<close> is a rejection by the filters.\<close>

definition routes :: "(string \<Rightarrow> (string, uuid) result) \<Rightarrow> http_request \<Rightarrow> route_call option" where
  "routes uuid_parse request =
     (let single = (case hq_path request of
            [p, oid] \<Rightarrow> if p = ''single'' then
                Option.bind (ok (uuid_parse oid)) (\<lambda>oid.
                Option.bind (schema_id_filter uuid_parse request) (\<lambda>sid.
                Option.bind (body_filter request) (\<lambda>b. Some (CallSingle oid sid b)))) else None
          | _ \<Rightarrow> None);
          raw = (if hq_path request = [''raw''] then
              Option.bind (schema_id_filter uuid_parse request) (\<lambda>sid.
              Option.bind (body_filter request) (\<lambda>b. Some (CallRaw sid b))) else None);
          multiple = (case hq_path request of
            [p, oids] \<Rightarrow> if p = ''multiple'' then
                Option.bind (schema_id_filter uuid_parse request) (\<lambda>sid. Some (CallMultiple oids sid)) else None
          | _ \<Rightarrow> None);
          schema = (if hq_path request = [''schema''] then
              Option.bind (schema_id_filter uuid_parse request) (\<lambda>sid. Some (CallSchema sid)) else None)
      in case hq_method request of
           POST \<Rightarrow> (case single of Some c \<Rightarrow> Some c | None \<Rightarrow> raw)
         | GET \<Rightarrow> (case multiple of Some c \<Rightarrow> Some c | None \<Rightarrow> schema)
         | OtherMethod \<Rightarrow> None)"

primrec run_call :: "('c, 'w, 'k, 'q, 't) query_router_env \<Rightarrow> route_call \<Rightarrow> ('c, 'w, string) query_op" where
  "run_call Q (CallSingle oid sid b) = query_single Q oid sid b"
| "run_call Q (CallRaw sid b) = query_raw Q sid b"
| "run_call Q (CallMultiple oids sid) = query_multiple Q oids sid"
| "run_call Q (CallSchema sid) = query_by_schema Q sid"

section \<open>Properties\<close>

text \<open>
  The body of a query reads back as it was written, a body is refused exactly when it is not a
  JSON object, and an object with the three texts of a range is a range whatever else it holds.
\<close>

theorem body_roundtrip:
  shows "body_of_json (json_of_body b) = Some b \<and>
    (body_of_json j = None \<longleftrightarrow> \<not> is_object j) \<and>
    ((\<forall>k \<in> fst ` set rest. k \<notin> {''from'', ''to'', ''step''}) \<longrightarrow>
      body_of_json (JObject (rest @ [(''from'', JString f), (''to'', JString t), (''step'', JString s)])) =
      Some (BodyRange f t s))"
proof -
  have "body_of_json (json_of_body b) = Some b"
    by (cases b) (simp_all add: body_of_json_def text_field_def)
  moreover have "body_of_json j = None \<longleftrightarrow> \<not> is_object j"
    by (cases j) (auto simp: body_of_json_def split: option.splits)
  moreover have "filter (\<lambda>(k', v). k' = k) rest = []"
    if "\<forall>k \<in> fst ` set rest. k \<notin> {''from'', ''to'', ''step''}" "k \<in> {''from'', ''to'', ''step''}" for k
    using that by (auto simp: filter_empty_conv)
  then have "body_of_json (JObject (rest @ [(''from'', JString f), (''to'', JString t), (''step'', JString s)])) =
      Some (BodyRange f t s)" if "\<forall>k \<in> fst ` set rest. k \<notin> {''from'', ''to'', ''step''}"
    using that by (simp add: body_of_json_def text_field_def)
  ultimately show ?thesis by blast
qed

theorem body_roundtrip_witness:
  "body_of_json (JObject [(''raw_statement'', JNull), (''from'', JString ''1''), (''to'', JString ''2''),
     (''step'', JString ''s'')]) = Some (BodyRange ''1'' ''2'' ''s'')"
  using body_roundtrip [of undefined undefined "[(''raw_statement'', JNull)]" "''1''" "''2''" "''s''"] by simp

text \<open>
  What the services answer and what the registry says, as seen by a steady world: no call changes
  the world, and every schema has one address and type.
\<close>

definition steady_services ::
  "('c, 'w, 'k, 'q, 't) query_router_env \<Rightarrow> (uuid \<Rightarrow> (query_router_error, string \<times> schema_type) result) \<Rightarrow> bool" where
  "steady_services Q info \<longleftrightarrow> (\<forall>i w. \<exists>w'. fetch_schema_info Q i w = (info i, w'))"

lemma get_schema_info_coherent:
  assumes lru: "lru (qe_lru Q) contents" and st: "steady_services Q info"
    and c: "\<forall>i v. contents c i = Some v \<longrightarrow> info i = Inr v"
  shows "\<exists>c' w'. get_schema_info Q i (c, w) = (info i, (c', w')) \<and>
    (\<forall>i v. contents c' i = Some v \<longrightarrow> info i = Inr v) \<and> (contents c i \<noteq> None \<longrightarrow> w' = w)"
proof -
  obtain r c' w' where run: "get_schema_info Q i (c, w) = (r, (c', w'))" by (metis prod.exhaust)
  obtain q c1 where g: "lru_get (qe_lru Q) i c = (q, c1)" by fastforce
  then have q: "q = contents c i" using lru.get_value [OF lru, of i c] by simp
  obtain w1 where f: "fetch_schema_info Q i w = (info i, w1)" using st unfolding steady_services_def by blast
  have "\<forall>i v. contents c' i = Some v \<longrightarrow> info i = Inr v"
    by (rule lru.read_through_coherent [OF lru c _ run [unfolded get_schema_info_def], THEN conjunct1])
      (use f in simp)
  moreover have "r = info i \<and> (contents c i \<noteq> None \<longrightarrow> w' = w)"
  proof (cases q)
    case None
    show ?thesis
    proof (cases "info i")
      case (Inl e)
      then show ?thesis using run g f None q by (simp add: get_schema_info_def read_through_def)
    next
      case (Inr v)
      then show ?thesis using run g f None q by (simp add: get_schema_info_def read_through_def)
    qed
  next
    case (Some v)
    with q have "contents c i = Some v" by simp
    with c have "info i = Inr v" by blast
    with Some show ?thesis using run g by (simp add: get_schema_info_def read_through_def)
  qed
  ultimately show ?thesis using run by blast
qed


text \<open>A steady registry that knows schema 1, a time series, and a query service that echoes.\<close>

definition demo_query_router :: "((uuid, string \<times> schema_type) lru_list, nat, unit, unit, string) query_router_env" where
  "demo_query_router =
     \<lparr>qe_lru = lru_list_ops,
      qe_registry = \<lparr>rc_connect = (\<lambda>addr w. (Inr (), w)),
        rc_get_schema_topic = (\<lambda>conn i w. (Inl ''unused'', w)),
        rc_get_schema_query_address = (\<lambda>conn i w. (if i = ''1'' then Inr ''ts'' else Inl ''not found'', Suc w)),
        rc_get_schema_type = (\<lambda>conn i w. (Inr 1, Suc w))\<rparr>,
      qe_query = \<lparr>qc_connect = (\<lambda>addr w. (Inl ''down'', w)), qc_query_multiple = (\<lambda>conn ids w. (Inl ''down'', w)),
        qc_query_by_schema = (\<lambda>conn i w. (Inl ''down'', w)), qc_query_raw = (\<lambda>conn s w. (Inl ''down'', w))\<rparr>,
      qe_ts_query = \<lparr>ts_connect = (\<lambda>addr w. (Inr addr, w)),
        ts_query_by_range = (\<lambda>conn range w. (Inr (conn @ tr_object_id range @ tr_start range), w)),
        ts_query_by_schema = (\<lambda>conn i w. (Inr i, w)), ts_query_raw = (\<lambda>conn s w. (Inr s, w))\<rparr>,
      qe_uuid_to_string = (\<lambda>i. if i = 1 then ''1'' else ''2''), qe_from_slice = (\<lambda>s. Inr JNull),
      qe_map_to_vec = (\<lambda>m. Inr []), qe_registry_addr = ''registry''\<rparr>"

definition demo_info :: "uuid \<Rightarrow> (query_router_error, string \<times> schema_type) result" where
  "demo_info i = (if i = 1 then Inr (''ts'', Timeseries)
     else Inl (RouterClientError (QueryError ''schema registry'' ''not found'')))"


end
