(* ===== verification/Graphql_Api.thy ===== *)
theory Graphql_Api
  imports Registry_Client Query_Router
begin

text \<open>
  The GraphQL API: \<open>config.rs\<close>, \<open>error.rs\<close>, \<open>schema/context.rs\<close>, \<open>schema/query.rs\<close>,
  \<open>schema/mutation.rs\<close>, \<open>schema/utils.rs\<close> and \<open>types\<close> of the crate api. A resolver is an operation
  on the outside world whose error is the text of juniper's \<open>FieldError\<close>. The event streams are in
  \<open>Api_Events\<close>; juniper, warp and reqwest are not modelled beyond the requests that are sent.
\<close>

section \<open>Configuration and errors\<close>

datatype api_message_queue = AmqpQueue | KafkaQueue

record message_queue_args =
  ma_message_queue :: api_message_queue
  ma_kafka_brokers :: "string option"
  ma_kafka_group_id :: "string option"
  ma_amqp_connection_string :: "string option"
  ma_amqp_consumer_tag :: "string option"

datatype message_queue_config =
    KafkaConfig string string
  | AmqpConfig string string

text \<open>\<open>KafkaConfig group_id brokers\<close> and \<open>AmqpConfig connection_string consumer_tag\<close>.\<close>

definition mq_args_config :: "message_queue_args \<Rightarrow> (anyhow, message_queue_config) result" where
  "mq_args_config a =
     (case ma_message_queue a of
        KafkaQueue \<Rightarrow>
          bindR (ok_or [''Missing kafka brokers''] (ma_kafka_brokers a)) (\<lambda>brokers.
          bindR (ok_or [''Missing kafka group''] (ma_kafka_group_id a)) (\<lambda>group_id.
          Inr (KafkaConfig group_id brokers)))
      | AmqpQueue \<Rightarrow>
          bindR (ok_or [''Missing AMQP connection string''] (ma_amqp_connection_string a)) (\<lambda>connection_string.
          bindR (ok_or [''Missing AMQP consumer tag''] (ma_amqp_consumer_tag a)) (\<lambda>consumer_tag.
          Inr (AmqpConfig connection_string consumer_tag))))"

record api_config =
  ac_schema_registry_addr :: string
  ac_query_router_addr :: string
  ac_input_port :: "16 word"
  ac_message_queue :: message_queue_args
  ac_report_topic_or_queue :: string
  ac_data_router_topic_or_queue :: string

datatype api_error = InvalidUuid string | InvalidSchemaTypeNumber i32 | PublisherError mq_error

definition i32_to_string :: "i32 \<Rightarrow> string" where
  "i32_to_string n = (if sint n < 0 then ''-'' @ nat_to_string (nat (- sint n)) else nat_to_string (nat (sint n)))"

fun api_error_to_string :: "api_error \<Rightarrow> string" where
  "api_error_to_string (InvalidUuid e) = ''Unable to parse UUID: '' @ e"
| "api_error_to_string (InvalidSchemaTypeNumber n) =
     ''Invalid schema type. Expected `0` or `1` but found `'' @ i32_to_string n @ ''`''"
| "api_error_to_string (PublisherError e) =
     ''Unable to connect to data router publisher: '' @ mq_error_to_string e"

text \<open>
  The question mark operator in a resolver: the error becomes its text; for an \<open>anyhow\<close> error that
  is the outermost context.
\<close>

definition field_err :: "('e \<Rightarrow> string) \<Rightarrow> ('w, 'e, 'a) op \<Rightarrow> ('w, string, 'a) op" where
  "field_err show m = map_errE show m"

definition anyhow_text :: "anyhow \<Rightarrow> string" where
  "anyhow_text e = hd e"

definition registry_text :: "string \<Rightarrow> string" where
  "registry_text err = rpc_client_error_to_string (rpc_registry_error err)"

section \<open>The context\<close>

text \<open>
  The clients of the context: the registry, the publishers, and the HTTP client, whose requests
  are those the query router reads.
\<close>

record ('w, 'k) api_env =
  ae_config :: api_config
  ae_registry :: "('w, 'k) schema_registry_client"
  ae_new_amqp :: "string \<Rightarrow> ('w, mq_error, 'w common_publisher) op"
  ae_new_kafka :: "string \<Rightarrow> ('w, mq_error, 'w common_publisher) op"
  ae_http :: "string \<Rightarrow> http_request \<Rightarrow> ('w, string, string) op"
  ae_json_from_slice :: "string \<Rightarrow> (string, json) result"
  ae_map_from_slice :: "string \<Rightarrow> (string, (uuid \<times> json) list) result"
  ae_json_to_string :: "json \<Rightarrow> (string, string) result"
  ae_uuid_parse :: "string \<Rightarrow> (string, uuid) result"
  ae_uuid_to_string :: "uuid \<Rightarrow> string"
  ae_new_v4 :: "'w \<Rightarrow> uuid \<times> 'w"
  ae_raw_value :: "string \<Rightarrow> (string, string) result"
  ae_message_to_vec :: "data_router_insert_message \<Rightarrow> (string, string) result"

definition connect_to_registry :: "('w, 'k) api_env \<Rightarrow> ('w, string, 'k) op" where
  "connect_to_registry A =
     field_err rpc_client_error_to_string (sr_open (ae_registry A) (ac_schema_registry_addr (ae_config A)))"

definition connect_to_data_router :: "('w, 'k) api_env \<Rightarrow> ('w, anyhow, 'w common_publisher) op" where
  "connect_to_data_router A =
     bindE (liftR (mq_args_config (ac_message_queue (ae_config A)))) (\<lambda>config.
     case config of
       AmqpConfig connection_string _ \<Rightarrow>
         map_errE (\<lambda>e. [''Unable to open RabbitMQ publisher for Data Router'', mq_error_to_string e])
           (ae_new_amqp A connection_string)
     | KafkaConfig _ brokers \<Rightarrow>
         map_errE (\<lambda>e. [''Unable to open Kafka publisher for Data Router'', mq_error_to_string e])
           (ae_new_kafka A brokers))"

section \<open>Types\<close>

record api_schema =
  as_id :: uuid
  as_name :: string
  as_topic :: string
  as_query_address :: string
  as_schema_type :: schema_type

record api_definition =
  ad_definition :: string
  ad_version :: string

record api_view =
  av_id :: uuid
  av_name :: string
  av_expression :: string

record api_new_schema =
  an_name :: string
  an_query_address :: string
  an_topic :: string
  an_definition :: string
  an_schema_type :: schema_type

record api_new_view =
  anv_name :: string
  anv_expression :: string

record api_new_version =
  anr_version :: string
  anr_definition :: string

record api_update_schema =
  au_name :: "string option"
  au_query_address :: "string option"
  au_topic :: "string option"
  au_schema_type :: "schema_type option"

record api_update_view =
  auv_name :: "string option"
  auv_expression :: "string option"

record input_message =
  im_object_id :: uuid
  im_schema_id :: uuid
  im_payload :: string

record cdl_object =
  co_object_id :: uuid
  co_data :: json

text \<open>The field \<open>data\<close> of an object: its JSON text, or the empty text if there is none.\<close>

definition cdl_object_data :: "('w, 'k) api_env \<Rightarrow> cdl_object \<Rightarrow> string" where
  "cdl_object_data A x = (case ae_json_to_string A (co_data x) of Inl _ \<Rightarrow> [] | Inr s \<Rightarrow> s)"

text \<open>The schema type enum of the API has the protobuf numbers.\<close>

definition api_type_of_i32 :: "i32 \<Rightarrow> (string, schema_type) result" where
  "api_type_of_i32 n = ok_or (api_error_to_string (InvalidSchemaTypeNumber n)) (schema_type_from_i32 n)"

section \<open>Queries\<close>

definition api_get_view :: "('w, 'k) api_env \<Rightarrow> 'k \<Rightarrow> uuid \<Rightarrow> ('w, string, api_view) op" where
  "api_get_view A conn i =
     bindE (field_err registry_text (sr_get_view (ae_registry A) conn (ae_uuid_to_string A i))) (\<lambda>view.
     returnE \<lparr>av_id = i, av_name = rs_view_name view, av_expression = rs_view_jmespath view\<rparr>)"

definition api_schema_of :: "uuid \<Rightarrow> rs_schema \<Rightarrow> (string, api_schema) result" where
  "api_schema_of i schema =
     bindR (api_type_of_i32 (rs_schema_type schema)) (\<lambda>t.
     Inr \<lparr>as_id = i, as_name = rs_name schema, as_topic = rs_topic schema,
          as_query_address = rs_query_address schema, as_schema_type = t\<rparr>)"

definition api_get_schema :: "('w, 'k) api_env \<Rightarrow> 'k \<Rightarrow> uuid \<Rightarrow> ('w, string, api_schema) op" where
  "api_get_schema A conn i =
     bindE (field_err registry_text (sr_get_schema_metadata (ae_registry A) conn (ae_uuid_to_string A i))) (\<lambda>schema.
     liftR (api_schema_of i schema))"

definition schema_definition_field ::
  "('w, 'k) api_env \<Rightarrow> api_schema \<Rightarrow> string \<Rightarrow> ('w, string, api_definition) op" where
  "schema_definition_field A self version =
     bindE (connect_to_registry A) (\<lambda>conn.
     bindE (field_err registry_text (sr_get_schema (ae_registry A) conn
       \<lparr>rvi_id = ae_uuid_to_string A (as_id self), rvi_version_req = version\<rparr>)) (\<lambda>def.
     returnE \<lparr>ad_definition = rsd_definition def, ad_version = rsd_version def\<rparr>))"

text \<open>One lookup per version, with an exact requirement.\<close>

primrec fetch_definitions ::
  "('w, 'k) api_env \<Rightarrow> 'k \<Rightarrow> string \<Rightarrow> string list \<Rightarrow> ('w, string, api_definition list) op" where
  "fetch_definitions A conn i [] = returnE []"
| "fetch_definitions A conn i (version # versions) =
     bindE (field_err registry_text (sr_get_schema (ae_registry A) conn
       \<lparr>rvi_id = i, rvi_version_req = ''='' @ version\<rparr>)) (\<lambda>def.
     bindE (fetch_definitions A conn i versions) (\<lambda>definitions.
     returnE (\<lparr>ad_definition = rsd_definition def, ad_version = rsd_version def\<rparr> # definitions)))"

definition schema_definitions_field ::
  "('w, 'k) api_env \<Rightarrow> api_schema \<Rightarrow> ('w, string, api_definition list) op" where
  "schema_definitions_field A self =
     bindE (connect_to_registry A) (\<lambda>conn.
     bindE (field_err registry_text (sr_get_schema_versions (ae_registry A) conn
       (ae_uuid_to_string A (as_id self)))) (\<lambda>versions.
     fetch_definitions A conn (ae_uuid_to_string A (as_id self)) versions))"

text \<open>The identifiers of a reply are parsed; the first malformed one fails the field.\<close>

definition parse_id :: "('w, 'k) api_env \<Rightarrow> string \<Rightarrow> (string, uuid) result" where
  "parse_id A s = map_err (\<lambda>e. api_error_to_string (InvalidUuid e)) (ae_uuid_parse A s)"

definition schema_views_field :: "('w, 'k) api_env \<Rightarrow> api_schema \<Rightarrow> ('w, string, api_view list) op" where
  "schema_views_field A self =
     bindE (connect_to_registry A) (\<lambda>conn.
     bindE (field_err registry_text (sr_get_all_views_of_schema (ae_registry A) conn
       (ae_uuid_to_string A (as_id self)))) (\<lambda>views.
     liftR (collectR (map (\<lambda>(i, view). bindR (parse_id A i) (\<lambda>i.
       Inr \<lparr>av_id = i, av_name = rs_view_name view, av_expression = rs_view_jmespath view\<rparr>)) views))))"

definition query_schema :: "('w, 'k) api_env \<Rightarrow> uuid \<Rightarrow> ('w, string, api_schema) op" where
  "query_schema A i = bindE (connect_to_registry A) (\<lambda>conn. api_get_schema A conn i)"

definition query_schemas :: "('w, 'k) api_env \<Rightarrow> ('w, string, api_schema list) op" where
  "query_schemas A =
     bindE (connect_to_registry A) (\<lambda>conn.
     bindE (field_err registry_text (sr_get_all_schemas (ae_registry A) conn)) (\<lambda>schemas.
     liftR (collectR (map (\<lambda>(i, schema). bindR (parse_id A i) (\<lambda>i. api_schema_of i schema)) schemas))))"

definition query_view :: "('w, 'k) api_env \<Rightarrow> uuid \<Rightarrow> ('w, string, api_view) op" where
  "query_view A i = bindE (connect_to_registry A) (\<lambda>conn. api_get_view A conn i)"

text \<open>
  Requests to the query router: the segments of the path, the header \<open>SCHEMA_ID\<close>, and for a post
  the body with its length.
\<close>

definition url_segments :: "string \<Rightarrow> string list" where
  "url_segments path = filter (\<lambda>s. s \<noteq> []) (split_on CHR ''/'' path)"

definition router_get :: "('w, 'k) api_env \<Rightarrow> string \<Rightarrow> uuid \<Rightarrow> http_request" where
  "router_get A path schema_id =
     \<lparr>hq_method = GET, hq_path = url_segments path, hq_schema_id = Some (ae_uuid_to_string A schema_id),
      hq_content_length = None, hq_body = None\<rparr>"

definition router_post_empty :: "('w, 'k) api_env \<Rightarrow> string \<Rightarrow> uuid \<Rightarrow> http_request" where
  "router_post_empty A path schema_id =
     \<lparr>hq_method = POST, hq_path = url_segments path, hq_schema_id = Some (ae_uuid_to_string A schema_id),
      hq_content_length = Some 2, hq_body = Some (JObject [])\<rparr>"

definition object_request :: "('w, 'k) api_env \<Rightarrow> uuid \<Rightarrow> uuid \<Rightarrow> http_request" where
  "object_request A object_id schema_id =
     router_post_empty A (''/single/'' @ ae_uuid_to_string A object_id) schema_id"

definition objects_request :: "('w, 'k) api_env \<Rightarrow> uuid list \<Rightarrow> uuid \<Rightarrow> http_request" where
  "objects_request A object_ids schema_id =
     router_get A (''/multiple/'' @ join_with '','' (map (ae_uuid_to_string A) object_ids)) schema_id"

definition schema_objects_request :: "('w, 'k) api_env \<Rightarrow> uuid \<Rightarrow> http_request" where
  "schema_objects_request A schema_id = router_get A ''/schema'' schema_id"

definition query_object :: "('w, 'k) api_env \<Rightarrow> uuid \<Rightarrow> uuid \<Rightarrow> ('w, string, cdl_object) op" where
  "query_object A object_id schema_id =
     bindE (ae_http A (ac_query_router_addr (ae_config A)) (object_request A object_id schema_id)) (\<lambda>bytes.
     bindE (liftR (ae_json_from_slice A bytes)) (\<lambda>data.
     returnE \<lparr>co_object_id = object_id, co_data = data\<rparr>))"

definition objects_of :: "(uuid \<times> json) list \<Rightarrow> cdl_object list" where
  "objects_of kvs = map (\<lambda>(object_id, data). \<lparr>co_object_id = object_id, co_data = data\<rparr>) kvs"

definition query_objects :: "('w, 'k) api_env \<Rightarrow> uuid list \<Rightarrow> uuid \<Rightarrow> ('w, string, cdl_object list) op" where
  "query_objects A object_ids schema_id =
     bindE (ae_http A (ac_query_router_addr (ae_config A)) (objects_request A object_ids schema_id)) (\<lambda>bytes.
     bindE (liftR (ae_map_from_slice A bytes)) (\<lambda>kvs. returnE (objects_of kvs)))"

definition query_schema_objects :: "('w, 'k) api_env \<Rightarrow> uuid \<Rightarrow> ('w, string, cdl_object list) op" where
  "query_schema_objects A schema_id =
     bindE (ae_http A (ac_query_router_addr (ae_config A)) (schema_objects_request A schema_id)) (\<lambda>bytes.
     bindE (liftR (ae_map_from_slice A bytes)) (\<lambda>kvs. returnE (objects_of kvs)))"

section \<open>Mutations\<close>

definition mutation_add_schema :: "('w, 'k) api_env \<Rightarrow> api_new_schema \<Rightarrow> ('w, string, api_schema) op" where
  "mutation_add_schema A new =
     bindE (connect_to_registry A) (\<lambda>conn.
     bindE (field_err registry_text (sr_add_schema (ae_registry A) conn
       \<lparr>rns_id = [], rns_name = an_name new, rns_query_address = an_query_address new, rns_topic = an_topic new,
        rns_definition = an_definition new, rns_schema_type = schema_type_to_i32 (an_schema_type new)\<rparr>)) (\<lambda>new_id.
     bindE (liftR (ae_uuid_parse A new_id)) (\<lambda>i.
     returnE \<lparr>as_id = i, as_name = an_name new, as_topic = an_topic new,
       as_query_address = an_query_address new, as_schema_type = an_schema_type new\<rparr>)))"

definition mutation_add_schema_definition ::
  "('w, 'k) api_env \<Rightarrow> uuid \<Rightarrow> api_new_version \<Rightarrow> ('w, string, api_definition) op" where
  "mutation_add_schema_definition A schema_id new_version =
     bindE (connect_to_registry A) (\<lambda>conn.
     bindE (field_err registry_text (sr_add_schema_version (ae_registry A) conn
       \<lparr>rnv_id = ae_uuid_to_string A schema_id, rnv_version = anr_version new_version,
        rnv_definition = anr_definition new_version\<rparr>)) (\<lambda>_.
     returnE \<lparr>ad_definition = anr_definition new_version, ad_version = anr_version new_version\<rparr>))"

definition mutation_add_view :: "('w, 'k) api_env \<Rightarrow> uuid \<Rightarrow> api_new_view \<Rightarrow> ('w, string, api_view) op" where
  "mutation_add_view A schema_id new_view =
     bindE (connect_to_registry A) (\<lambda>conn.
     bindE (field_err registry_text (sr_add_view_to_schema (ae_registry A) conn
       \<lparr>rsv_schema_id = ae_uuid_to_string A schema_id, rsv_view_id = [], rsv_name = anv_name new_view,
        rsv_jmespath = anv_expression new_view\<rparr>)) (\<lambda>new_id.
     bindE (liftR (ae_uuid_parse A new_id)) (\<lambda>i.
     returnE \<lparr>av_id = i, av_name = anv_name new_view, av_expression = anv_expression new_view\<rparr>)))"

definition mutation_update_view ::
  "('w, 'k) api_env \<Rightarrow> uuid \<Rightarrow> api_update_view \<Rightarrow> ('w, string, api_view) op" where
  "mutation_update_view A i update =
     bindE (connect_to_registry A) (\<lambda>conn.
     bindE (field_err registry_text (sr_update_view (ae_registry A) conn
       \<lparr>ruv_id = ae_uuid_to_string A i, ruv_name = auv_name update, ruv_jmespath = auv_expression update\<rparr>)) (\<lambda>_.
     api_get_view A conn i))"

definition mutation_update_schema ::
  "('w, 'k) api_env \<Rightarrow> uuid \<Rightarrow> api_update_schema \<Rightarrow> ('w, string, api_schema) op" where
  "mutation_update_schema A i update =
     bindE (connect_to_registry A) (\<lambda>conn.
     bindE (field_err registry_text (sr_update_schema_metadata (ae_registry A) conn
       \<lparr>rmu_id = ae_uuid_to_string A i, rmu_name = au_name update, rmu_topic = au_topic update,
        rmu_address = au_query_address update,
        rmu_schema_type = map_option schema_type_to_i32 (au_schema_type update)\<rparr>)) (\<lambda>_.
     api_get_schema A conn i))"

text \<open>The payload of a message for the data router: the given text must be JSON.\<close>

definition insert_payload :: "('w, 'k) api_env \<Rightarrow> input_message \<Rightarrow> (string, string) result" where
  "insert_payload A message =
     bindR (ae_raw_value A (im_payload message)) (\<lambda>raw.
     ae_message_to_vec A \<lparr>dr_object_id = im_object_id message, dr_schema_id = im_schema_id message, dr_data = raw\<rparr>)"

definition publish_input ::
  "('w, 'k) api_env \<Rightarrow> 'w common_publisher \<Rightarrow> string \<Rightarrow> input_message \<Rightarrow> ('w, string, unit) op" where
  "publish_input A publisher key message =
     bindE (liftR (insert_payload A message)) (\<lambda>payload.
     field_err (\<lambda>e. api_error_to_string (PublisherError e))
       (publish_message publisher (ac_data_router_topic_or_queue (ae_config A)) key payload))"

definition mutation_insert_message :: "('w, 'k) api_env \<Rightarrow> input_message \<Rightarrow> ('w, string, bool) op" where
  "mutation_insert_message A message =
     bindE (field_err anyhow_text (connect_to_data_router A)) (\<lambda>publisher.
     thenE (publish_input A publisher [] message) (returnE True))"

definition mutation_insert_batch :: "('w, 'k) api_env \<Rightarrow> input_message list \<Rightarrow> ('w, string, bool) op" where
  "mutation_insert_batch A messages =
     bindE (field_err anyhow_text (connect_to_data_router A)) (\<lambda>publisher w.
     case ae_new_v4 A w of
       (u, w) \<Rightarrow> (let order_group_id = ae_uuid_to_string A u in
         thenE (forE messages (publish_input A publisher order_group_id)) (returnE True) w))"

section \<open>The server\<close>

text \<open>
  Which service of \<open>main.rs\<close> a request reaches, by its method, the segments of its path and whether
  it asks for a websocket; \<open>None\<close> is a rejection. \<open>warp::path\<close> matches the first segment only, and
  the home page takes any method. A CORS preflight request is answered by warp and not routed.
\<close>

datatype api_endpoint = GraphiqlPage | Homepage | GraphqlEndpoint | SubscriptionsEndpoint

definition api_route :: "http_method \<Rightarrow> string list \<Rightarrow> bool \<Rightarrow> api_endpoint option" where
  "api_route verb path upgrade =
     (case path of
        [] \<Rightarrow> Some Homepage
      | p # _ \<Rightarrow>
          if verb = GET \<and> p = ''graphiql'' then Some GraphiqlPage
          else if p = ''graphql'' then Some GraphqlEndpoint
          else if p = ''subscriptions'' \<and> upgrade then Some SubscriptionsEndpoint
          else None)"

text \<open>The protocol header that every answer of the subscriptions endpoint carries.\<close>

definition subscriptions_header :: "string \<times> string" where
  "subscriptions_header = (''Sec-WebSocket-Protocol'', ''graphql-ws'')"

text \<open>The two addresses that the GraphiQL page is given are served.\<close>

lemma graphiql_endpoints_are_served:
  "api_route verb [''graphql''] upgrade = Some GraphqlEndpoint"
  "api_route GET [''subscriptions''] True = Some SubscriptionsEndpoint"
  by (simp_all add: api_route_def)

end
