(* ===== verification/Api_Events.thy ===== *)
theory Api_Events
  imports Graphql_Api
begin

text \<open>
  The event streams of the API: \<open>events.rs\<close>, \<open>Context::subscribe_on_message_queue\<close>,
  \<open>schema/subscription.rs\<close> and \<open>types/report.rs\<close>. A broadcast channel of tokio is the list of all
  items sent to it; a receiver is a position in that list, and one that is more than 32 items behind
  has lost items. The consumer's task forwards items until its stream ends. The future that
  \<open>on_close\<close> returns is dropped without being polled, so the end of the task changes nothing else.
\<close>

section \<open>Channels and streams\<close>

record api_event =
  ev_key :: "string option"
  ev_payload :: "string option"

definition event_of_message :: "'w communication_message \<Rightarrow> api_event" where
  "event_of_message msg = \<lparr>ev_key = ok (cm_key msg), ev_payload = ok (cm_payload msg)\<rparr>"

record event_channel =
  ch_sent :: "(mq_error, api_event) result list"
  ch_task :: bool

record event_stream =
  es_channel :: nat
  es_next :: nat
  es_ended :: bool

text \<open>\<open>mq_events\<close> maps a topic to the sender of its channel.\<close>

record event_hub =
  eh_map :: "(string \<times> nat) list"
  eh_channels :: "event_channel list"
  eh_streams :: "event_stream list"

definition event_consumer_config :: "message_queue_config \<Rightarrow> string \<Rightarrow> 'o consumer_config" where
  "event_consumer_config config topic_or_queue =
     (case config of
        KafkaConfig group_id brokers \<Rightarrow> KafkaConsumerConfig group_id brokers topic_or_queue
      | AmqpConfig connection_string consumer_tag \<Rightarrow>
          AmqpConsumerConfig connection_string consumer_tag topic_or_queue None)"

text \<open>\<open>self.config.message_queue.config()?\<close> and the creation of the consumer.\<close>

definition open_consumer ::
  "('k, 'n, 'h, 'a, 'o) mq_clients \<Rightarrow> message_queue_args \<Rightarrow> string \<Rightarrow> (anyhow, ('k, 'a) common_consumer) result" where
  "open_consumer M args topic =
     bindR (mq_args_config args) (\<lambda>config.
     map_err (\<lambda>e. [mq_error_to_string e]) (consumer_new M (event_consumer_config config topic)))"

text \<open>\<open>EventSubscriber::subscribe\<close>: a receiver at the end of the channel.\<close>

definition event_subscribe :: "nat \<Rightarrow> event_hub \<Rightarrow> nat \<times> event_hub" where
  "event_subscribe ch hub =
     (length (eh_streams hub),
      hub\<lparr>eh_streams := eh_streams hub @
        [\<lparr>es_channel = ch, es_next = length (ch_sent (eh_channels hub ! ch)), es_ended = False\<rparr>]\<rparr>)"

text \<open>\<open>EventSubscriber::new\<close> once the consumer exists: a channel, its task and the first receiver.\<close>

definition event_subscriber_new :: "event_hub \<Rightarrow> nat \<times> nat \<times> event_hub" where
  "event_subscriber_new hub =
     (let ch = length (eh_channels hub) in
      (ch, length (eh_streams hub),
       hub\<lparr>eh_channels := eh_channels hub @ [\<lparr>ch_sent = [], ch_task = True\<rparr>],
           eh_streams := eh_streams hub @ [\<lparr>es_channel = ch, es_next = 0, es_ended = False\<rparr>]\<rparr>))"

definition subscribe_on_message_queue ::
  "(string \<Rightarrow> (anyhow, 'c) result) \<Rightarrow> string \<Rightarrow> (event_hub, anyhow, nat) op" where
  "subscribe_on_message_queue new_consumer topic hub =
     (case map_of (eh_map hub) topic of
        Some subscriber \<Rightarrow> (case event_subscribe subscriber hub of (stream, hub) \<Rightarrow> (Inr stream, hub))
      | None \<Rightarrow>
          (case new_consumer topic of
             Inl e \<Rightarrow> (Inl e, hub)
           | Inr consumer \<Rightarrow>
               (case event_subscriber_new hub of
                  (subscriber, stream, hub) \<Rightarrow>
                    (Inr stream, hub\<lparr>eh_map := (topic, subscriber) # eh_map hub\<rparr>))))"

text \<open>One turn of the task: it forwards an item, or its stream has ended.\<close>

definition forward_item :: "nat \<Rightarrow> (mq_error, api_event) result \<Rightarrow> event_hub \<Rightarrow> event_hub" where
  "forward_item ch item hub =
     hub\<lparr>eh_channels := (eh_channels hub)[ch :=
       (eh_channels hub ! ch)\<lparr>ch_sent := ch_sent (eh_channels hub ! ch) @ [item]\<rparr>]\<rparr>"

definition end_task :: "nat \<Rightarrow> event_hub \<Rightarrow> event_hub" where
  "end_task ch hub = hub\<lparr>eh_channels := (eh_channels hub)[ch := (eh_channels hub ! ch)\<lparr>ch_task := False\<rparr>]\<rparr>"

text \<open>
  Polling a stream: an item, an error that ends the stream (lagging behind, the channel closed
  because no sender is left, or an error of the queue), the end, or nothing yet.
\<close>

datatype stream_error = Lagged nat | ChannelClosed | QueueFailed mq_error

datatype stream_poll = StreamItem api_event | StreamFailed stream_error | StreamEnd | StreamPending

definition sender_alive :: "event_hub \<Rightarrow> nat \<Rightarrow> bool" where
  "sender_alive hub ch \<longleftrightarrow> ch_task (eh_channels hub ! ch) \<or> ch \<in> snd ` set (eh_map hub)"

definition poll_next :: "event_hub \<Rightarrow> event_stream \<Rightarrow> stream_poll \<times> event_stream" where
  "poll_next hub st =
     (let sent = ch_sent (eh_channels hub ! es_channel st) in
      if es_ended st then (StreamEnd, st)
      else if es_next st + 32 < length sent
        then (StreamFailed (Lagged (length sent - 32 - es_next st)), st\<lparr>es_ended := True\<rparr>)
      else if es_next st < length sent then
        (case sent ! es_next st of
           Inr ev \<Rightarrow> (StreamItem ev, st\<lparr>es_next := es_next st + 1\<rparr>)
         | Inl e \<Rightarrow> (StreamFailed (QueueFailed e), st\<lparr>es_ended := True\<rparr>))
      else if sender_alive hub (es_channel st) then (StreamPending, st)
      else (StreamFailed ChannelClosed, st\<lparr>es_ended := True\<rparr>))"

definition poll_stream :: "nat \<Rightarrow> event_hub \<Rightarrow> stream_poll \<times> event_hub" where
  "poll_stream i hub =
     (case poll_next hub (eh_streams hub ! i) of
        (p, st) \<Rightarrow> (p, hub\<lparr>eh_streams := (eh_streams hub)[i := st]\<rparr>))"

section \<open>Reports\<close>

record api_report =
  rp_application :: string
  rp_output_plugin :: "string option"
  rp_description :: string
  rp_object_id :: uuid
  rp_payload :: json

definition report_payload :: "('w, 'k) api_env \<Rightarrow> api_report \<Rightarrow> (string, string) result" where
  "report_payload A r = ae_json_to_string A (rp_payload r)"

text \<open>
  The subscription \<open>reports\<close> over what its event stream yields: events without a readable payload
  are skipped, a payload that is not a report is an error in its place.
\<close>

fun reports :: "(string \<Rightarrow> (string, api_report) result) \<Rightarrow> (stream_error \<Rightarrow> string) \<Rightarrow> stream_poll list \<Rightarrow>
    (string, api_report) result list" where
  "reports from_str show [] = []"
| "reports from_str show (StreamItem ev # ps) =
     (case ev_payload ev of
        None \<Rightarrow> reports from_str show ps
      | Some p \<Rightarrow> from_str p # reports from_str show ps)"
| "reports from_str show (StreamFailed e # ps) = Inl (show e) # reports from_str show ps"
| "reports from_str show (StreamEnd # ps) = []"
| "reports from_str show (StreamPending # ps) = reports from_str show ps"

section \<open>Interleavings\<close>

text \<open>What can happen to the streams of one context, in any order.\<close>

inductive hub_step :: "(string \<Rightarrow> (anyhow, 'c) result) \<Rightarrow> event_hub \<Rightarrow> event_hub \<Rightarrow> bool"
  for new_consumer where
  step_subscribe: "subscribe_on_message_queue new_consumer topic hub = (r, hub') \<Longrightarrow> hub_step new_consumer hub hub'"
| step_forward: "ch < length (eh_channels hub) \<Longrightarrow> ch_task (eh_channels hub ! ch) \<Longrightarrow>
    hub_step new_consumer hub (forward_item ch item hub)"
| step_end: "ch < length (eh_channels hub) \<Longrightarrow> ch_task (eh_channels hub ! ch) \<Longrightarrow>
    hub_step new_consumer hub (end_task ch hub)"
| step_poll: "i < length (eh_streams hub) \<Longrightarrow> hub_step new_consumer hub (snd (poll_stream i hub))"

inductive hub_steps :: "(string \<Rightarrow> (anyhow, 'c) result) \<Rightarrow> event_hub \<Rightarrow> event_hub \<Rightarrow> bool"
  for new_consumer where
  steps_refl: "hub_steps new_consumer hub hub"
| steps_step: "hub_steps new_consumer hub hub' \<Longrightarrow> hub_step new_consumer hub' hub'' \<Longrightarrow>
    hub_steps new_consumer hub hub''"

text \<open>The topic is known and the task of its channel has ended.\<close>

definition silent :: "string \<Rightarrow> nat \<Rightarrow> event_hub \<Rightarrow> bool" where
  "silent topic ch hub \<longleftrightarrow> map_of (eh_map hub) topic = Some ch \<and> ch < length (eh_channels hub) \<and>
     \<not> ch_task (eh_channels hub ! ch)"

text \<open>A stream that waits at the end of a channel.\<close>

definition waits_at_end :: "nat \<Rightarrow> nat \<Rightarrow> event_hub \<Rightarrow> bool" where
  "waits_at_end i ch hub \<longleftrightarrow> i < length (eh_streams hub) \<and> es_channel (eh_streams hub ! i) = ch \<and>
     \<not> es_ended (eh_streams hub ! i) \<and> es_next (eh_streams hub ! i) = length (ch_sent (eh_channels hub ! ch))"

lemma subscribe_cases:
  assumes "subscribe_on_message_queue new_consumer t hub = (r, hub')"
  obtains (known) ch where "map_of (eh_map hub) t = Some ch" "r = Inr (length (eh_streams hub))"
      "hub' = snd (event_subscribe ch hub)"
    | (failed) e where "map_of (eh_map hub) t = None" "r = Inl e" "hub' = hub"
    | (new) "map_of (eh_map hub) t = None" "r = Inr (length (eh_streams hub))"
      "hub' = hub\<lparr>eh_map := (t, length (eh_channels hub)) # eh_map hub,
        eh_channels := eh_channels hub @ [\<lparr>ch_sent = [], ch_task = True\<rparr>],
        eh_streams := eh_streams hub @ [\<lparr>es_channel = length (eh_channels hub), es_next = 0, es_ended = False\<rparr>]\<rparr>"
proof (cases "map_of (eh_map hub) t")
  case (Some c)
  then show thesis
    using assms by (intro known [of c]) (auto simp: subscribe_on_message_queue_def event_subscribe_def)
next
  case None
  show thesis
  proof (cases "new_consumer t")
    case (Inl e)
    with None assms show thesis by (intro failed) (auto simp: subscribe_on_message_queue_def)
  next
    case (Inr c)
    with None assms show thesis
      by (intro new) (auto simp: subscribe_on_message_queue_def event_subscriber_new_def Let_def)
  qed
qed

lemma silent_pending:
  "silent topic ch hub \<Longrightarrow> waits_at_end i ch hub \<Longrightarrow> poll_next hub (eh_streams hub ! i) = (StreamPending, eh_streams hub ! i)"
  by (auto simp: silent_def waits_at_end_def poll_next_def sender_alive_def Let_def dest!: map_of_SomeD intro: rev_image_eqI)

lemma silent_step:
  assumes "hub_step new_consumer hub hub'" and "silent topic ch hub"
  shows "silent topic ch hub'" and "waits_at_end i ch hub \<Longrightarrow> waits_at_end i ch hub'"
proof -
  have "silent topic ch hub' \<and> (waits_at_end i ch hub \<longrightarrow> waits_at_end i ch hub')"
    using assms(1)
  proof (cases rule: hub_step.cases)
    case (step_subscribe t r)
    from step_subscribe(1) show ?thesis
    proof (cases rule: subscribe_cases)
      case (known c)
      with assms(2) show ?thesis by (auto simp: silent_def waits_at_end_def event_subscribe_def nth_append)
    next
      case (failed e)
      with assms(2) show ?thesis by simp
    next
      case new
      with assms(2) show ?thesis by (auto simp: silent_def waits_at_end_def nth_append)
    qed
  next
    case (step_forward c item)
    with assms(2) show ?thesis
      by (auto simp: silent_def waits_at_end_def forward_item_def nth_list_update)
  next
    case (step_end c)
    with assms(2) show ?thesis by (auto simp: silent_def waits_at_end_def end_task_def nth_list_update)
  next
    case (step_poll k)
    obtain p st where p: "poll_next hub (eh_streams hub ! k) = (p, st)" by fastforce
    with step_poll have h: "hub' = hub\<lparr>eh_streams := (eh_streams hub)[k := st]\<rparr>" by (simp add: poll_stream_def)
    have "k = i \<and> waits_at_end i ch hub \<Longrightarrow> st = eh_streams hub ! i"
      using silent_pending [OF assms(2)] p by auto
    then have "waits_at_end i ch hub \<Longrightarrow> (eh_streams hub)[k := st] ! i = eh_streams hub ! i"
      by (cases "k = i") (auto simp: waits_at_end_def)
    with h assms(2) show ?thesis by (auto simp: silent_def waits_at_end_def)
  qed
  then show "silent topic ch hub'" and "waits_at_end i ch hub \<Longrightarrow> waits_at_end i ch hub'" by simp_all
qed

lemma silent_steps:
  assumes "hub_steps new_consumer hub hub'" and "silent topic ch hub"
  shows "silent topic ch hub' \<and> (waits_at_end i ch hub \<longrightarrow> waits_at_end i ch hub')"
  using assms by (induction rule: hub_steps.induct) (auto dest: silent_step)

text \<open>
  C35. Once the consumer of a topic has ended, the topic stays silent for as long as the context
  lives: it is never removed from the map, so every later subscription is accepted without opening
  a consumer, and its stream is pending at every poll, whatever else happens. A queue error ends the
  consumer, so one is enough.
\<close>

theorem closed_topic_stays_silent:
  assumes "map_of (eh_map hub) topic = Some ch" and "ch < length (eh_channels hub)"
    and "ch_task (eh_channels hub ! ch)"
    and "hub_steps new_consumer (end_task ch hub) hub1"
    and "subscribe_on_message_queue new_consumer topic hub1 = (r, hub2)"
    and "hub_steps new_consumer hub2 hub3"
  shows "\<exists>i. r = Inr i \<and> fst (poll_stream i hub3) = StreamPending \<and> eh_channels hub2 = eh_channels hub1"
proof -
  have s0: "silent topic ch (end_task ch hub)" using assms(1,2) by (simp add: silent_def end_task_def)
  have s1: "silent topic ch hub1" using silent_steps [OF assms(4) s0] by blast
  have s2: "silent topic ch hub2" by (rule silent_step(1) [OF hub_step.step_subscribe [OF assms(5)] s1])
  have "r = Inr (length (eh_streams hub1)) \<and> hub2 = snd (event_subscribe ch hub1)"
    using assms(5) s1 by (auto simp: subscribe_on_message_queue_def silent_def event_subscribe_def)
  moreover from this have "waits_at_end (length (eh_streams hub1)) ch hub2"
    using s1 by (simp add: waits_at_end_def event_subscribe_def nth_append)
  with silent_steps [OF assms(6) s2] have "silent topic ch hub3" "waits_at_end (length (eh_streams hub1)) ch hub3"
    by blast+
  ultimately show ?thesis using silent_pending by (auto simp: poll_stream_def event_subscribe_def)
qed

definition demo_hub :: event_hub where
  "demo_hub = \<lparr>eh_map = [(''reports'', 0)], eh_channels = [\<lparr>ch_sent = [], ch_task = True\<rparr>], eh_streams = []\<rparr>"

theorem closed_topic_stays_silent_witness:
  "\<exists>i. fst (subscribe_on_message_queue (\<lambda>t. Inr ()) ''reports'' (end_task 0 demo_hub)) = Inr i \<and>
     fst (poll_stream i (snd (subscribe_on_message_queue (\<lambda>t. Inr ()) ''reports'' (end_task 0 demo_hub)))) = StreamPending"
proof -
  obtain r hub2 where s: "subscribe_on_message_queue (\<lambda>t. Inr () :: (anyhow, unit) result) ''reports'' (end_task 0 demo_hub) = (r, hub2)"
    by fastforce
  have a: "map_of (eh_map demo_hub) ''reports'' = Some 0" "0 < length (eh_channels demo_hub)" "ch_task (eh_channels demo_hub ! 0)"
    by (simp_all add: demo_hub_def)
  from closed_topic_stays_silent [OF a hub_steps.steps_refl s hub_steps.steps_refl] s show ?thesis by auto
qed

end
