(* ===== verification/Api_Props.thy ===== *)
theory Api_Props
  imports Api_Events Registry_Props Document_Props
begin

text \<open>
  Properties of the GraphQL API together with the components it calls: its requests on the routes
  of the query router, batches of messages, and schemas that go through the registry.
\<close>

section \<open>Requests to the query router\<close>

lemma split_on_head: "c \<notin> set x \<Longrightarrow> split_on c (x @ c # y) = x # split_on c y"
  by (induction x) auto

lemma split_on_single: "c \<notin> set x \<Longrightarrow> split_on c x = [x]"
  by (induction x) auto

lemma set_join_with: "set (join_with sep xs) \<subseteq> set sep \<union> (\<Union>x \<in> set xs. set x)"
  by (induction xs) auto

lemma url_segments_two:
  assumes "CHR ''/'' \<notin> set a" and "CHR ''/'' \<notin> set b" and "a \<noteq> []"
  shows "url_segments (CHR ''/'' # a @ CHR ''/'' # b) = (if b = [] then [a] else [a, b])"
  using assms by (simp add: url_segments_def split_on_head split_on_single)

lemma join_with_empty_iff: "[] \<notin> set xs \<Longrightarrow> join_with sep xs = [] \<longleftrightarrow> xs = []"
  by (cases xs) auto

text \<open>
  C37. The API's requests reach the routes of the query router that are meant for them, with the
  identifiers it was asked for: one object, several, or all of a schema. The exception is an empty
  list of objects, which no route takes. The request for one object carries an empty body, so for
  a schema of time series it is always refused, whatever is stored.
\<close>

theorem api_requests_reach_routes:
  assumes "\<And>i. uuid_parse (ae_uuid_to_string A i) = Inr i"
    and "\<And>i. ae_uuid_to_string A i \<noteq> [] \<and> CHR ''/'' \<notin> set (ae_uuid_to_string A i) \<and>
      CHR '','' \<notin> set (ae_uuid_to_string A i)"
  shows "routes uuid_parse (object_request A oid sid) = Some (CallSingle oid sid BodyEmpty) \<and>
    routes uuid_parse (objects_request A oids sid) =
      (if oids = [] then None
       else Some (CallMultiple (join_with '','' (map (ae_uuid_to_string A) oids)) sid)) \<and>
    (oids \<noteq> [] \<longrightarrow> split_on CHR '','' (join_with '','' (map (ae_uuid_to_string A) oids)) =
      map (ae_uuid_to_string A) oids) \<and>
    routes uuid_parse (schema_objects_request A sid) = Some (CallSchema sid) \<and>
    (get_schema_info Q sid s = (Inr (address, Timeseries), s') \<longrightarrow>
      run_call Q (CallSingle oid sid BodyEmpty) s = (Inl SingleQueryMissingValue, s'))"
proof -
  have single: "url_segments (''/single/'' @ ae_uuid_to_string A oid) = [''single'', ae_uuid_to_string A oid]"
    using url_segments_two [of "''single''" "ae_uuid_to_string A oid"] assms(2) by simp
  have p1: "hq_path (object_request A oid sid) = [''single'', ae_uuid_to_string A oid]"
    unfolding object_request_def router_post_empty_def single by simp
  have "hq_method (object_request A oid sid) = POST" "hq_schema_id (object_request A oid sid) = Some (ae_uuid_to_string A sid)"
    "hq_content_length (object_request A oid sid) = Some 2" "hq_body (object_request A oid sid) = Some (JObject [])"
    by (simp_all add: object_request_def router_post_empty_def)
  then have r1: "routes uuid_parse (object_request A oid sid) = Some (CallSingle oid sid BodyEmpty)"
    using assms(1) by (simp add: routes_def p1 schema_id_filter_def body_filter_def body_of_json_def text_field_def)
  let ?ids = "join_with '','' (map (ae_uuid_to_string A) oids)"
  have slash: "CHR ''/'' \<notin> set ?ids"
    using set_join_with [of "'',''" "map (ae_uuid_to_string A) oids"] assms(2) by auto
  have e: "?ids = [] \<longleftrightarrow> oids = []"
  proof (rule trans [OF join_with_empty_iff])
    show "[] \<notin> set (map (ae_uuid_to_string A) oids)" using assms(2) by (metis ex_map_conv)
  qed simp
  have m: "url_segments (''/multiple/'' @ ?ids) = (if oids = [] then [''multiple''] else [''multiple'', ?ids])"
    using url_segments_two [of "''multiple''" ?ids] slash e by simp
  have p2: "hq_path (objects_request A oids sid) = (if oids = [] then [''multiple''] else [''multiple'', ?ids])"
    unfolding objects_request_def router_get_def m by simp
  have "hq_method (objects_request A oids sid) = GET" "hq_schema_id (objects_request A oids sid) = Some (ae_uuid_to_string A sid)"
    by (simp_all add: objects_request_def router_get_def)
  then have r2: "routes uuid_parse (objects_request A oids sid) = (if oids = [] then None else Some (CallMultiple ?ids sid))"
    using assms(1) by (simp add: routes_def p2 schema_id_filter_def)
  have r3: "oids \<noteq> [] \<Longrightarrow> split_on CHR '','' ?ids = map (ae_uuid_to_string A) oids"
    by (rule join_with_split) (use assms(2) in auto)
  have r4: "routes uuid_parse (schema_objects_request A sid) = Some (CallSchema sid)"
    using assms by (simp add: routes_def schema_objects_request_def router_get_def schema_id_filter_def url_segments_def Let_def)
  have r5: "get_schema_info Q sid s = (Inr (address, Timeseries), s') \<Longrightarrow>
      run_call Q (CallSingle oid sid BodyEmpty) s = (Inl SingleQueryMissingValue, s')"
    by (simp add: query_single_def)
  show ?thesis using r1 r2 r3 r4 r5 by blast
qed

section \<open>Batches\<close>

lemma forE_prefix:
  assumes "forE xs f w = (r, w')"
  shows "(r = Inr () \<or> (\<exists>k w1 e. k < length xs \<and> forE (take k xs) f w = (Inr (), w1) \<and> r = Inl e \<and>
    f (xs ! k) w1 = (Inl e, w')))"
  using assms
proof (induction xs arbitrary: w)
  case (Cons x xs)
  obtain q w1 where q: "f x w = (q, w1)" by fastforce
  show ?case
  proof (cases q)
    case (Inl e)
    with q Cons.prems have "0 < length (x # xs) \<and> forE (take 0 (x # xs)) f w = (Inr (), w) \<and> r = Inl e \<and>
      f ((x # xs) ! 0) w = (Inl e, w')" by (simp add: thenE_def bindE_def)
    then show ?thesis by blast
  next
    case (Inr u)
    with q Cons.prems have "forE xs f w1 = (r, w')" by (simp add: thenE_def bindE_def)
    from Cons.IH [OF this] show ?thesis
    proof
      assume "\<exists>k w2 e. k < length xs \<and> forE (take k xs) f w1 = (Inr (), w2) \<and> r = Inl e \<and> f (xs ! k) w2 = (Inl e, w')"
      then obtain k w2 e where "k < length xs" "forE (take k xs) f w1 = (Inr (), w2)" "r = Inl e"
        "f (xs ! k) w2 = (Inl e, w')" by blast
      with q Inr have "Suc k < length (x # xs) \<and> forE (take (Suc k) (x # xs)) f w = (Inr (), w2) \<and> r = Inl e \<and>
        f ((x # xs) ! Suc k) w2 = (Inl e, w')" by (simp add: thenE_def bindE_def)
      then show ?thesis by blast
    qed simp
  qed
qed simp

text \<open>
  C38. A batch is not atomic: its messages are published one after the other, under one fresh key,
  and when it fails with an error after the publisher was there, exactly the messages before the
  first bad one have been published. The bad one is one whose payload is not JSON, of which nothing
  is sent, or one the publisher refused.
\<close>

theorem insert_batch_publishes_prefix:
  assumes "connect_to_data_router A w = (Inr publisher, w1)" and "ae_new_v4 A w1 = (u, w2)"
    and "mutation_insert_batch A messages w = (r, w')"
  shows "\<exists>k w3. k \<le> length messages \<and>
    forE (take k messages) (publish_input A publisher (ae_uuid_to_string A u)) w2 = (Inr (), w3) \<and>
    (if k = length messages then r = Inr True \<and> w' = w3
     else \<exists>e. r = Inl e \<and> (case insert_payload A (messages ! k) of
         Inl err \<Rightarrow> e = err \<and> w' = w3
       | Inr payload \<Rightarrow> \<exists>me. e = api_error_to_string (PublisherError me) \<and>
           publish_message publisher (ac_data_router_topic_or_queue (ae_config A)) (ae_uuid_to_string A u) payload w3 =
             (Inl me, w')))"
proof -
  let ?f = "publish_input A publisher (ae_uuid_to_string A u)"
  obtain q w3 where q: "forE messages ?f w2 = (q, w3)" by fastforce
  have run: "(r, w') = (case q of Inl e \<Rightarrow> (Inl e, w3) | Inr _ \<Rightarrow> (Inr True, w3))"
    using assms q by (auto simp: mutation_insert_batch_def field_err_def bindE_def map_errE_def thenE_def split: sum.splits)
  from forE_prefix [OF q] show ?thesis
  proof
    assume ok: "q = Inr ()"
    with run q show ?thesis by (intro exI [of _ "length messages"] exI [of _ w3]) simp
  next
    assume "\<exists>k w4 e. k < length messages \<and> forE (take k messages) ?f w2 = (Inr (), w4) \<and> q = Inl e \<and>
      ?f (messages ! k) w4 = (Inl e, w3)"
    then obtain k w4 e where k: "k < length messages" "forE (take k messages) ?f w2 = (Inr (), w4)" "q = Inl e"
      "?f (messages ! k) w4 = (Inl e, w3)" by blast
    have "case insert_payload A (messages ! k) of
        Inl err \<Rightarrow> e = err \<and> w3 = w4
      | Inr payload \<Rightarrow> \<exists>me. e = api_error_to_string (PublisherError me) \<and>
          publish_message publisher (ac_data_router_topic_or_queue (ae_config A)) (ae_uuid_to_string A u) payload w4 = (Inl me, w3)"
      using k(4) by (auto simp: publish_input_def field_err_def bindE_def map_errE_def split: sum.splits prod.splits)
    with k run show ?thesis by (intro exI [of _ k] exI [of _ w4]) auto
  qed
qed

section \<open>Schemas through the registry\<close>

lemma api_type_known: "api_type_of_i32 (schema_type_to_i32 t) = Inr t"
  by (simp add: api_type_of_i32_def)

text \<open>
  C36. A schema added through the API is served by the API: the reply holds the fields of the
  request, and asking for the schema by the identifier in the reply answers with the same schema,
  unless the registry's database fails.
\<close>

theorem added_schema_is_served:
  assumes "registry_env E \<alpha>" and "reachable E \<alpha> (node_db n)"
    and "ae_registry A = direct_client E topics" and "ae_uuid_to_string A = uuid_to_string E"
    and "ae_uuid_parse A = uuid_parse_str E" and "\<And>i. uuid_parse_str E (uuid_to_string E i) = Inr i"
    and "mutation_add_schema A new n = (Inr s, n')" and "within_limit (\<alpha> (node_db n'))"
  shows "as_name s = an_name new \<and> as_topic s = an_topic new \<and> as_query_address s = an_query_address new \<and>
    as_schema_type s = an_schema_type new \<and>
    (case query_schema A (as_id s) n' of
       (Inr s', _) \<Rightarrow> s' = s
     | (Inl e, _) \<Rightarrow> \<exists>d. db_failure d \<and> e = registry_text (registry_error_to_string E d))"
proof -
  let ?q = "\<lparr>rns_id = [], rns_name = an_name new, rns_query_address = an_query_address new, rns_topic = an_topic new,
        rns_definition = an_definition new, rns_schema_type = schema_type_to_i32 (an_schema_type new)\<rparr>"
  have conn: "connect_to_registry A m = (Inr (), m)" for m
    by (simp add: connect_to_registry_def field_err_def sr_open_def rpc_connect_def assms(3) direct_client_def map_errE_def)
  from assms(7) obtain reply where added: "rpc_add_schema E topics ?q n = (Inr reply, n')"
    and s: "uuid_parse_str E reply = Inr (as_id s)" "as_name s = an_name new" "as_topic s = an_topic new"
      "as_query_address s = an_query_address new" "as_schema_type s = an_schema_type new"
    by (auto simp: mutation_add_schema_def conn bindE_Inr_iff field_err_def assms(3,5) direct_client_def)
  obtain ns i where ns: "ns_name ns = an_name new" "ns_kafka_topic ns = an_topic new"
    "ns_query_address ns = an_query_address new" "ns_schema_type ns = an_schema_type new"
    and run: "add_schema E ns None (node_db n) = (Inr i, node_db n')" and reply: "reply = uuid_to_string E i"
    by (rule rpc_add_schema_run [OF added]) simp_all
  have i: "as_id s = i" using s(1) reply assms(6) by simp
  from registry_env.add_schema_lookups [OF assms(1) registry_env.reachable_ok [OF assms(1,2)] run assms(8)]
  have y: "yields (get_schema E i) (node_db n') (\<lambda>r. r = Inr (fst (new_schema_vertex ns)))" by blast
  have resp: "api_schema_of i (schema_response (fst (new_schema_vertex ns))) = Inr s"
    using s ns i by (cases s) (simp add: api_schema_of_def schema_response_def new_schema_vertex_def api_type_known)
  obtain g t where g: "get_schema E i (node_db n') = (g, t)" by fastforce
  have q: "query_schema A (as_id s) n' = (case g of
      Inl d \<Rightarrow> (Inl (registry_text (registry_error_to_string E d)), n'\<lparr>node_db := t\<rparr>)
    | Inr x \<Rightarrow> (api_schema_of i (schema_response x), n'\<lparr>node_db := t\<rparr>))"
    by (simp add: query_schema_def conn api_get_schema_def field_err_def assms(3,4) direct_client_def i
        rpc_get_schema_metadata_def rpc_by_id_def rpc_pure_def parse_uuid_def assms(6) rpc_db_def g
        bindE_def map_errE_def status_of_error_def split: sum.split)
  from y g have "case g of Inl d \<Rightarrow> db_failure d | Inr x \<Rightarrow> x = fst (new_schema_vertex ns)"
    by (simp add: yields_def split: sum.splits)
  with s q resp show ?thesis by (auto split: sum.splits)
qed

section \<open>Concrete runs\<close>

text \<open>An API whose registry runs in the same process and whose data router is a log of publications.\<close>

definition demo_api_config :: api_config where
  "demo_api_config = \<lparr>ac_schema_registry_addr = ''registry'', ac_query_router_addr = ''router'', ac_input_port = 80,
     ac_message_queue = \<lparr>ma_message_queue = KafkaQueue, ma_kafka_brokers = Some ''kafka'', ma_kafka_group_id = Some ''api'',
       ma_amqp_connection_string = None, ma_amqp_consumer_tag = None\<rparr>,
     ac_report_topic_or_queue = ''reports'', ac_data_router_topic_or_queue = ''input''\<rparr>"

definition demo_api :: "('w, 'k) schema_registry_client \<Rightarrow> ('w \<Rightarrow> string \<Rightarrow> string \<Rightarrow> 'w) \<Rightarrow> (uuid \<Rightarrow> string) \<Rightarrow>
    (string \<Rightarrow> (string, uuid) result) \<Rightarrow> ('w, 'k) api_env" where
  "demo_api registry log print parse =
     \<lparr>ae_config = demo_api_config, ae_registry = registry,
      ae_new_amqp = (\<lambda>s w. (Inl (CommunicationError ''no broker''), w)),
      ae_new_kafka = (\<lambda>s w. (Inr (KafkaPublisher (\<lambda>topic payload key timeout w. (Inr (), log w key payload))), w)),
      ae_http = (\<lambda>addr request w. (Inl ''refused'', w)),
      ae_json_from_slice = (\<lambda>s. Inl ''unused''), ae_map_from_slice = (\<lambda>s. Inl ''unused''),
      ae_json_to_string = (\<lambda>j. Inr ''{}''), ae_uuid_parse = parse, ae_uuid_to_string = print,
      ae_new_v4 = (\<lambda>w. (7, w)), ae_raw_value = (\<lambda>s. if s = [] then Inl ''EOF'' else Inr s),
      ae_message_to_vec = (\<lambda>m. Inr (dr_data m))\<rparr>"

definition demo_node :: "(mem, triple) node" where
  "demo_node = \<lparr>node_db = mem_empty, node_repl = replication_state_new, node_poisoned = False\<rparr>"

definition demo_new_schema :: api_new_schema where
  "demo_new_schema = \<lparr>an_name = ''orders'', an_query_address = ''q'', an_topic = ''t'', an_definition = ''{}'',
     an_schema_type = Timeseries\<rparr>"

definition demo_stored :: mem where
  "demo_stored =
     \<lparr>mem_vertices =
        [(1, ''DEFINITION'', [(''DEFINITION'', JObject [])]),
         (0, ''SCHEMA'', schema_into_properties (fst (new_schema_vertex demo_schema)))],
      mem_edges = [(\<lparr>outbound_id = 0, e_t = ''SCHEMA_DEFINITION'', inbound_id = 1\<rparr>,
         [(''VERSION'', triple_to_value (1, 0, 0))])]\<rparr>"

lemma demo_stored_run: "add_schema demo_env demo_schema None mem_empty = (Inr 0, demo_stored)"
  by (simp add: demo_stored_def demo_schema_def add_schema_def run_ops cong: run_congs)

lemma demo_stored_limit: "within_limit (mem_graph demo_stored)"
  by (intro mem_within_limit; simp add: demo_stored_def)

text \<open>Identifiers are written in unary after a first letter.\<close>

definition tagged :: "uuid \<Rightarrow> string" where "tagged i = CHR ''u'' # unary i"

definition tagged_parse :: "string \<Rightarrow> (string, uuid) result" where
  "tagged_parse s = (case s of [] \<Rightarrow> Inl ''empty'' | _ # s \<Rightarrow> unary_parse s)"

abbreviation demo_client :: "((mem, triple) node, unit) schema_registry_client" where
  "demo_client \<equiv> direct_client demo_env (\<lambda>topic. Inr True)"

abbreviation "demo_reader \<equiv> demo_api demo_client (\<lambda>w key payload. w) tagged tagged_parse"

theorem api_requests_reach_routes_witness:
  "routes tagged_parse (objects_request demo_reader [] 2) = None \<and>
   routes tagged_parse (objects_request demo_reader [1, 2] 2) = Some (CallMultiple ''ui,uii'' 2) \<and>
   (\<exists>s. run_call demo_query_router (CallSingle 2 1 BodyEmpty) (\<lparr>ll_capacity = 1, ll_entries = []\<rparr>, 0) =
     (Inl SingleQueryMissingValue, s))"
proof -
  have p: "ae_uuid_to_string demo_reader i = tagged i" for i by (simp add: demo_api_def)
  have roundtrip: "tagged_parse (ae_uuid_to_string demo_reader i) = Inr i" for i
    by (simp add: p tagged_parse_def tagged_def unary_parse_unary)
  have plain: "ae_uuid_to_string demo_reader i \<noteq> [] \<and> CHR ''/'' \<notin> set (ae_uuid_to_string demo_reader i) \<and>
      CHR '','' \<notin> set (ae_uuid_to_string demo_reader i)" for i
    by (simp add: p tagged_def unary_def)
  obtain s' where g: "get_schema_info demo_query_router 1 (\<lparr>ll_capacity = 1, ll_entries = []\<rparr>, 0) =
      (Inr (''ts'', Timeseries), s')"
    by (auto simp: get_schema_info_def read_through_def demo_query_router_def lru_list_ops_def ll_get_def
        fetch_schema_info_def connect_registry_def rpc_connect_def bindE_def map_errE_def returnE_def
        schema_type_getter_def schema_type_from_i32_def)
  note all = api_requests_reach_routes [of tagged_parse demo_reader, OF roundtrip plain]
  have "run_call demo_query_router (CallSingle 2 1 BodyEmpty) (\<lparr>ll_capacity = 1, ll_entries = []\<rparr>, 0) =
      (Inl SingleQueryMissingValue, s')"
    using all [where oid = 2 and sid = 1 and Q = demo_query_router] g by blast
  moreover have "routes tagged_parse (objects_request demo_reader [] 2) = None"
    using all [where sid = 2 and oids = "[]", THEN conjunct2, THEN conjunct1] by simp
  moreover have "routes tagged_parse (objects_request demo_reader [1, 2] 2) = Some (CallMultiple ''ui,uii'' 2)"
    using all [where sid = 2 and oids = "[1, 2]", THEN conjunct2, THEN conjunct1] by (simp add: p tagged_def unary_examples)
  ultimately show ?thesis by blast
qed

abbreviation demo_local :: "((mem, triple) node, unit) api_env" where
  "demo_local \<equiv> demo_api demo_client (\<lambda>n key payload. n) id_char char_id"

lemma demo_env_texts: "uuid_to_string demo_env = id_char" "json_from_str demo_env ''{}'' = Inr (JObject [])"
  by (simp_all add: demo_env_def)

lemma demo_rpc_add_schema:
  "\<exists>n'. rpc_add_schema demo_env (\<lambda>topic. Inr True) \<lparr>rns_id = [], rns_name = ''orders'', rns_query_address = ''q'',
       rns_topic = ''t'', rns_definition = ''{}'', rns_schema_type = 1\<rparr> demo_node = (Inr (id_char 0), n') \<and>
     node_db n' = demo_stored"
  by (simp add: rpc_add_schema_def rpc_pure_def parse_optional_uuid_def parse_json_def require_topic_def rpc_db_def
      demo_node_def demo_stored_run [unfolded demo_schema_def] rpc_replicate_message_def lock_replication_def Let_def
      schema_type_getter_def schema_type_from_i32_def map_errE_def bindE_def thenE_def demo_env_texts map_err_def)

lemma demo_api_add_schema:
  "\<exists>n'. mutation_add_schema demo_local demo_new_schema demo_node =
     (Inr \<lparr>as_id = 0, as_name = ''orders'', as_topic = ''t'', as_query_address = ''q'', as_schema_type = Timeseries\<rparr>, n') \<and>
     node_db n' = demo_stored"
proof -
  from demo_rpc_add_schema obtain n' where "rpc_add_schema demo_env (\<lambda>topic. Inr True) \<lparr>rns_id = [],
      rns_name = ''orders'', rns_query_address = ''q'', rns_topic = ''t'', rns_definition = ''{}'', rns_schema_type = 1\<rparr>
      demo_node = (Inr (id_char 0), n')" "node_db n' = demo_stored" by blast
  then show ?thesis
    by (intro exI [of _ n']) (simp add: demo_new_schema_def mutation_add_schema_def connect_to_registry_def sr_open_def
      rpc_connect_def demo_api_def direct_client_def field_err_def map_errE_def bindE_def char_id_id_char)
qed

theorem added_schema_is_served_witness:
  "\<exists>s n'. mutation_add_schema demo_local demo_new_schema demo_node = (Inr s, n') \<and> as_name s = ''orders'' \<and>
     (case query_schema demo_local (as_id s) n' of
        (Inr s', _) \<Rightarrow> s' = s
      | (Inl e, _) \<Rightarrow> \<exists>d. db_failure d \<and> e = registry_text (registry_error_to_string demo_env d))"
proof -
  obtain s n' where run: "mutation_add_schema demo_local demo_new_schema demo_node = (Inr s, n')"
    and n': "node_db n' = demo_stored" using demo_api_add_schema by blast
  have start: "reachable demo_env mem_graph (node_db demo_node)" using demo_reachable(1) by (simp add: demo_node_def)
  have limit: "within_limit (mem_graph (node_db n'))" using n' demo_stored_limit by simp
  have api: "ae_registry demo_local = demo_client" "ae_uuid_to_string demo_local = uuid_to_string demo_env"
    "ae_uuid_parse demo_local = uuid_parse_str demo_env"
    by (simp_all add: demo_api_def demo_env_def)
  have parse: "uuid_parse_str demo_env (uuid_to_string demo_env i) = Inr i" for i
    by (simp add: demo_env_def char_id_id_char)
  note added_schema_is_served [OF demo_registry start api parse run limit]
  with run show ?thesis by (auto simp: demo_new_schema_def)
qed

text \<open>A batch whose second payload is not JSON, over a log of publications.\<close>

theorem insert_batch_publishes_prefix_witness:
  "\<forall>registry :: ((string \<times> string) list, unit) schema_registry_client.
     mutation_insert_batch (demo_api registry (\<lambda>w key payload. w @ [(key, payload)]) unary unary_parse)
       [\<lparr>im_object_id = 1, im_schema_id = 2, im_payload = ''1''\<rparr>, \<lparr>im_object_id = 3, im_schema_id = 2, im_payload = []\<rparr>] [] =
     (Inl ''EOF'', [(unary 7, ''1'')])"
proof
  fix registry :: "((string \<times> string) list, unit) schema_registry_client"
  let ?A = "demo_api registry (\<lambda>w key payload. w @ [(key, payload)]) unary unary_parse"
  let ?ms = "[\<lparr>im_object_id = 1, im_schema_id = 2, im_payload = ''1''\<rparr>, \<lparr>im_object_id = 3, im_schema_id = 2, im_payload = []\<rparr>]"
  let ?p = "KafkaPublisher (\<lambda>topic payload key timeout w. (Inr (), w @ [(key, payload)]))"
  have c: "connect_to_data_router ?A [] = (Inr ?p, [])"
    by (simp add: connect_to_data_router_def demo_api_def demo_api_config_def mq_args_config_def bindE_def liftR_def
        map_errE_def ok_or_def bindR_def)
  have v4: "ae_new_v4 ?A [] = (7, [])" by (simp add: demo_api_def)
  obtain r w' where run: "mutation_insert_batch ?A ?ms [] = (r, w')" by fastforce
  have publish: "publish_input ?A ?p key m w =
      (if im_payload m = [] then (Inl ''EOF'', w) else (Inr (), w @ [(key, im_payload m)]))" for key m w
    by (simp add: publish_input_def demo_api_def insert_payload_def field_err_def bindE_def liftR_def map_errE_def bindR_def)
  have u: "ae_uuid_to_string ?A 7 = unary 7" by (simp add: demo_api_def)
  obtain k w3 where k: "k \<le> length ?ms" "forE (take k ?ms) (publish_input ?A ?p (unary 7)) [] = (Inr (), w3)"
    and r: "if k = length ?ms then r = Inr True \<and> w' = w3
     else \<exists>e. r = Inl e \<and> (case insert_payload ?A (?ms ! k) of
         Inl err \<Rightarrow> e = err \<and> w' = w3
       | Inr payload \<Rightarrow> \<exists>me. e = api_error_to_string (PublisherError me) \<and>
           publish_message ?p (ac_data_router_topic_or_queue (ae_config ?A)) (unary 7) payload w3 = (Inl me, w'))"
    using insert_batch_publishes_prefix [OF c v4 run, unfolded u] by blast
  have "k \<noteq> 2" using k(2) by (intro notI) (simp add: publish thenE_def bindE_def)
  moreover have "k \<noteq> 0"
    using r by (intro notI) (simp add: demo_api_def insert_payload_def bindR_def map_errE_def)
  ultimately have k1: "k = 1" using k(1) by simp
  from k(2) have "w3 = [(unary 7, ''1'')]" by (simp add: k1 publish thenE_def bindE_def)
  with r have "r = Inl ''EOF'' \<and> w' = [(unary 7, ''1'')]"
    by (simp add: k1 insert_payload_def demo_api_def bindR_def)
  then show
    "mutation_insert_batch ?A ?ms [] = (Inl ''EOF'', [(unary 7, ''1'')])"
    by (simp add: run)
qed

end
