(* ===== verification/Data_Flow.thy ===== *)
theory Data_Flow
  imports Router_Props Api_Props
begin

text \<open>
  The way of a document through the layer: the data router reads a message, stamps it and publishes
  it to the topic of its schema; the command service, reading that topic, hands it to the PostgreSQL
  plugin; the query service answers with it. The message queue between the two services delivers
  the bytes that were published, and the database is the one of the document table's contracts.
  The last part puts the registry's gRPC handlers behind the router: a schema that was added there
  is routed to its topic.
\<close>

definition routed_message :: "data_router_insert_message \<Rightarrow> i64 \<Rightarrow> borrowed_insert_message" where
  "routed_message entry now =
     \<lparr>bi_object_id = dr_object_id entry, bi_schema_id = dr_schema_id entry, bi_timestamp = now,
      bi_data = dr_data entry\<rparr>"

definition leaves :: "('w \<Rightarrow> 'b) \<Rightarrow> ('w, 'e, 'a) op \<Rightarrow> bool" where
  "leaves f m \<longleftrightarrow> (\<forall>w. f (snd (m w)) = f w)"

lemma leavesD: "leaves f m \<Longrightarrow> m w = (r, w') \<Longrightarrow> f w' = f w"
  by (metis leaves_def snd_conv)

section \<open>The data router\<close>

lemma single_message_steady:
  assumes lru: "lru (re_lru R) contents" and st: "steady R addr obs topics vec" and ack: "acks_seen obs message"
    and c: "coherent contents topics c"
    and payload: "cm_payload message = Inr payload" "re_value_from_str R payload = Inr v" "\<not> is_array v"
      "re_entry_from_str R payload = Inr entry"
    and topic: "topics (dr_schema_id entry) = Inr topic" and now: "current_timestamp (re_clock R w) = Some now"
  shows "\<exists>c' w'. handle_message R error_topic addr message (c, w) = (Inr (), (c', w')) \<and>
    coherent contents topics c' \<and>
    obs w' = obs w @ [Sent topic (message_key_of message) (vec (routed_message entry now)), Acked]"
proof -
  obtain c1 w1 where t: "cached_schema_topic R addr (dr_schema_id entry) (c, w) = (Inr topic, (c1, w1))"
    and c1: "coherent contents topics c1" "obs w1 = obs w"
    using cached_topic_steady [OF lru st c, of "dr_schema_id entry" w] topic by (auto simp: map_err_def)
  have vec: "re_to_vec R m = Inr (vec m)" for m using st by (simp add: steady_def)
  obtain w2 where p: "publish_message (re_publisher R) topic (message_key_of message) (vec (routed_message entry now)) w1 =
      (Inr (), w2)" "obs w2 = obs w1 @ [Sent topic (message_key_of message) (vec (routed_message entry now))]"
    using st unfolding steady_def by blast
  have "route_entry R (message_key_of message) addr entry (c, w) = (Inr (), (c1, w2))"
    using t p(1) now
    by (simp add: route_entry_def route_def routed_message_def map_errE_def Let_def bindE_def map_err_def
        send_message_def on_world_def vec)
  then have "process_message R addr (message_key_of message) message (c, w) = (map_err RouteError (Inr ()), (c1, w2))"
    using payload by (simp add: process_message_def mq_question_def deserialized_def context_of_def map_err_def bindE_def)
  from handle_message_steady [OF st ack this, of error_topic] c1 p(2) show ?thesis by auto
qed

section \<open>The command service\<close>

lemma delivered_message_is_handled:
  assumes build: "cm_payload arrived = Inr bytes" "insert_from_str bytes = Inr m"
    and plugin: "mr_output_plugin router = postgres_output P plugin" "mr_from_str router = pg_from_str P"
    and leaves: "\<forall>reporter description. with_message_body (mr_from_str router) (mr_report_sender router) m = Some reporter \<longrightarrow>
        leaves table (report (mr_to_vec router) reporter description)"
      "leaves table (cm_ack arrived)"
    and writer: "document_writer P table (pp_schema plugin)"
    and handled: "postgres_handle P plugin m s = (status, s1)"
    and run: "mq_handle_message insert_from_str router arrived s = (r, s')"
  shows "table s' = table s1"
proof (cases "with_message_body (mr_from_str router) (mr_report_sender router) m")
  case None
  then have "pg_from_str P (bi_data m) \<noteq> Inr j" for j
    using plugin(2) by (auto simp: with_message_body_def to_owned_def split: report_sender.splits)
  then have "status \<noteq> Success" using document_writer.handle_success [OF writer] handled by metis
  then have "table s1 = table s" using document_writer.handle_failure [OF writer handled] by simp
  moreover have "s' = s" using run None build
    by (simp add: mq_handle_message_def mq_build_message_def router_handle_def map_err_def bindE_def thenE_def map_errE_def)
  ultimately show ?thesis by simp
next
  case (Some reporter)
  let ?report = "report (mr_to_vec router) reporter (resolution_to_string status)"
  obtain r2 s2 where rep: "?report s1 = (r2, s2)" by fastforce
  have t2: "table s2 = table s1" 
    using leavesD [of table ?report, OF _ rep] leaves(1) Some by blast
  have "router_handle router m s = (map_err CsError r2, s2)"
    using Some plugin(1) handled rep
    by (simp add: router_handle_def postgres_output_def map_errE_def map_err_def split: sum.split)
  moreover obtain r3 s3 where ack: "cm_ack arrived s2 = (r3, s3)" by fastforce
  moreover have "table s3 = table s2" by (rule leavesD [of table "cm_ack arrived", OF leaves(2) ack])
  ultimately show ?thesis using run build t2
    by (cases r2; cases r3)
      (auto simp: mq_handle_message_def mq_build_message_def map_err_def bindE_def thenE_def map_errE_def)
qed

section \<open>The way of a document\<close>

text \<open>
  C1. A document travels through the layer. The data router publishes a single message with a known
  topic, stamped with the current time, to that topic and acknowledges it. When the command service
  is delivered what was published, then the query service, asked for the object, answers with the
  document of the original message if the plugin stored it, unless the table held a greater version;
  if the plugin did not store it, the table is as it was.
\<close>

theorem document_flow:
  assumes "lru (re_lru R) contents" and "steady R addr obs topics vec" and "acks_seen obs message"
    and "coherent contents topics c"
    and "cm_payload message = Inr payload" and "re_value_from_str R payload = Inr v" and "\<not> is_array v"
    and "re_entry_from_str R payload = Inr entry"
    and "topics (dr_schema_id entry) = Inr topic" and "current_timestamp (re_clock R w) = Some now"
    and "cm_payload arrived = Inr (vec (routed_message entry now))"
    and "insert_from_str (vec (routed_message entry now)) = Inr (routed_message entry now)"
    and "mr_output_plugin router = postgres_output P plugin" and "mr_from_str router = pg_from_str P"
    and "\<forall>reporter description. with_message_body (mr_from_str router) (mr_report_sender router) (routed_message entry now) =
        Some reporter \<longrightarrow> leaves table (report (mr_to_vec router) reporter description)"
    and "leaves table (cm_ack arrived)"
    and "document_writer P table (pp_schema plugin)" and "document_reader D table (pp_schema plugin)"
    and "pq_schema q = pp_schema plugin" and "primary_key (table s)" and "inj (qd_uuid_to_string D)"
    and "qd_uuid_parse D (qd_uuid_to_string D (dr_object_id entry)) = Inr (dr_object_id entry)"
    and "postgres_handle P plugin (routed_message entry now) s = (status, s1)"
    and "mq_handle_message insert_from_str router arrived s = (r, s')"
    and "psql_query_multiple D q [qd_uuid_to_string D (dr_object_id entry)] s' = (Inr reply, s'')"
  shows "(\<exists>c' w'. handle_message R error_topic addr message (c, w) = (Inr (), (c', w')) \<and>
      obs w' = obs w @ [Sent topic (message_key_of message) (vec (routed_message entry now)), Acked]) \<and>
    (if status = Success then
       \<exists>j. pg_from_str P (dr_data entry) = Inr j \<and>
         map_of reply (qd_uuid_to_string D (dr_object_id entry)) =
           (if \<forall>d \<in> set (table s). row_object_id d = dr_object_id entry \<longrightarrow> sint (row_version d) \<le> sint now
            then Some (qd_json_to_string D j)
            else map_option (qd_json_to_string D) (documents (table s) (dr_object_id entry)))
     else table s' = table s)"
proof -
  let ?m = "routed_message entry now"
  have t: "table s' = table s1"
    by (rule delivered_message_is_handled [OF assms(11-17,23,24)])
  have m: "bi_object_id ?m = dr_object_id entry" "bi_timestamp ?m = now" "bi_data ?m = dr_data entry"
    by (simp_all add: routed_message_def)
  have stored: "\<exists>j. pg_from_str P (dr_data entry) = Inr j \<and>
         map_of reply (qd_uuid_to_string D (dr_object_id entry)) =
           (if \<forall>d \<in> set (table s). row_object_id d = dr_object_id entry \<longrightarrow> sint (row_version d) \<le> sint now
            then Some (qd_json_to_string D j)
            else map_option (qd_json_to_string D) (documents (table s) (dr_object_id entry)))"
    if "status = Success"
  proof -
    have "postgres_handle P plugin ?m s = (Success, s1)" using assms(23) that by simp
    from document_writer.handle_success [OF assms(17) this refl] obtain j where
      j: "pg_from_str P (dr_data entry) = Inr j" and ins: "sql_insert \<lparr>row_object_id = dr_object_id entry,
        row_version = now, row_schema_id = bi_schema_id ?m, row_payload = j\<rparr> (table s) = Some (table s')"
      by (auto simp: m t)
    have "document_reader D table (pq_schema q)" using assms(18,19) by simp
    from inserted_row_is_read [OF this assms(20) ins assms(21), unfolded insert_row.simps, OF assms(22,25)] j
    show ?thesis by (intro exI [of _ j] conjI)
  qed
  moreover have "table s' = table s" if "status \<noteq> Success"
    using document_writer.handle_failure [OF assms(17,23) refl that] t by simp
  moreover note single_message_steady [OF assms(1-10), of error_topic]
  ultimately show ?thesis by auto
qed

section \<open>A sample document\<close>

text \<open>The sample router and the sample table; reports are disabled.\<close>

definition flow_router :: "insert_row list message_router" where
  "flow_router =
     \<lparr>mr_report_sender = ReportsDisabled,
      mr_output_plugin = postgres_output demo_document_store \<lparr>pp_pool = (), pp_schema = ''cdl''\<rparr>,
      mr_from_str = pg_from_str demo_document_store, mr_to_vec = (\<lambda>body. Inr [])\<rparr>"

definition flow_from_str :: "string \<Rightarrow> (string, borrowed_insert_message) result" where
  "flow_from_str s = (if s = ''{}'' then Inr (routed_message (demo_entry 1) 5) else Inl ''EOF'')"

definition flow_message :: "insert_row list communication_message" where
  "flow_message = \<lparr>cm_payload = Inr ''{}'', cm_key = Inr ''k'', cm_ack = returnE ()\<rparr>"

theorem document_flow_witness:
  "\<exists>s' reply. fst (handle_message demo_router ''errors'' ''r'' (demo_message ''one'') (empty_cache, [])) = Inr () \<and>
     mq_handle_message flow_from_str flow_router flow_message demo_rows = (Inr (), s') \<and>
     psql_query_multiple demo_document_driver demo_psql_query [unary 9] s' = (Inr reply, s') \<and>
     map_of reply (unary 9) = Some ''{}''"
proof -
  let ?m = "routed_message (demo_entry 1) 5"
  let ?row = "\<lparr>row_object_id = 9, row_version = 5, row_schema_id = 1, row_payload = JObject [(''{}'', JNull)]\<rparr>"
  have stored: "postgres_handle demo_document_store \<lparr>pp_pool = (), pp_schema = ''cdl''\<rparr> ?m demo_rows =
      (Success, demo_rows @ [?row])"
    by (simp add: postgres_handle_def memory_postgres_def routed_message_def demo_entry_def sql_insert_def demo_rows_def
        row_key_def)
  have run: "mq_handle_message flow_from_str flow_router flow_message demo_rows = (Inr (), demo_rows @ [?row])"
    using stored
    by (simp add: mq_handle_message_def mq_build_message_def flow_message_def flow_from_str_def flow_router_def
        router_handle_def with_message_body_def postgres_output_def map_err_def bindE_def thenE_def map_errE_def)
  have "collectR (map unary_parse [unary 9]) = Inr [9]" using unary_parse_unary [of 9] by simp
  then obtain reply where query: "psql_query_multiple demo_document_driver demo_psql_query [unary 9] (demo_rows @ [?row]) =
      (Inr reply, demo_rows @ [?row])"
    using memory_query_multiple [of unary_parse "[unary 9]" "[9]"] by blast
  have d: "cm_payload (demo_message ''one'') = Inr ''one''" "acks_seen (\<lambda>w. w) (demo_message ''one'')"
    "re_value_from_str demo_router ''one'' = Inr JNull" "re_entry_from_str demo_router ''one'' = Inr (demo_entry 1)"
    "current_timestamp (re_clock demo_router []) = Some 5" "bi_data ?m = ''{}''"
    by (simp_all add: demo_message_def acks_seen_def demo_router_def current_timestamp_def routed_message_def demo_entry_def)
  have none: "coherent ll_contents demo_topic empty_cache" by (simp add: ll_contents_def empty_cache_def)
  have pr: "qd_uuid_to_string demo_document_driver = unary" "qd_uuid_parse demo_document_driver = unary_parse"
    by (simp_all add: memory_driver_def)
  have f: "flow_from_str (bi_data ?m) = Inr ?m" "cm_payload flow_message = Inr (bi_data ?m)"
    "leaves (\<lambda>w. w) (cm_ack flow_message)"
    "mr_output_plugin flow_router = postgres_output demo_document_store \<lparr>pp_pool = (), pp_schema = ''cdl''\<rparr>"
    "mr_from_str flow_router = pg_from_str demo_document_store"
    "with_message_body g (mr_report_sender flow_router) x = Some reporter \<Longrightarrow>
       leaves (\<lambda>w. w) (report (mr_to_vec flow_router) reporter text_of_it)" for g x reporter text_of_it
    using d(6)
    by (auto simp: flow_from_str_def flow_message_def flow_router_def leaves_def with_message_body_def)
  have oid: "dr_object_id (demo_entry 1) = (9 :: uuid)" "dr_schema_id (demo_entry 1) = 1"
    "dr_data (demo_entry 1) = ''{}''" by (simp_all add: demo_entry_def)
  have flow: "(\<exists>c' w'. handle_message demo_router ''errors'' ''r'' (demo_message ''one'') (empty_cache, []) = (Inr (), (c', w')) \<and>
      w' = [] @ [Sent ''A'' (message_key_of (demo_message ''one'')) (bi_data ?m), Acked]) \<and>
    (if Success = Success then
       \<exists>j. pg_from_str demo_document_store (dr_data (demo_entry 1)) = Inr j \<and>
         map_of reply (qd_uuid_to_string demo_document_driver (dr_object_id (demo_entry 1))) =
           (if \<forall>d \<in> set demo_rows. row_object_id d = dr_object_id (demo_entry 1) \<longrightarrow> sint (row_version d) \<le> sint (5 :: i64)
            then Some (qd_json_to_string demo_document_driver j)
            else map_option (qd_json_to_string demo_document_driver) (documents demo_rows (dr_object_id (demo_entry 1))))
     else demo_rows @ [?row] = demo_rows)"
    by (rule document_flow [where table = "\<lambda>w. w" and q = demo_psql_query, OF demo_lru demo_steady d(2) none d(1,3) _ d(4) _ d(5)
        f(2,1,4,5) _ f(3) _ _ _ demo_rows_ok(1) _ _ stored run])
      (use query f(6) memory_writer.document_writer_axioms memory_reader.document_reader_axioms in
        \<open>simp_all add: pr oid inj_unary unary_parse_unary demo_topic_def\<close>)
  moreover have "\<forall>d \<in> set demo_rows. row_object_id d \<noteq> 9" by (simp add: demo_rows_def)
  ultimately have "map_of reply (unary 9) = Some ''{}''"
    by (auto simp: oid pr memory_postgres_def memory_driver_def)
  with flow run query show ?thesis by auto
qed

section \<open>From the registry to the router\<close>

text \<open>
  A router whose registry is a node: its calls run the node's handlers, a status becomes its text,
  and the publisher appends to a log beside the node.
\<close>

definition registry_backed ::
  "('s, 'v, 'r) crates \<Rightarrow> ('c, ('s, 'v) node \<times> router_event list, 'k) router_env \<Rightarrow> bool" where
  "registry_backed E R \<longleftrightarrow>
     (\<forall>addr w. \<exists>k. rc_connect (re_registry R) addr w = (Inr k, w)) \<and>
     (\<forall>k i n log. rc_get_schema_topic (re_registry R) k i (n, log) =
        (case rpc_get_schema_topic E i n of
           (Inl f, n') \<Rightarrow> (Inl (failure_text f), (n', log)) | (Inr topic, n') \<Rightarrow> (Inr topic, (n', log)))) \<and>
     (\<forall>t k p n log. publish_message (re_publisher R) t k p (n, log) = (Inr (), (n, log @ [Sent t k p]))) \<and>
     re_uuid_to_string R = uuid_to_string E"

text \<open>The topic of a schema that was just added.\<close>

lemma added_topic:
  assumes env: "registry_env E \<alpha>" and run: "add_schema E ns uid s = (Inr i, t)" and lim: "within_limit (\<alpha> t)"
  shows "yields (get_schema_topic E i) t (\<lambda>r. r = Inr (ns_kafka_topic ns))"
proof -
  from registry_env.add_schema_effect [OF env run] obtain d v j
    where d: "d \<noteq> i" and t: "\<alpha> t = with_version E i d v j (with_schema i (fst (new_schema_vertex ns)) (\<alpha> s))"
    by auto
  have "vertices (\<alpha> t) i = Some (''SCHEMA'', map_of (schema_into_properties (fst (new_schema_vertex ns))))"
    using d by (auto simp: t with_version_def with_schema_def)
  then show ?thesis
    using registry_env.yields_get_schema_property [OF env lim, of as_str "''SCHEMA_TOPIC_NAME''" i]
    by (simp add: get_schema_topic_def schema_into_properties_def new_schema_vertex_def ok_or_def)
qed

text \<open>
  C2. A schema that was added at the registry is routed to its topic. A router that has no entry for
  the schema in its cache asks the registry and publishes the message to the topic of the request
  that added the schema; it fails only when the registry's database does, and then nothing is
  published. What the cache holds for the schema afterwards is that topic.
\<close>

theorem added_schema_is_routed:
  assumes "registry_env E \<alpha>" and "registry_backed E R" and "lru (re_lru R) contents"
    and "\<And>i. uuid_parse_str E (uuid_to_string E i) = Inr i"
    and "rpc_add_schema E te q n = (Inr reply, n')" and "rns_id q = []" and "within_limit (\<alpha> (node_db n'))"
    and "uuid_parse_str E reply = Inr (dr_schema_id entry)" and "contents c (dr_schema_id entry) = None"
    and "current_timestamp (re_clock R (n', log)) = Some now"
    and "re_to_vec R (routed_message entry now) = Inr bytes"
    and "route R entry key addr (c, (n', log)) = (r, (c', (n'', log')))"
  shows "case r of
      Inr _ \<Rightarrow> log' = log @ [Sent (rns_topic q) key bytes] \<and>
        (\<forall>topic. contents c' (dr_schema_id entry) = Some topic \<longrightarrow> topic = rns_topic q)
    | Inl e \<Rightarrow> log' = log \<and> (\<exists>d. db_failure d \<and> e = RouteError [registry_error_to_string E d])"
proof -
  obtain ns i where ns: "ns_kafka_topic ns = rns_topic q" and run: "add_schema E ns None (node_db n) = (Inr i, node_db n')"
    and "reply = uuid_to_string E i"
    by (rule rpc_add_schema_run [OF assms(5,6)])
  then have i: "i = dr_schema_id entry" using assms(4,8) by simp
  obtain g t where g: "get_schema_topic E i (node_db n') = (g, t)" by fastforce
  from added_topic [OF assms(1) run assms(7)] g ns have y: "case g of Inl d \<Rightarrow> db_failure d | Inr x \<Rightarrow> x = rns_topic q"
    by (simp add: yields_def split: sum.splits)
  have f: "fetch_topic R addr i (n', log) =
      (map_err (\<lambda>d. [registry_error_to_string E d]) g, (n'\<lparr>node_db := t\<rparr>, log))"
  proof -
    obtain k where "rc_connect (re_registry R) addr (n', log) = (Inr k, (n', log))"
      using assms(2) unfolding registry_backed_def by blast
    then show ?thesis using assms(2)
      by (cases g) (simp_all add: registry_backed_def fetch_topic_def connect_registry_def rpc_connect_def
          rpc_get_schema_topic_def rpc_by_id_def rpc_pure_def parse_uuid_def assms(4) rpc_db_def g bindE_def map_errE_def
          map_err_def status_of_error_def)
  qed
  obtain c1 where look: "lru_get (re_lru R) i c = (None, c1)" "contents c1 = contents c"
    using lru.get_value [OF assms(3), of i c] lru.get_keeps [OF assms(3), of i c] assms(9) i
    by (cases "lru_get (re_lru R) i c") auto
  show ?thesis
  proof (cases g)
    case (Inl d)
    with y assms(10,12) f look show ?thesis
      by (auto simp: route_def cached_schema_topic_def read_through_def map_errE_def map_err_def bindE_def Let_def
          i [symmetric])
  next
    case (Inr x)
    have "contents (lru_insert (re_lru R) i x c1) i = Some topic \<Longrightarrow> topic = x" for topic
      using lru.insert_bound [OF assms(3), of i x c1] by (metis domI fun_upd_same map_le_def option.inject)
    with Inr y assms(2,10-12) f look show ?thesis
      by (auto simp: route_def cached_schema_topic_def read_through_def map_errE_def map_err_def bindE_def Let_def
          i [symmetric] routed_message_def send_message_def on_world_def registry_backed_def)
  qed
qed

text \<open>A router whose registry is the sample node, and a message for the schema that is added to it.\<close>

definition node_router ::
  "((uuid, string) lru_list, (mem, triple) node \<times> router_event list, unit) router_env" where
  "node_router =
     \<lparr>re_lru = lru_list_ops, re_clock = (\<lambda>w. 5),
      re_registry = \<lparr>rc_connect = (\<lambda>addr w. (Inr (), w)),
        rc_get_schema_topic = (\<lambda>k i (n, log). case rpc_get_schema_topic demo_env i n of
           (Inl f, n') \<Rightarrow> (Inl (failure_text f), (n', log)) | (Inr topic, n') \<Rightarrow> (Inr topic, (n', log))),
        rc_get_schema_query_address = (\<lambda>k i w. (Inl ''unused'', w)),
        rc_get_schema_type = (\<lambda>k i w. (Inl ''unused'', w))\<rparr>,
      re_publisher = KafkaPublisher (\<lambda>topic payload key timeout (n, log). (Inr (), (n, log @ [Sent topic key payload]))),
      re_uuid_to_string = uuid_to_string demo_env, re_to_vec = (\<lambda>m. Inr (bi_data m)),
      re_value_from_str = (\<lambda>s. Inr JNull), re_entry_from_str = (\<lambda>s. Inl ''EOF''),
      re_entries_from_str = (\<lambda>s. Inl ''EOF''), re_debug = concat\<rparr>"

lemma node_router_backed: "registry_backed demo_env node_router"
  by (simp add: registry_backed_def node_router_def map_errE_def)

lemma demo_stored_topic: "\<exists>t. get_schema_topic demo_env 0 demo_stored = (Inr ''t'', t)"
proof -
  obtain g t where g: "get_schema_topic demo_env 0 demo_stored = (g, t)" by fastforce
  then have "\<not> db_failure e" if "g = Inl e" for e
    using that by (auto simp: get_schema_topic_def get_schema_property_def run_simps ok_or_def split: option.splits)
  with added_topic [OF demo_registry demo_stored_run demo_stored_limit] g show ?thesis
    by (cases g) (auto simp: yields_def demo_schema_def)
qed

theorem added_schema_is_routed_witness:
  "\<exists>n' s. rpc_add_schema demo_env (\<lambda>topic. Inr True) \<lparr>rns_id = [], rns_name = ''orders'', rns_query_address = ''q'',
       rns_topic = ''t'', rns_definition = ''{}'', rns_schema_type = 1\<rparr> demo_node = (Inr (id_char 0), n') \<and>
     route node_router (demo_entry 0) ''k'' ''r'' (empty_cache, (n', [])) = (Inr (), s) \<and> snd (snd s) = [Sent ''t'' ''k'' ''{}'']"
proof -
  from demo_rpc_add_schema obtain n' where run: "rpc_add_schema demo_env (\<lambda>topic. Inr True) \<lparr>rns_id = [],
      rns_name = ''orders'', rns_query_address = ''q'', rns_topic = ''t'', rns_definition = ''{}'', rns_schema_type = 1\<rparr>
      demo_node = (Inr (id_char 0), n')" "node_db n' = demo_stored" by blast
  obtain r c' n'' log' where route: "route node_router (demo_entry 0) ''k'' ''r'' (empty_cache, (n', [])) =
      (r, (c', (n'', log')))" by (metis prod.exhaust)
  have parse: "uuid_parse_str demo_env (uuid_to_string demo_env i) = Inr i" for i
    by (simp add: demo_env_def char_id_id_char)
  have e: "uuid_parse_str demo_env (id_char 0) = Inr (dr_schema_id (demo_entry 0))"
    using char_id_id_char [of 0] by (simp add: demo_env_def demo_entry_def)
  have limit: "within_limit (mem_graph (node_db n'))" using run(2) demo_stored_limit by simp
  have c: "lru (re_lru node_router) ll_contents" "ll_contents empty_cache (dr_schema_id (demo_entry 0)) = None"
    "current_timestamp (re_clock node_router (n', [])) = Some 5"
    "re_to_vec node_router (routed_message (demo_entry 0) 5) = Inr ''{}''"
    using lru_list_lru
    by (simp_all add: node_router_def ll_contents_def empty_cache_def current_timestamp_def routed_message_def demo_entry_def)
  note routed = added_schema_is_routed [OF demo_registry node_router_backed c(1) parse run(1) _ limit e c(2-4) route]
  have "parse_uuid demo_env (uuid_to_string demo_env 0) = Inr 0" using parse [of 0] by (simp add: parse_uuid_def map_err_def)
  moreover obtain t where "get_schema_topic demo_env 0 demo_stored = (Inr ''t'', t)" using demo_stored_topic by blast
  ultimately have "fetch_topic node_router ''r'' 0 (n', []) = (Inr ''t'', (n'\<lparr>node_db := t\<rparr>, []))"
    using run(2)
    by (simp add: fetch_topic_def node_router_def connect_registry_def rpc_connect_def bindE_def map_errE_def
        rpc_get_schema_topic_def rpc_by_id_def rpc_pure_def rpc_db_def map_err_def)
  then have "\<not> isl r"
    using route c(3,4)
    by (auto simp: route_def cached_schema_topic_def read_through_def node_router_def lru_list_ops_def ll_get_def
        empty_cache_def demo_entry_def bindE_def map_errE_def map_err_def send_message_def on_world_def Let_def)
  with routed route run(1) show ?thesis by (cases r) auto
qed

end
