(* ===== verification/Registry_Service.thy ===== *)
theory Registry_Service
  imports Registry_Rpc Demo_Env
begin

text \<open>
  Properties of the registry's gRPC service: which writes are replicated, how malformed
  identifiers are answered, and what a partly applied metadata update leaves behind.
\<close>

section \<open>The writes of the service\<close>

datatype write_request =
    WriteSchema rq_new_schema
  | WriteVersion rq_new_schema_version
  | WriteMetadata rq_schema_metadata_update
  | WriteView rq_new_schema_view
  | WriteViewUpdate rq_updated_view

primrec rpc_write :: "('s, 'v, 'r) crates \<Rightarrow> (string \<Rightarrow> (string, bool) result) \<Rightarrow> write_request \<Rightarrow>
    ('s, 'v, unit) rpc_op" where
  "rpc_write E topic_exists (WriteSchema request) = discard (rpc_add_schema E topic_exists request)"
| "rpc_write E topic_exists (WriteVersion request) = rpc_add_schema_version E request"
| "rpc_write E topic_exists (WriteMetadata request) = rpc_update_schema_metadata E topic_exists request"
| "rpc_write E topic_exists (WriteView request) = discard (rpc_add_view_to_schema E request)"
| "rpc_write E topic_exists (WriteViewUpdate request) = discard (rpc_update_view E request)"

text \<open>The event that stands for a request: its parsed fields.\<close>

fun event_of_write :: "('s, 'v, 'r) crates \<Rightarrow> write_request \<Rightarrow> 'v replication_event \<Rightarrow> bool" where
  "event_of_write E (WriteSchema q) (AddSchema schema uid) \<longleftrightarrow>
     ns_name schema = rns_name q \<and> ns_kafka_topic schema = rns_topic q \<and>
     ns_query_address schema = rns_query_address q \<and>
     ns_schema_type schema = schema_type_getter (rns_schema_type q) \<and>
     json_from_str E (rns_definition q) = Inr (ns_definition schema)"
| "event_of_write E (WriteVersion q) (AddSchemaVersion uid v) \<longleftrightarrow>
     uuid_parse_str E (rnv_id q) = Inr uid \<and> version_parse E (rnv_version q) = Inr (nv_version v) \<and>
     json_from_str E (rnv_definition q) = Inr (nv_definition v)"
| "event_of_write E (WriteMetadata q) (UpdateSchemaMetadata uid name topic query_address schema_type) \<longleftrightarrow>
     uuid_parse_str E (rmu_id q) = Inr uid \<and> name = rmu_name q \<and> topic = rmu_topic q \<and>
     query_address = rmu_address q \<and> schema_type = None"
| "event_of_write E (WriteView q) (AddViewToSchema schema_id view view_id) \<longleftrightarrow>
     uuid_parse_str E (rsv_schema_id q) = Inr schema_id \<and>
     view = \<lparr>view_name = rsv_name q, view_jmespath = rsv_jmespath q\<rparr>"
| "event_of_write E (WriteViewUpdate q) (UpdateView uid u) \<longleftrightarrow>
     uuid_parse_str E (ruv_id q) = Inr uid \<and> u = \<lparr>vu_name = ruv_name q, vu_jmespath = ruv_jmespath q\<rparr>"
| "event_of_write E _ _ \<longleftrightarrow> False"

section \<open>Operations that leave the replication state alone\<close>

text \<open>
  \<open>quiet m\<close>: the operation touches the node's database only and fails, if it does, with a
  status.
\<close>

definition quiet :: "('s, 'v, 'a) rpc_op \<Rightarrow> bool" where
  "quiet m \<longleftrightarrow> (\<forall>n. node_repl (snd (m n)) = node_repl n \<and> node_poisoned (snd (m n)) = node_poisoned n \<and>
     (\<forall>f. fst (m n) = Inl f \<longrightarrow> (\<exists>st. f = Refused st)))"

named_theorems quiets

lemma quietD:
  "quiet m \<Longrightarrow> m n = (r, n') \<Longrightarrow> node_repl n' = node_repl n \<and> node_poisoned n' = node_poisoned n \<and>
     (\<forall>f. r = Inl f \<longrightarrow> (\<exists>st. f = Refused st))"
  by (metis quiet_def fst_conv snd_conv)

lemma quiet_basic [quiets]:
  "quiet (returnE x)" "quiet (rpc_pure r)" "quiet (rpc_error E e)" "quiet (rpc_db E m)"
  by (auto simp: quiet_def rpc_pure_def rpc_error_def rpc_db_def map_err_def split: prod.splits sum.splits)

lemma quiet_bindE [quiets]: "quiet m \<Longrightarrow> (\<And>x. quiet (f x)) \<Longrightarrow> quiet (bindE m f)"
  unfolding quiet_def
proof
  fix n
  assume m: "\<forall>n. node_repl (snd (m n)) = node_repl n \<and> node_poisoned (snd (m n)) = node_poisoned n \<and>
      (\<forall>f. fst (m n) = Inl f \<longrightarrow> (\<exists>st. f = Refused st))"
    and f: "\<And>x. \<forall>n. node_repl (snd (f x n)) = node_repl n \<and> node_poisoned (snd (f x n)) = node_poisoned n \<and>
      (\<forall>e. fst (f x n) = Inl e \<longrightarrow> (\<exists>st. e = Refused st))"
  obtain q t where q: "m n = (q, t)" by fastforce
  show "node_repl (snd (bindE m f n)) = node_repl n \<and> node_poisoned (snd (bindE m f n)) = node_poisoned n \<and>
      (\<forall>e. fst (bindE m f n) = Inl e \<longrightarrow> (\<exists>st. e = Refused st))"
    using m [THEN spec [where x = n]] f [THEN spec [where x = t]] q by (cases q) auto
qed

lemma quiet_thenE [quiets]: "quiet m \<Longrightarrow> quiet k \<Longrightarrow> quiet (thenE m k)"
  by (simp add: thenE_def quiet_bindE)

lemma quiet_if_some [quiets]: "(\<And>x. quiet (f x)) \<Longrightarrow> quiet (if_some y f)"
  by (auto simp: if_some_def quiet_basic split: option.splits)

lemma quiet_require_topic [quiets]: "quiet (require_topic E topic_exists topic)"
  by (auto simp: require_topic_def quiet_basic split: sum.splits)

lemma quiet_schema_type [quiets]:
  "quiet (case schema_type_from_i32 k of None \<Rightarrow> rpc_error E InvalidSchemaType | Some ty \<Rightarrow> rpc_db E (f ty))"
  by (auto simp: quiet_basic split: option.splits)

text \<open>
  \<open>replicates R m\<close>: on success exactly one event, one that meets \<open>R\<close>, is replicated; on a
  refusal none is; the process only aborts on a poisoned mutex.
\<close>

definition replicates :: "('v replication_event \<Rightarrow> bool) \<Rightarrow> ('s, 'v, 'a) rpc_op \<Rightarrow> bool" where
  "replicates R m \<longleftrightarrow> (\<forall>n. case fst (m n) of
      Inr y \<Rightarrow> \<exists>ev. R ev \<and> node_repl (snd (m n)) = replicate_message ev (node_repl n)
    | Inl f \<Rightarrow> (case f of Refused st \<Rightarrow> node_repl (snd (m n)) = node_repl n
        | Panicked \<Rightarrow> False | Aborted \<Rightarrow> node_poisoned n))"

lemma replicates_message:
  "R ev \<Longrightarrow> replicates R (rpc_replicate_message ev)"
  "R ev \<Longrightarrow> replicates R (thenE (rpc_replicate_message ev) (returnE y))"
  by (auto simp: replicates_def rpc_replicate_message_def lock_replication_def thenE_def bindE_def)

lemma replicates_bind:
  assumes q: "quiet m" and f: "\<And>x. replicates R (f x)"
  shows "replicates R (bindE m f)"
  unfolding replicates_def
proof
  fix n
  obtain r n1 where m: "m n = (r, n1)" by fastforce
  note q' = quietD [OF q m]
  show "case fst (bindE m f n) of
      Inr y \<Rightarrow> \<exists>ev. R ev \<and> node_repl (snd (bindE m f n)) = replicate_message ev (node_repl n)
    | Inl e \<Rightarrow> (case e of Refused st \<Rightarrow> node_repl (snd (bindE m f n)) = node_repl n
        | Panicked \<Rightarrow> False | Aborted \<Rightarrow> node_poisoned n)"
  proof (cases r)
    case (Inr x)
    then show ?thesis using f [of x, unfolded replicates_def, rule_format, of n1] q' m
      by (simp split: sum.splits rpc_failure.splits)
  qed (use q' m in auto)
qed

lemma replicates_then: "quiet m \<Longrightarrow> replicates R k \<Longrightarrow> replicates R (thenE m k)"
  unfolding thenE_def by (rule replicates_bind)

lemma replicates_pure:
  "(\<And>x. r = Inr x \<Longrightarrow> replicates R (f x)) \<Longrightarrow> replicates R (bindE (rpc_pure r) f)"
  by (cases r) (auto simp: replicates_def rpc_pure_def bindE_def map_err_def)

lemma discard_sum: "fst (discard m n) = map_sum (\<lambda>e. e) (\<lambda>_. ()) (fst (m n)) \<and> snd (discard m n) = snd (m n)"
  by (auto simp: discard_def thenE_def bindE_def split: prod.splits sum.splits)

lemma replicates_discard:
  assumes "replicates R m"
  shows "replicates R (discard m)"
  unfolding replicates_def
proof
  fix n
  show "case fst (discard m n) of
      Inr y \<Rightarrow> \<exists>ev. R ev \<and> node_repl (snd (discard m n)) = replicate_message ev (node_repl n)
    | Inl f \<Rightarrow> (case f of Refused st \<Rightarrow> node_repl (snd (discard m n)) = node_repl n
        | Panicked \<Rightarrow> False | Aborted \<Rightarrow> node_poisoned n)"
    using assms [unfolded replicates_def, THEN spec [where x = n]] discard_sum [of m n]
    by (cases "fst (m n)") (simp_all split: rpc_failure.splits)
qed

lemma parse_Inr:
  "parse_uuid E x = Inr u \<longleftrightarrow> uuid_parse_str E x = Inr u"
  "parse_json E x = Inr j \<longleftrightarrow> json_from_str E x = Inr j"
  "parse_version E x = Inr v \<longleftrightarrow> version_parse E x = Inr v"
  by (simp_all add: parse_uuid_def parse_json_def parse_version_def)

lemma replicates_write: "replicates (event_of_write E w) (rpc_write E topic_exists w)"
proof (cases w)
  case (WriteSchema q)
  show ?thesis unfolding WriteSchema rpc_write.simps rpc_add_schema_def Let_def
    by (rule replicates_discard, rule replicates_pure, rule replicates_pure, rule replicates_then,
        rule quiets, rule replicates_bind, rule quiets, rule replicates_message)
      (simp add: parse_Inr)
next
  case (WriteVersion q)
  show ?thesis unfolding WriteVersion rpc_write.simps rpc_add_schema_version_def Let_def
    by (rule replicates_pure, rule replicates_pure, rule replicates_pure, rule replicates_then,
        rule quiets, rule replicates_message) (simp add: parse_Inr)
next
  case (WriteMetadata q)
  show ?thesis unfolding WriteMetadata rpc_write.simps rpc_update_schema_metadata_def
    by (rule replicates_pure, rule replicates_then [OF quiet_if_some], rule quiet_require_topic,
        rule replicates_then [OF quiet_if_some], rule quiet_basic, rule replicates_then [OF quiet_if_some],
        rule quiet_basic, rule replicates_then [OF quiet_if_some], rule quiet_basic,
        rule replicates_then [OF quiet_if_some], rule quiet_schema_type, rule replicates_message)
      (simp add: parse_Inr)
next
  case (WriteView q)
  show ?thesis unfolding WriteView rpc_write.simps rpc_add_view_to_schema_def Let_def
    by (rule replicates_discard, rule replicates_pure, rule replicates_pure, rule replicates_bind,
        rule quiets, rule replicates_message) (simp add: parse_Inr)
next
  case (WriteViewUpdate q)
  show ?thesis unfolding WriteViewUpdate rpc_write.simps rpc_update_view_def Let_def
    by (rule replicates_discard, rule replicates_pure, rule replicates_bind,
        rule quiets, rule replicates_message) (simp add: parse_Inr)
qed

section \<open>Properties\<close>


text \<open>The identifier a write names; a new schema may come without one.\<close>

primrec write_id :: "write_request \<Rightarrow> string" where
  "write_id (WriteSchema q) = rns_id q"
| "write_id (WriteVersion q) = rnv_id q"
| "write_id (WriteMetadata q) = rmu_id q"
| "write_id (WriteView q) = rsv_schema_id q"
| "write_id (WriteViewUpdate q) = ruv_id q"

text \<open>
  A write with an identifier that is not a UUID is answered with \<open>InvalidArgument\<close> and leaves
  the node as it was; only a new schema may leave the identifier empty.
\<close>

theorem malformed_id_is_invalid_argument:
  assumes "uuid_parse_str E (write_id w) = Inl err" and "write_id w \<noteq> []"
  shows "\<exists>msg. rpc_write E topic_exists w n = (Inl (Refused \<lparr>st_code = InvalidArgument, st_message = msg @ err\<rparr>), n)"
  using assms
  by (cases w)
    (auto simp: rpc_add_schema_def rpc_add_schema_version_def rpc_update_schema_metadata_def
      rpc_add_view_to_schema_def rpc_update_view_def discard_def thenE_def bindE_def rpc_pure_def
      parse_uuid_def parse_optional_uuid_def map_err_def bindR_def status_new_def)

text \<open>
  A metadata update whose schema type is not one of the known ones is refused, but after the
  name has been written: the stored name changes although the caller gets an error, and the
  change is not replicated.
\<close>

theorem refused_metadata_update_keeps_name:
  assumes "uuid_parse_str E (rmu_id q) = Inr uid" and "rmu_name q = Some name" and "rmu_topic q = None"
    and "rmu_address q = None" and "rmu_schema_type q = Some k" and "schema_type_from_i32 k = None"
    and "update_schema_name E uid name (node_db n) = (Inr (), s)"
  shows "rpc_update_schema_metadata E topic_exists q n =
    (Inl (Refused (status_of_error E InvalidSchemaType)), n\<lparr>node_db := s\<rparr>)"
  using assms
  by (simp add: rpc_update_schema_metadata_def parse_uuid_def rpc_pure_def if_some_def rpc_db_def rpc_error_def
      map_err_def bindE_def thenE_def)

text \<open>Sample requests over the sample history of the registry.\<close>

definition demo_node :: "(mem, triple) node" where
  "demo_node =
     \<lparr>node_db = demo_s1,
      node_repl = (case set_role Master replication_state_new of Some st \<Rightarrow> st | None \<Rightarrow> replication_state_new),
      node_poisoned = False\<rparr>"

definition demo_version_request :: rq_new_schema_version where
  "demo_version_request = \<lparr>rnv_id = ''A'', rnv_version = ''2.0.0'', rnv_definition = ''{}''\<rparr>"

lemma demo_version_write:
  "\<exists>n'. rpc_write demo_env te (WriteVersion demo_version_request) demo_node = (Inr (), n')"
proof -
  have id: "char_id ''A'' = Inr 65" by (simp add: char_id_def of_char_def)
  have "add_new_version_of_schema demo_env 65 \<lparr>nv_version = (2, 0, 0), nv_definition = JObject []\<rparr> demo_s1 =
      (Inr (), demo_s1\<lparr>mem_vertices := (1, ''DEFINITION'', [(''DEFINITION'', JObject [])]) # mem_vertices demo_s1,
        mem_edges := (\<lparr>outbound_id = 65, e_t = ''SCHEMA_DEFINITION'', inbound_id = 1\<rparr>,
         [(''VERSION'', triple_to_value (2, 0, 0))]) # mem_edges demo_s1\<rparr>)"
    by (simp add: demo_s1_def demo_schema_def add_new_version_of_schema_def run_ops cong: run_congs)
  then show ?thesis
    by (simp add: demo_version_request_def demo_node_def rpc_add_schema_version_def rpc_pure_def parse_uuid_def
        parse_version_def parse_json_def map_err_def Let_def id rpc_db_def rpc_replicate_message_def lock_replication_def
        bindE_def thenE_def demo_env_def [THEN arg_cong [where f = version_parse]]
        demo_env_def [THEN arg_cong [where f = json_from_str]])
qed


theorem malformed_id_is_invalid_argument_witness:
  "\<exists>msg. rpc_write demo_env (\<lambda>_. Inr True) (WriteVersion \<lparr>rnv_id = ''AB'', rnv_version = [], rnv_definition = []\<rparr>) demo_node =
     (Inl (Refused \<lparr>st_code = InvalidArgument, st_message = msg @ ''invalid length''\<rparr>), demo_node)"
  by (rule malformed_id_is_invalid_argument) (simp_all add: char_id_def)

theorem refused_metadata_update_keeps_name_witness:
  "\<exists>st s. rpc_update_schema_metadata demo_env (\<lambda>_. Inr True) \<lparr>rmu_id = ''A'', rmu_name = Some ''bills'', rmu_topic = None,
       rmu_address = None, rmu_schema_type = Some 7\<rparr> demo_node = (Inl (Refused st), demo_node\<lparr>node_db := s\<rparr>) \<and>
     schema_at (mem_graph s) 65 \<noteq> schema_at (mem_graph demo_s1) 65"
proof -
  define s where "s = demo_s1\<lparr>mem_vertices := [(0, ''DEFINITION'', [(''DEFINITION'', JObject [])]),
         (65, ''SCHEMA'', schema_into_properties ((fst (new_schema_vertex demo_schema))\<lparr>s_name := ''bills''\<rparr>))]\<rparr>"
  have id: "uuid_parse_str demo_env (rmu_id \<lparr>rmu_id = ''A'', rmu_name = Some ''bills'', rmu_topic = None,
      rmu_address = None, rmu_schema_type = Some 7\<rparr>) = Inr 65" by (simp add: char_id_def of_char_def)
  have upd: "update_schema_name demo_env 65 ''bills'' demo_s1 = (Inr (), s)"
    by (simp add: s_def demo_s1_def demo_schema_def update_schema_name_def update_schema_property_def
        set_vertex_properties_def run_puts run_ops cong: run_congs)
  have "schema_at (mem_graph s) 65 \<noteq> schema_at (mem_graph demo_s1) 65"
    by (simp add: s_def demo_s1_def demo_schema_def new_schema_vertex_def schema_at_def mem_graph_def
        schema_into_properties_def schema_decode_def schema_type_from_str_def)
  then show ?thesis
    using refused_metadata_update_keeps_name [OF id, where name = "''bills''" and k = 7 and n = demo_node and
      s = s and topic_exists = "\<lambda>_. Inr True"] upd
    by (simp add: demo_node_def schema_type_from_i32_def)
qed

end
