(* ===== verification/Command_Props.thy ===== *)
theory Command_Props
  imports Output_Plugins
begin

text \<open>
  Properties of the command service: what an acknowledgement promises, the outcomes of the three
  plugins, the line protocol, and the configuration.
\<close>

section \<open>Acknowledgement\<close>


section \<open>PostgreSQL\<close>


text \<open>A pool whose statements append to a table meets the contract.\<close>

definition table_row :: "(string \<Rightarrow> (string, json) result) \<Rightarrow> borrowed_insert_message \<Rightarrow> insert_row list \<Rightarrow> bool" where
  "table_row from_str m rows \<longleftrightarrow> (\<exists>j. from_str (bi_data m) = Inr j \<and>
     \<lparr>row_object_id = bi_object_id m, row_version = bi_timestamp m, row_schema_id = bi_schema_id m,
      row_payload = j\<rparr> \<in> set rows)"

definition table_postgres :: "(insert_row list, unit, unit) postgres" where
  "table_postgres =
     \<lparr>pg_build_pool = (\<lambda>config size timeout. Inr ()), pg_get = (\<lambda>pool w. (Inr (), w)),
      pg_query = (\<lambda>conn stmt row w. if row \<in> set w then (Inl ''duplicate key'', w) else (Inr (), w @ [row])),
      pg_from_str = (\<lambda>s. if s = [] then Inl ''EOF'' else Inr (JString s))\<rparr>"

interpretation table: storing_plugin "postgres_output table_postgres \<lparr>pp_pool = (), pp_schema = s\<rparr>"
    "table_row (pg_from_str table_postgres)"
  by unfold_locales
    (auto simp: postgres_output_def postgres_handle_def table_postgres_def table_row_def split: if_splits)

section \<open>Druid\<close>

text \<open>
  The Druid plugin answers success whenever the data can be decoded, whatever the producer
  does: a message none of whose records was sent is resolved, reported and acknowledged as stored.
  So no notion of storage that needs a successful send makes it meet the contract of a plugin.
\<close>

lemma send_records_refused:
  "(\<And>r w. dd_send D r w = (Inl e, w)) \<Longrightarrow> send_records D rs w = (map (\<lambda>_. Inl (StorageLayerFailure e)) rs, w)"
  by (induction rs) auto

theorem druid_success_without_delivery:
  assumes "dd_inputs_from_str D (bi_data msg) = Inr inputs" and "\<And>r w. dd_send D r w = (Inl e, w)"
    and "\<not> kept msg w"
  shows "druid_handle D topic msg w = (Success, w) \<and> \<not> storing_plugin (druid_output_plugin D topic) kept"
proof -
  have run: "druid_handle D topic msg w = (Success, w)"
    using assms(1) by (simp add: druid_handle_def deserialize_payloads_def send_records_refused [OF assms(2)] Let_def)
  moreover have "\<not> storing_plugin (druid_output_plugin D topic) kept"
    using run assms(3) by (auto simp: storing_plugin_def druid_output_plugin_def)
  ultimately show ?thesis by blast
qed

section \<open>The line protocol\<close>

definition scalar :: "json \<Rightarrow> bool" where
  "scalar j \<longleftrightarrow> \<not> is_array j \<and> \<not> is_null j \<and> \<not> is_object j"

lemma collectR_ok: "(\<exists>ys. collectR rs = Inr ys) \<longleftrightarrow> (\<forall>r \<in> set rs. \<exists>y. r = Inr y)"
  by (induction rs rule: collectR.induct) (auto split: sum.splits)

lemma get_object_fields_ok:
  "(\<exists>t. get_object_fields V p = Inr t) \<longleftrightarrow> pl_fields p \<noteq> [] \<and> (\<forall>(k, v) \<in> set (pl_fields p). scalar v)"
proof (cases "pl_fields p = []")
  case False
  then have "(\<exists>t. get_object_fields V p = Inr t) \<longleftrightarrow>
    (\<exists>ys. collectR (map (\<lambda>(key, value). if is_array value \<or> is_null value \<or> is_object value
      then Inl InvalidFieldType else Inr (key @ ''='' @ vm_value_to_string V value)) (pl_fields p)) = Inr ys)"
    by (auto simp: get_object_fields_def bindR_Inr_iff)
  also have "\<dots> \<longleftrightarrow> (\<forall>(k, v) \<in> set (pl_fields p). scalar v)"
    unfolding collectR_ok by (auto simp: scalar_def)
  finally show ?thesis using False by simp
qed (simp add: get_object_fields_def)


text \<open>
  A field key is copied into the line unescaped: a key that contains a line break and the text
  of another line makes one payload produce two lines, the second one with a measurement and an
  object of the sender's choice.
\<close>

theorem field_key_injects_line:
  assumes "vm_payloads_from_str V raw = Inr [\<lparr>pl_fields = [(''a=1 0'' @ [CHR 0x0A] @ evil @ '' b'', v)], pl_ts = ts\<rparr>]"
    and "scalar v" and "CHR 0x0A \<notin> set (vm_uuid_to_string V schema)" and "CHR 0x0A \<notin> set (vm_uuid_to_string V object)"
    and "CHR 0x0A \<notin> set evil" and "CHR 0x0A \<notin> set (vm_value_to_string V v)"
  shows "\<exists>text. build_line_protocol V schema object raw = Inr text \<and>
    split_on (CHR 0x0A) text =
      [vm_uuid_to_string V schema @ '',objectId='' @ vm_uuid_to_string V object @ '' a=1 0'',
       evil @ '' b='' @ vm_value_to_string V v @ '' '' @ nat_to_string (unat ts)]"
proof -
  let ?l1 = "vm_uuid_to_string V schema @ '',objectId='' @ vm_uuid_to_string V object @ '' a=1 0''"
  let ?l2 = "evil @ '' b='' @ vm_value_to_string V v @ '' '' @ nat_to_string (unat ts)"
  have "CHR 0x0A \<notin> set (nat_to_string (unat ts))"
    using nat_to_string_digits [of "CHR 0x0A"] by (auto simp: byte_def)
  moreover have "build_line_protocol V schema object raw = Inr (join_with [CHR 0x0A] [?l1, ?l2])"
    using assms(1,2)
    by (simp add: build_line_protocol_def payload_line_def get_object_fields_def scalar_def map_err_def)
  moreover from calculation(1) have "split_on (CHR 0x0A) (join_with [CHR 0x0A] [?l1, ?l2]) = [?l1, ?l2]"
    by (intro join_with_split) (use assms(3-6) in auto)
  ultimately show ?thesis by blast
qed

section \<open>Configuration\<close>

text \<open>
  Writing queue names with commas between them and reading the configuration gives the names
  back, when none is empty or contains a comma; and whatever the arguments are, a queue
  configuration that is accepted has at least one queue, only such names, and the task limit given.
\<close>

lemma queue_names_ok: "x \<in> set (queue_names names) \<Longrightarrow> x \<noteq> [] \<and> CHR '','' \<notin> set x"
  by (auto simp: queue_names_def split_on_no_sep)

theorem queue_configuration:
  fixes args :: communication_args
  shows "(\<forall>names. (\<forall>n \<in> set names. n \<noteq> [] \<and> CHR '','' \<notin> set n) \<longrightarrow>
      queue_names (Some (join_with '','' names)) = names) \<and>
    (\<forall>config exclusive. communication_config args = Inr (MessageQueueComm config) \<longrightarrow>
      mq_task_limit config = ca_task_limit args \<and>
      length (ordered_configs exclusive config) = length (queue_names (ca_ordered args)) \<and>
      length (unordered_configs exclusive config) = length (queue_names (ca_unordered args)) \<and>
      0 < length (ordered_configs exclusive config) + length (unordered_configs exclusive config) \<and>
      (\<forall>n \<in> set (queue_names (ca_ordered args)) \<union> set (queue_names (ca_unordered args)).
         n \<noteq> [] \<and> CHR '','' \<notin> set n))"
proof -
  have "queue_names (Some (join_with '','' names)) = names"
    if "\<forall>n \<in> set names. n \<noteq> [] \<and> CHR '','' \<notin> set n" for names
  proof (cases "names = []")
    case False
    then have "split_on CHR '','' (join_with '','' names) = names"
      using join_with_split [of names "CHR '',''"] that by simp
    then show ?thesis using that by (simp add: queue_names_def)
  qed (simp add: queue_names_def)
  moreover have "mq_task_limit config = ca_task_limit args \<and>
      length (ordered_configs exclusive config) = length (queue_names (ca_ordered args)) \<and>
      length (unordered_configs exclusive config) = length (queue_names (ca_unordered args)) \<and>
      0 < length (ordered_configs exclusive config) + length (unordered_configs exclusive config)"
    if "communication_config args = Inr (MessageQueueComm config)" for config and exclusive :: "bool \<Rightarrow> 'o"
    using that
    by (cases "ca_method args")
      (auto simp: communication_config_def bindR_Inr_iff Let_def split: if_splits)
  ultimately show ?thesis using queue_names_ok by blast
qed

text \<open>
  A command service that is configured for gRPC input and for reports panics when it starts,
  although both parts of the configuration are accepted: the report sender only knows how to build
  its producer from a message queue configuration.
\<close>

theorem grpc_with_reports_panics:
  assumes "ca_method args = MethodGRpc" and "ca_grpc_port args = Some port"
  shows "\<exists>config. communication_config args = Inr config \<and>
    start_services M exclusive new_kafka new_amqp from_str to_vec config (Some topic) output = StartPanicked \<and>
    (\<exists>router. start_services M exclusive new_kafka new_amqp from_str to_vec config None output = StartedGrpc router port)"
  by (rule exI [of _ "GRpcComm port"])
    (simp add: assms communication_config_def start_services_def full_report_sender_new_def Let_def ok_or_def)

section \<open>Listening\<close>

inductive listen_reaches ::
  "(string \<Rightarrow> (string, borrowed_insert_message) result) \<Rightarrow> 'w message_router \<Rightarrow> 'w listen_run \<Rightarrow> 'w listen_run \<Rightarrow> bool"
  for insert_from_str router where
  listen_here: "listen_reaches insert_from_str router lr lr"
| listen_more: "listen_reaches insert_from_str router lr lr' \<Longrightarrow> listen_step insert_from_str router lr' lr'' \<Longrightarrow>
    listen_reaches insert_from_str router lr lr''"

definition listen_start :: "nat \<Rightarrow> (mq_error, 'w communication_message) result list \<Rightarrow> 'w \<Rightarrow> 'w listen_run" where
  "listen_start limit items w =
     \<lparr>lr_incoming = items, lr_limiter = task_limiter_new limit, lr_running = [], lr_world = w,
      lr_status = Listening\<rparr>"

definition listen_inv ::
  "nat \<Rightarrow> (mq_error, 'w communication_message) result list \<Rightarrow> 'w listen_run \<Rightarrow> bool" where
  "listen_inv limit items lr \<longleftrightarrow>
     running (lr_limiter lr) = length (lr_running lr) \<and>
     semaphore (lr_limiter lr) + running (lr_limiter lr) = limit \<and>
     (\<exists>done. items = map Inr done @ lr_incoming lr \<and> set (lr_running lr) \<subseteq> set done)"

lemma listen_inv_end:
  "listen_inv limit items lr \<Longrightarrow> i < length (lr_running lr) \<Longrightarrow> listen_inv limit items (task_ended i w lr)"
  using set_take_subset [of i "lr_running lr"] set_drop_subset [of "Suc i" "lr_running lr"]
  by (auto simp: listen_inv_def task_ended_def task_limiter_end_def)

lemma listen_step_inv:
  assumes "listen_step insert_from_str router lr lr'" and inv: "listen_inv limit items lr"
  shows "listen_inv limit items lr'"
  using assms(1)
proof cases
  case (listen_spawn m ms l)
  from inv listen_spawn(3) obtain d where "items = map Inr (d @ [m]) @ ms" "set (lr_running lr) \<subseteq> set d"
    by (auto simp: listen_inv_def)
  then have "\<exists>done. items = map Inr done @ ms \<and> set (lr_running lr @ [m]) \<subseteq> set done"
    by (intro exI [of _ "d @ [m]"]) auto
  then show ?thesis using inv listen_spawn
    by (auto simp: listen_inv_def task_limiter_run_def split: if_splits)
next
  case (listen_error e ms)
  then show ?thesis using inv by (simp add: listen_inv_def)
next
  case (listen_run i)
  have same: "listen_inv limit items (lr\<lparr>lr_world := w\<rparr>)" "listen_inv limit items (lr\<lparr>lr_world := w, lr_status := s\<rparr>)"
    for w s using inv by (simp_all add: listen_inv_def)
  show ?thesis unfolding listen_run(1) run_task_def
    by (auto intro: same listen_inv_end [OF inv listen_run(3)] split: prod.splits sum.splits cs_stop.splits ack_failure.splits)
qed

text \<open>
  While it listens, the service never runs more tasks than its limit, and takes the items of
  the stream in order, each message once, up to the first item that could not be read: whatever
  has been taken was readable. Once it has aborted nothing happens any more.
\<close>

theorem listening_takes_readable_items:
  assumes "listen_reaches insert_from_str router (listen_start limit items w) lr"
  shows "length (lr_running lr) \<le> limit \<and>
    (\<exists>taken. items = map Inr taken @ lr_incoming lr \<and> set (lr_running lr) \<subseteq> set taken) \<and>
    (lr_status lr = ListenAborted \<longrightarrow> (\<forall>lr'. \<not> listen_step insert_from_str router lr lr'))"
proof -
  from assms have "listen_inv limit items lr"
  proof (induction "listen_start limit items w" lr rule: listen_reaches.induct)
    case listen_here
    show ?case by (simp add: listen_inv_def listen_start_def task_limiter_new_def)
  next
    case (listen_more lr' lr'')
    then show ?case using listen_step_inv by blast
  qed
  then show ?thesis by (auto simp: listen_inv_def elim: listen_step.cases)
qed

section \<open>Concrete runs\<close>

text \<open>A router that stores in a table, without reports; a message text is the object it is about.\<close>

definition demo_insert :: borrowed_insert_message where
  "demo_insert = \<lparr>bi_object_id = 1, bi_schema_id = 2, bi_timestamp = 3, bi_data = ''d''\<rparr>"

definition demo_row :: insert_row where
  "demo_row = \<lparr>row_object_id = 1, row_version = 3, row_schema_id = 2, row_payload = JString ''d''\<rparr>"

definition demo_table_router :: "insert_row list message_router" where
  "demo_table_router =
     \<lparr>mr_report_sender = ReportsDisabled,
      mr_output_plugin = postgres_output table_postgres \<lparr>pp_pool = (), pp_schema = ''public''\<rparr>,
      mr_from_str = (\<lambda>s. Inr JNull), mr_to_vec = (\<lambda>b. Inr [])\<rparr>"

definition demo_cs_message :: "insert_row list communication_message" where
  "demo_cs_message = \<lparr>cm_payload = Inr ''m'', cm_key = Inr ''k'', cm_ack = returnE ()\<rparr>"

lemma demo_mq_run:
  "mq_handle_message (\<lambda>s. Inr demo_insert) demo_table_router demo_cs_message [] = (Inr (), [demo_row])"
  by (simp add: mq_handle_message_def mq_build_message_def router_handle_def demo_table_router_def demo_cs_message_def
      postgres_output_def postgres_handle_def table_postgres_def demo_insert_def demo_row_def with_message_body_def
      map_err_def map_errE_def bindE_def thenE_def)



theorem druid_success_without_delivery_witness:
  "druid_handle \<lparr>dd_send = (\<lambda>r w. (Inl ''broker down'', w)), dd_inputs_from_str = (\<lambda>s. Inr [\<lparr>ti_fields = JNull, ti_ts = 1\<rparr>]),
     dd_to_vec = (\<lambda>m. ''m''), dd_uuid_to_string = (\<lambda>i. ''i'')\<rparr> ''topic'' demo_insert [] = (Success, [] :: unit list)"
  by (rule druid_success_without_delivery [where kept = "\<lambda>m w. False" and e = "''broker down''" and
        inputs = "[\<lparr>ti_fields = JNull, ti_ts = 1\<rparr>]", THEN conjunct1]) simp_all

definition demo_victoria :: "payload list \<Rightarrow> (unit, string) victoria" where
  "demo_victoria ps =
     \<lparr>vm_join = (\<lambda>u s. Inr (u @ s)), vm_set_query = (\<lambda>u q. u @ q), vm_post = (\<lambda>u b w. (Inl ''down'', w)),
      vm_payloads_from_str = (\<lambda>s. Inr ps), vm_value_to_string = (\<lambda>v. ''7''), vm_uuid_to_string = (\<lambda>i. ''id'')\<rparr>"


theorem field_key_injects_line_witness:
  "\<exists>text. build_line_protocol (demo_victoria [\<lparr>pl_fields = [(''a=1 0'' @ [CHR 0x0A] @ ''victim'' @ '' b'', JBool True)],
       pl_ts = 5\<rparr>]) 1 2 [] = Inr text \<and> length (split_on (CHR 0x0A) text) = 2"
  using field_key_injects_line [of "demo_victoria [\<lparr>pl_fields = [(''a=1 0'' @ [CHR 0x0A] @ ''victim'' @ '' b'', JBool True)],
       pl_ts = 5\<rparr>]" "[]" "''victim''" "JBool True" 5 1 2]
  by (auto simp: demo_victoria_def scalar_def)

theorem queue_configuration_witness:
  "queue_names (Some (join_with '','' [''a'', ''b''])) = [''a'', ''b'']"
  by (rule queue_configuration [THEN conjunct1, THEN spec, THEN mp]) simp

definition demo_args :: communication_args where
  "demo_args = \<lparr>ca_method = MethodGRpc, ca_kafka_brokers = None, ca_kafka_group_id = None,
     ca_amqp_connection_string = None, ca_amqp_consumer_tag = None, ca_grpc_port = Some 50103, ca_ordered = None,
     ca_unordered = None, ca_task_limit = 32\<rparr>"

definition no_clients :: "(unit, unit, unit, unit, unit) mq_clients" where
  "no_clients = \<lparr>kafka_create = (\<lambda>s. Inl ''down''), kafka_subscribe = (\<lambda>c t. Inl ''down''),
     amqp_connect = (\<lambda>s. Inl ''down''), amqp_create_channel = (\<lambda>n. Inl ''down''),
     amqp_basic_consume = (\<lambda>h q t opts. Inl ''down''), amqp_default_options = ()\<rparr>"

theorem grpc_with_reports_panics_witness:
  "\<exists>config. communication_config demo_args = Inr config \<and>
    start_services no_clients (\<lambda>b. ()) (\<lambda>s. Inl (RuntimeError s)) (\<lambda>s. Inl (RuntimeError s)) (\<lambda>s. Inr JNull)
      (\<lambda>b. Inr []) config (Some ''reports'') (mr_output_plugin demo_table_router) = StartPanicked"
proof -
  have "ca_method demo_args = MethodGRpc" "ca_grpc_port demo_args = Some 50103" by (simp_all add: demo_args_def)
  from grpc_with_reports_panics [OF this] show ?thesis by blast
qed

theorem listening_takes_readable_items_witness:
  "\<exists>taken. [Inr demo_cs_message, Inl (RuntimeError ''x'')] = map Inr taken @ [Inl (RuntimeError ''x'')]"
proof -
  let ?s = "listen_start 1 [Inr demo_cs_message, Inl (RuntimeError ''x'')] []"
  let ?t = "?s\<lparr>lr_incoming := [Inl (RuntimeError ''x'')], lr_limiter := \<lparr>semaphore = 0, running = 1\<rparr>,
    lr_running := [demo_cs_message]\<rparr>"
  have "listen_step (\<lambda>s. Inr demo_insert) demo_table_router ?s
      (?s\<lparr>lr_incoming := [Inl (RuntimeError ''x'')], lr_limiter := \<lparr>semaphore = 0, running = 1\<rparr>,
        lr_running := lr_running ?s @ [demo_cs_message]\<rparr>)"
    by (rule listen_spawn) (simp_all add: listen_start_def task_limiter_run_def task_limiter_new_def)
  then have "listen_reaches (\<lambda>s. Inr demo_insert) demo_table_router ?s ?t"
    using listen_more [OF listen_here] by (simp add: listen_start_def)
  from listening_takes_readable_items [OF this]
  have "\<exists>taken. [Inr demo_cs_message, Inl (RuntimeError ''x'')] = map Inr taken @ lr_incoming ?t" by blast
  moreover have "lr_incoming ?t = [Inl (RuntimeError ''x'')]" by simp
  ultimately show ?thesis by (simp only:)
qed

end
