(* ===== verification/Leader_Elector.thy ===== *)
theory Leader_Elector
  imports Registry_Rpc Messaging
begin

text \<open>
  The leader elector of the schema registry, \<open>main.rs\<close> of the crate leader-elector: an endless
  loop that sends a heartbeat to the master and, when it fails, deletes the master's pods and
  promotes a slave. The Kubernetes client, the timer and the registry's gRPC client are
  parameters; the locale \<open>elector_cluster\<close> states what the elector relies on.
\<close>

section \<open>Configuration\<close>

record elector_config =
  ec_heartbeat_secs :: u64
  ec_schema_app_name :: string
  ec_schema_addr :: string
  ec_schema_port :: "16 word"

datatype leader_elector_type = SchemaElection

record leader_elector =
  le_master_addr :: string
  le_slave_addr :: string
  le_name :: string
  le_port :: "16 word"
  le_heartbeat_time :: nat
  le_election_type :: leader_elector_type
  le_namespace :: string

text \<open>
  \<open>main\<close> up to the loop: \<open>None\<close> stands for the panic of \<open>get_k8s_namespace\<close> outside of a cluster.
\<close>

definition get_k8s_namespace :: "(string, string) result \<Rightarrow> string option" where
  "get_k8s_namespace read_file = ok read_file"

definition elector_start ::
  "(string, elector_config) result \<Rightarrow> (string, string) result \<Rightarrow> (anyhow, leader_elector) result option" where
  "elector_start from_env namespace_file =
     (case context_of ''Env vars not set correctly'' from_env of
        Inl e \<Rightarrow> Some (Inl e)
      | Inr config \<Rightarrow>
          map_option (\<lambda>namespace. Inr
            \<lparr>le_master_addr = ec_schema_addr config @ ''-master'', le_slave_addr = ec_schema_addr config,
             le_name = ec_schema_app_name config, le_port = ec_schema_port config,
             le_heartbeat_time = unat (ec_heartbeat_secs config), le_election_type = SchemaElection,
             le_namespace = namespace\<rparr>) (get_k8s_namespace namespace_file))"

section \<open>The loop\<close>

record ('w, 'c) elector_env =
  en_client :: "('w, string, 'c) op"
  en_list :: "'c \<Rightarrow> string \<Rightarrow> string \<Rightarrow> nat \<Rightarrow> ('w, string, string list) op"
  en_delete :: "'c \<Rightarrow> string \<Rightarrow> string \<Rightarrow> nat \<Rightarrow> ('w, string, unit) op"
  en_to_yaml :: "json \<Rightarrow> (string, string) result"
  en_patch :: "'c \<Rightarrow> string \<Rightarrow> string \<Rightarrow> string \<Rightarrow> string \<Rightarrow> ('w, string, unit) op"
  en_connect :: "string \<Rightarrow> ('w, string, unit) op"
  en_heartbeat :: "string \<Rightarrow> ('w, status, unit) op"
  en_promote :: "string \<Rightarrow> ('w, status, string) op"
  en_delay :: "nat \<Rightarrow> 'w \<Rightarrow> 'w"

definition registry_address :: "string \<Rightarrow> 16 word \<Rightarrow> string" where
  "registry_address addr port = addr @ '':'' @ nat_to_string (unat port)"

definition schema_heartbeat ::
  "('w, 'c) elector_env \<Rightarrow> string \<Rightarrow> 16 word \<Rightarrow> ('w, client_error, unit) op" where
  "schema_heartbeat L addr port =
     bindE (map_errE ClientConnection (en_connect L (registry_address addr port))) (\<lambda>_.
     map_errE RequestFailure (en_heartbeat L (registry_address addr port)))"

definition schema_promotion ::
  "('w, 'c) elector_env \<Rightarrow> string \<Rightarrow> 16 word \<Rightarrow> ('w, client_error, string) op" where
  "schema_promotion L addr port =
     bindE (map_errE ClientConnection (en_connect L (registry_address addr port))) (\<lambda>_.
     map_errE RequestFailure (en_promote L (registry_address addr port)))"

definition master_selector :: "leader_elector \<Rightarrow> string" where
  "master_selector le = ''app='' @ le_name le @ '',role=master''"

definition remove_master_instance ::
  "('w, 'c) elector_env \<Rightarrow> 'c \<Rightarrow> leader_elector \<Rightarrow> ('w, anyhow, unit) op" where
  "remove_master_instance L c le =
     bindE (map_errE (\<lambda>e. [e]) (en_list L c (le_namespace le) (master_selector le) 10)) (\<lambda>pods.
     forE pods (\<lambda>pod_name. map_errE (\<lambda>e. [e]) (en_delete L c (le_namespace le) pod_name 0)))"

definition role_patch :: json where
  "role_patch = JObject [(''apiVersion'', JString ''v1''), (''kind'', JString ''Pod''),
     (''metadata'', JObject [(''labels'', JObject [(''role'', JString ''master'')])])]"

definition promote_slave_to_master ::
  "('w, 'c) elector_env \<Rightarrow> 'c \<Rightarrow> leader_elector \<Rightarrow> ('w, anyhow, unit) op" where
  "promote_slave_to_master L c le =
     (\<lambda>w. case (case le_election_type le of
             SchemaElection \<Rightarrow> schema_promotion L (le_slave_addr le) (le_port le)) w of
        (Inl err, w) \<Rightarrow> (Inr (), w)
      | (Inr pod_name, w) \<Rightarrow>
          bindE (liftR (map_err (\<lambda>e. [e]) (en_to_yaml L role_patch))) (\<lambda>patch.
          map_errE (\<lambda>e. [e]) (en_patch L c (le_namespace le) pod_name ''Leader-elector'' patch)) w)"

text \<open>One round of the loop, and the loop, which only an error ends.\<close>

definition election_round ::
  "('w, 'c) elector_env \<Rightarrow> 'c \<Rightarrow> leader_elector \<Rightarrow> ('w, anyhow, unit) op" where
  "election_round L c le =
     (\<lambda>w. case (case le_election_type le of
             SchemaElection \<Rightarrow> schema_heartbeat L (le_master_addr le) (le_port le)) (en_delay L (le_heartbeat_time le) w) of
        (Inl err, w) \<Rightarrow> thenE (remove_master_instance L c le) (promote_slave_to_master L c le) w
      | (Inr u, w) \<Rightarrow> (Inr (), w))"

partial_function (option) elect_loop ::
  "('w, 'c) elector_env \<Rightarrow> 'c \<Rightarrow> leader_elector \<Rightarrow> 'w \<Rightarrow> (anyhow \<times> 'w) option" where
  "elect_loop L c le w =
     (case election_round L c le w of
        (Inl e, w') \<Rightarrow> Some (e, w')
      | (Inr u, w') \<Rightarrow> elect_loop L c le w')"

definition elect_leader ::
  "('w, 'c) elector_env \<Rightarrow> leader_elector \<Rightarrow> 'w \<Rightarrow> (anyhow \<times> 'w) option" where
  "elect_leader L le w =
     (case en_client L w of
        (Inl e, w) \<Rightarrow> Some ([e], w)
      | (Inr c, w) \<Rightarrow> elect_loop L c le w)"

text \<open>The first rounds of the loop, up to an error.\<close>

fun election_rounds ::
  "nat \<Rightarrow> ('w, 'c) elector_env \<Rightarrow> 'c \<Rightarrow> leader_elector \<Rightarrow> ('w, anyhow, unit) op" where
  "election_rounds 0 L c le = returnE ()"
| "election_rounds (Suc n) L c le = thenE (election_round L c le) (election_rounds n L c le)"

section \<open>The cluster\<close>

text \<open>
  Labels are tested by a selector: a comma-separated list of equalities.
\<close>

definition selector_holds :: "string \<Rightarrow> (string \<times> string) list \<Rightarrow> bool" where
  "selector_holds sel labels \<longleftrightarrow>
     list_all (\<lambda>term. case split_on CHR ''='' term of [k, v] \<Rightarrow> map_of labels k = Some v | _ \<Rightarrow> False) (split_on CHR '','' sel)"

definition masters :: "string \<Rightarrow> (string \<rightharpoonup> (string \<times> string) list) \<Rightarrow> string set" where
  "masters app pods = {p. \<exists>labels. pods p = Some labels \<and> map_of labels ''app'' = Some app \<and>
     map_of labels ''role'' = Some ''master''}"

text \<open>The cluster without the masters of an application, and with one more pod labelled as a master.\<close>

definition without_masters :: "string \<Rightarrow> (string \<rightharpoonup> (string \<times> string) list) \<Rightarrow> string \<rightharpoonup> (string \<times> string) list" where
  "without_masters app pods = (\<lambda>p. if p \<in> masters app pods then None else pods p)"

definition labels_one :: "(string \<rightharpoonup> (string \<times> string) list) \<Rightarrow> (string \<rightharpoonup> (string \<times> string) list) \<Rightarrow> bool" where
  "labels_one pods pods' \<longleftrightarrow>
     (\<exists>p labels. pods p = Some labels \<and> pods' = pods(p \<mapsto> (''role'', ''master'') # labels))"

text \<open>
  \<open>pods w\<close> are the pods of the namespace with their labels. Listing returns the pods the selector
  holds for, deleting a pod removes it, and the patch sets the label of an existing pod; a call
  that fails, a heartbeat, a promotion and waiting change no pod.
\<close>

locale elector_cluster =
  fixes L :: "('w, 'c) elector_env" and pods :: "'w \<Rightarrow> string \<rightharpoonup> (string \<times> string) list" and ns :: string
  assumes listing: "en_list L c ns sel t w = (rl, w') \<Longrightarrow> pods w' = pods w \<and>
      (\<forall>names. rl = Inr names \<longrightarrow> (\<forall>p. p \<in> set names \<longleftrightarrow> (\<exists>labels. pods w p = Some labels \<and> selector_holds sel labels)))"
    and deleting: "en_delete L c ns p g w = (rd, w') \<Longrightarrow>
      pods w' = (if rd = Inr () then (pods w)(p := None) else pods w)"
    and patching: "en_to_yaml L role_patch = Inr patch \<Longrightarrow> en_patch L c ns p m patch w = (rp, w') \<Longrightarrow>
      (if rp = Inr () then \<exists>labels. pods w p = Some labels \<and> pods w' = (pods w)(p \<mapsto> (''role'', ''master'') # labels)
       else pods w' = pods w)"
    and connecting: "en_connect L a w = (rc, w') \<Longrightarrow> pods w' = pods w"
    and heartbeat: "en_heartbeat L a w = (rh, w') \<Longrightarrow> pods w' = pods w"
    and promoting: "en_promote L a w = (rq, w') \<Longrightarrow> pods w' = pods w"
    and waiting: "pods (en_delay L d w) = pods w"

context elector_cluster
begin

lemma delete_run:
  "forE names (\<lambda>p. map_errE f (en_delete L c ns p g)) w = (r, w') \<Longrightarrow>
    (\<forall>p. pods w' p = pods w p \<or> p \<in> set names \<and> pods w' p = None) \<and>
    (r = Inr () \<longrightarrow> (\<forall>p \<in> set names. pods w' p = None))"
proof (induction names arbitrary: w)
  case (Cons p names)
  obtain q w1 where d: "en_delete L c ns p g w = (q, w1)" by fastforce
  note d' = deleting [OF d]
  show ?case
  proof (cases q)
    case (Inl e)
    then have "r = Inl (f e) \<and> w' = w1" using Cons.prems d by (simp add: thenE_def bindE_def map_errE_def)
    with d' Inl show ?thesis by auto
  next
    case (Inr u)
    then have "forE names (\<lambda>p. map_errE f (en_delete L c ns p g)) w1 = (r, w')"
      using Cons.prems d by (simp add: thenE_def bindE_def map_errE_def)
    from Cons.IH [OF this] d' Inr show ?thesis by (auto simp: fun_upd_def split: if_splits)
  qed
qed simp

lemma selector_masters:
  assumes "CHR '','' \<notin> set (le_name le)" and "CHR ''='' \<notin> set (le_name le)"
  shows "(\<exists>labels. ps p = Some labels \<and> selector_holds (master_selector le) labels) \<longleftrightarrow> p \<in> masters (le_name le) ps"
proof -
  have none: "split_on c x = [x]" if "c \<notin> set x" for c x
    using that by (induction x) auto
  have app: "split_on c (x @ c # y) = x # split_on c y" if "c \<notin> set x" for c x y
    using that by (induction x) auto
  have "split_on CHR '','' (master_selector le) = [''app='' @ le_name le, ''role=master'']"
    using app [of "CHR '',''" "''app='' @ le_name le" "''role=master''"] assms(1) by (simp add: master_selector_def)
  then show ?thesis
    using none assms(2) by (auto simp: selector_holds_def masters_def)
qed

lemma remove_run:
  assumes "remove_master_instance L c le w = (r, w')" and "le_namespace le = ns"
    and "CHR '','' \<notin> set (le_name le)" and "CHR ''='' \<notin> set (le_name le)"
  shows "(\<forall>p. pods w' p = pods w p \<or> p \<in> masters (le_name le) (pods w) \<and> pods w' p = None) \<and>
    (r = Inr () \<longrightarrow> pods w' = without_masters (le_name le) (pods w))"
proof -
  obtain q w1 where l: "en_list L c ns (master_selector le) 10 w = (q, w1)" by fastforce
  note l' = listing [OF l]
  show ?thesis
  proof (cases q)
    case (Inl e)
    then show ?thesis using l l' assms(1,2) by (auto simp: remove_master_instance_def bindE_def map_errE_def)
  next
    case (Inr names)
    then have "forE names (\<lambda>p. map_errE (\<lambda>e. [e]) (en_delete L c ns p 0)) w1 = (r, w')"
      using l assms(1,2) by (simp add: remove_master_instance_def bindE_def map_errE_def)
    from delete_run [OF this] have d: "\<forall>p. pods w' p = pods w p \<or> p \<in> set names \<and> pods w' p = None"
      "r = Inr () \<longrightarrow> (\<forall>p \<in> set names. pods w' p = None)" using l' by auto
    have "set names = masters (le_name le) (pods w)"
      using l' Inr selector_masters [OF assms(3,4), of "pods w"] by auto
    with d show ?thesis by (fastforce simp: without_masters_def intro!: ext)
  qed
qed

lemma schema_calls_pods:
  "schema_heartbeat L a port w = (r, w') \<Longrightarrow> pods w' = pods w"
  "schema_promotion L a port w = (q, w') \<Longrightarrow> pods w' = pods w"
  by (auto simp: schema_heartbeat_def schema_promotion_def bindE_def map_errE_def split: prod.splits sum.splits
      dest!: connecting heartbeat promoting)

lemma promote_run:
  assumes "promote_slave_to_master L c le w = (r, w')" and "le_namespace le = ns"
  shows "pods w' = pods w \<or> r = Inr () \<and> labels_one (pods w) (pods w')"
proof -
  obtain q w1 where q: "schema_promotion L (le_slave_addr le) (le_port le) w = (q, w1)" by fastforce
  note q' = schema_calls_pods(2) [OF q]
  show ?thesis
  proof (cases q)
    case (Inl e)
    then show ?thesis using assms q q' by (cases "le_election_type le") (simp add: promote_slave_to_master_def)
  next
    case (Inr pod)
    show ?thesis
    proof (cases "en_to_yaml L role_patch")
      case (Inl e)
      then show ?thesis using assms q q' Inr
        by (cases "le_election_type le") (simp add: promote_slave_to_master_def bindE_def)
    next
      case yaml: (Inr patch)
      obtain rp w2 where p: "en_patch L c ns pod ''Leader-elector'' patch w1 = (rp, w2)" by fastforce
      have "w' = w2 \<and> r = map_err (\<lambda>e. [e]) rp" using assms q Inr yaml p
        by (cases "le_election_type le") (auto simp: promote_slave_to_master_def bindE_def map_errE_def map_err_def split: sum.splits)
      with patching [OF yaml p] q' show ?thesis by (auto simp: labels_one_def split: if_splits)
    qed
  qed
qed

text \<open>
  One round: the master answers and nothing changes, or its pods go and at most one pod is
  labelled; only a round that ends early may leave some of its pods.
\<close>

lemma round_run:
  assumes "election_round L c le w = (r, w')" and "le_namespace le = ns"
    and "CHR '','' \<notin> set (le_name le)" and "CHR ''='' \<notin> set (le_name le)"
  shows "if r = Inr () then pods w' = pods w \<or> pods w' = without_masters (le_name le) (pods w) \<or>
      labels_one (without_masters (le_name le) (pods w)) (pods w')
    else \<forall>p. pods w' p = pods w p \<or> p \<in> masters (le_name le) (pods w) \<and> pods w' p = None"
proof -
  obtain h w1 where h: "schema_heartbeat L (le_master_addr le) (le_port le) (en_delay L (le_heartbeat_time le) w) = (h, w1)"
    by fastforce
  have h': "pods w1 = pods w" using schema_calls_pods(1) [OF h] waiting by simp
  obtain m w2 where m: "remove_master_instance L c le w1 = (m, w2)" by fastforce
  note m' = remove_run [OF m assms(2-4), unfolded h']
  obtain p w3 where p: "promote_slave_to_master L c le w2 = (p, w3)" by fastforce
  note p' = promote_run [OF p assms(2)]
  have run: "(r, w') = (case h of Inl e \<Rightarrow> (case m of Inl e \<Rightarrow> (Inl e, w2) | Inr _ \<Rightarrow> (p, w3)) | Inr u \<Rightarrow> (Inr (), w1))"
    using assms(1) h m p
    by (cases "le_election_type le") (auto simp: election_round_def thenE_def bindE_def split: sum.splits)
  show ?thesis
  proof (cases h)
    case (Inr u)
    with run h' show ?thesis by simp
  next
    case h: (Inl e)
    show ?thesis
    proof (cases m)
      case (Inl e')
      with run h m' show ?thesis by simp
    next
      case (Inr u)
      with m' have w2: "pods w2 = without_masters (le_name le) (pods w)" by simp
      show ?thesis using run h Inr p' w2 by (auto simp: without_masters_def split: if_splits)
    qed
  qed
qed

lemma round_masters:
  assumes "election_round L c le w = (r, w')" and "le_namespace le = ns"
    and "CHR '','' \<notin> set (le_name le)" and "CHR ''='' \<notin> set (le_name le)"
  shows "masters (le_name le) (pods w') \<subseteq> masters (le_name le) (pods w) \<or> (\<exists>p. masters (le_name le) (pods w') \<subseteq> {p})"
proof (cases "labels_one (without_masters (le_name le) (pods w)) (pods w')")
  case True
  then obtain p labels where "pods w' = (without_masters (le_name le) (pods w))(p \<mapsto> labels)"
    by (auto simp: labels_one_def)
  then have "masters (le_name le) (pods w') \<subseteq> {p}"
    by (auto simp: without_masters_def masters_def split: if_splits)
  then show ?thesis by blast
next
  case False
  then have k: "pods w' p = pods w p \<or> pods w' p = None" for p
    using round_run [OF assms] by (auto simp: without_masters_def split: if_splits)
  have "masters (le_name le) (pods w') \<subseteq> masters (le_name le) (pods w)"
  proof
    fix p assume "p \<in> masters (le_name le) (pods w')"
    with k [of p] show "p \<in> masters (le_name le) (pods w)" by (auto simp: masters_def)
  qed
  then show ?thesis ..
qed

lemma rounds_masters:
  assumes "election_rounds n L c le w = (r, w')" and "le_namespace le = ns"
    and "CHR '','' \<notin> set (le_name le)" and "CHR ''='' \<notin> set (le_name le)"
    and "\<exists>p. masters (le_name le) (pods w) \<subseteq> {p}"
  shows "\<exists>p. masters (le_name le) (pods w') \<subseteq> {p}"
  using assms(1,5)
proof (induction n arbitrary: w)
  case (Suc n)
  obtain q w1 where q: "election_round L c le w = (q, w1)" by fastforce
  have one: "\<exists>p. masters (le_name le) (pods w1) \<subseteq> {p}"
    using round_masters [OF q assms(2-4)] Suc.prems(2) by blast
  show ?case
  proof (cases q)
    case (Inl e)
    with q Suc.prems(1) one show ?thesis by (simp add: thenE_def bindE_def)
  next
    case (Inr u)
    with q Suc.prems(1) have "election_rounds n L c le w1 = (r, w')" by (simp add: thenE_def bindE_def)
    from Suc.IH [OF this one] show ?thesis .
  qed
qed simp

end

section \<open>Properties\<close>

text \<open>
  C14. The elector never makes a second master: if at most one pod of the application carries the
  role master, then so it is after any number of rounds and also where a round ended early with an
  error, in whatever order heartbeats, promotions and Kubernetes calls succeed or fail.
\<close>

theorem at_most_one_master:
  assumes "elector_cluster L pods (le_namespace le)"
    and "CHR '','' \<notin> set (le_name le)" and "CHR ''='' \<notin> set (le_name le)"
    and "\<exists>p. masters (le_name le) (pods w) \<subseteq> {p}" and "election_rounds n L c le w = (r, w')"
  shows "\<exists>p. masters (le_name le) (pods w') \<subseteq> {p}"
  by (rule elector_cluster.rounds_masters [OF assms(1,5) refl assms(2,3,4)])

text \<open>
  C33. A round changes no pod while the master answers. When the heartbeat fails and the round ends
  without an error, every pod with the role master is gone, and of the other pods at most one, which
  exists, has changed: it got the role. A round that ends with an error has at most removed pods
  with the role master.
\<close>

theorem failover:
  assumes "elector_cluster L pods (le_namespace le)"
    and "CHR '','' \<notin> set (le_name le)" and "CHR ''='' \<notin> set (le_name le)"
    and "election_round L c le w = (r, w')"
  shows "(case schema_heartbeat L (le_master_addr le) (le_port le) (en_delay L (le_heartbeat_time le) w) of
      (Inr _, w1) \<Rightarrow> r = Inr () \<and> w' = w1 \<and> pods w' = pods w
    | (Inl _, _) \<Rightarrow> (if r = Inr () then pods w' = without_masters (le_name le) (pods w) \<or>
          labels_one (without_masters (le_name le) (pods w)) (pods w')
        else \<forall>p. pods w' p = pods w p \<or> p \<in> masters (le_name le) (pods w) \<and> pods w' p = None))"
proof -
  obtain h w1 where h: "schema_heartbeat L (le_master_addr le) (le_port le) (en_delay L (le_heartbeat_time le) w) = (h, w1)"
    by fastforce
  have w1: "pods w1 = pods w"
    using elector_cluster.schema_calls_pods(1) [OF assms(1) h] elector_cluster.waiting [OF assms(1)] by simp
  show ?thesis
  proof (cases h)
    case (Inr u)
    with h w1 assms(4) show ?thesis by (cases "le_election_type le") (simp add: election_round_def)
  next
    case (Inl e)
    from h Inl assms(4) have run: "thenE (remove_master_instance L c le) (promote_slave_to_master L c le) w1 = (r, w')"
      by (cases "le_election_type le") (simp add: election_round_def)
    show ?thesis
    proof (cases "r = Inr ()")
      case True
      with run obtain w2 where m: "remove_master_instance L c le w1 = (Inr (), w2)"
        and p: "promote_slave_to_master L c le w2 = (r, w')" by (auto simp: thenE_Inr_iff)
      note m' = elector_cluster.remove_run [OF assms(1) m refl assms(2,3), unfolded w1]
      note p' = elector_cluster.promote_run [OF assms(1) p refl]
      from m' p' h Inl True show ?thesis by auto
    next
      case False
      with elector_cluster.round_run [OF assms(1,4) refl assms(2,3)] h Inl show ?thesis by simp
    qed
  qed
qed

lemma elect_loop_first_error:
  "elect_loop L c le w = Some (e, w') \<Longrightarrow> \<exists>n. election_rounds n L c le w = (Inl e, w')"
proof -
  assume run: "elect_loop L c le w = Some (e, w')"
  have "\<exists>n. election_rounds n L c le w = (Inl (fst (e, w')), snd (e, w'))"
  proof (rule elect_loop.raw_induct [where P = "\<lambda>L c le w r. \<exists>n. election_rounds n L c le w = (Inl (fst r), snd r)", OF _ run])
    fix f :: "('a, 'b) elector_env \<Rightarrow> 'b \<Rightarrow> leader_elector \<Rightarrow> 'a \<Rightarrow> (anyhow \<times> 'a) option" and L c le w r
    assume IH: "\<And>L c le w r. f L c le w = Some r \<Longrightarrow> \<exists>n. election_rounds n L c le w = (Inl (fst r), snd r)"
      and eq: "(case election_round L c le w of (Inl e, w') \<Rightarrow> Some (e, w') | (Inr u, w') \<Rightarrow> f L c le w') = Some r"
    obtain q w1 where q: "election_round L c le w = (q, w1)" by fastforce
    show "\<exists>n. election_rounds n L c le w = (Inl (fst r), snd r)"
    proof (cases q)
      case (Inl e)
      with q eq have "election_rounds 1 L c le w = (Inl (fst r), snd r)" by (auto simp: thenE_def bindE_def)
      then show ?thesis ..
    next
      case (Inr u)
      with q eq IH obtain n where "election_rounds n L c le w1 = (Inl (fst r), snd r)" by fastforce
      with q Inr have "election_rounds (Suc n) L c le w = (Inl (fst r), snd r)" by (simp add: thenE_def bindE_def)
      then show ?thesis ..
    qed
  qed
  then show ?thesis by simp
qed

lemma elect_loop_error:
  "election_rounds n L c le w = (Inl e, w') \<Longrightarrow> elect_loop L c le w = Some (e, w')"
proof (induction n arbitrary: w)
  case (Suc n)
  obtain q w1 where q: "election_round L c le w = (q, w1)" by fastforce
  show ?case
  proof (cases q)
    case (Inl x)
    with q Suc.prems show ?thesis by (subst elect_loop.simps) (simp add: thenE_def bindE_def)
  next
    case (Inr u)
    with q Suc.prems have "election_rounds n L c le w1 = (Inl e, w')" by (simp add: thenE_def bindE_def)
    from Suc.IH [OF this] q Inr show ?thesis by (subst elect_loop.simps) simp
  qed
qed simp


section \<open>A cluster in memory\<close>

text \<open>A cluster whose master does not answer and whose registry promotes the pod of a given name.\<close>

definition memory_cluster :: "string \<Rightarrow> ((string \<times> (string \<times> string) list) list, unit) elector_env" where
  "memory_cluster slave =
     \<lparr>en_client = (\<lambda>w. (Inr (), w)),
      en_list = (\<lambda>c ns sel t w. (Inr (filter (\<lambda>p. case map_of w p of None \<Rightarrow> False | Some labels \<Rightarrow> selector_holds sel labels)
        (remdups (map fst w))), w)),
      en_delete = (\<lambda>c ns p g w. (Inr (), filter (\<lambda>(q, _). q \<noteq> p) w)),
      en_to_yaml = (\<lambda>j. Inr ''role''),
      en_patch = (\<lambda>c ns p m patch w. case map_of w p of None \<Rightarrow> (Inl ''not found'', w)
        | Some labels \<Rightarrow> (Inr (), (p, (''role'', ''master'') # labels) # w)),
      en_connect = (\<lambda>a w. (Inr (), w)),
      en_heartbeat = (\<lambda>a w. (Inl \<lparr>st_code = Internal, st_message = ''down''\<rparr>, w)),
      en_promote = (\<lambda>a w. (Inr slave, w)), en_delay = (\<lambda>d w. w)\<rparr>"

interpretation memory_cluster: elector_cluster "memory_cluster slave" map_of ns
  by unfold_locales
    (auto simp: memory_cluster_def map_of_filter_key split: option.splits if_splits simp flip: dom_map_of_conv_image_fst)

definition demo_elector :: leader_elector where
  "demo_elector = \<lparr>le_master_addr = ''sr-master'', le_slave_addr = ''sr'', le_name = ''sr'', le_port = 80,
     le_heartbeat_time = 5, le_election_type = SchemaElection, le_namespace = ''cdl''\<rparr>"

definition demo_pods :: "(string \<times> (string \<times> string) list) list" where
  "demo_pods = [(''a'', [(''app'', ''sr''), (''role'', ''master'')]), (''b'', [(''app'', ''sr''), (''role'', ''slave'')])]"

lemma demo_elector_names: "CHR '','' \<notin> set (le_name demo_elector)" "CHR ''='' \<notin> set (le_name demo_elector)"
  by (simp_all add: demo_elector_def)

lemma demo_masters: "masters ''sr'' (map_of demo_pods) = {''a''}"
  by (auto simp: masters_def demo_pods_def split: if_splits)

theorem at_most_one_master_witness:
  "\<exists>p. masters ''sr'' (map_of (snd (election_rounds 3 (memory_cluster ''b'') () demo_elector demo_pods))) \<subseteq> {p}"
proof -
  obtain r w' where run: "election_rounds 3 (memory_cluster ''b'') () demo_elector demo_pods = (r, w')" by fastforce
  have n: "le_name demo_elector = ''sr''" by (simp add: demo_elector_def)
  have "\<exists>p. masters (le_name demo_elector) (map_of demo_pods) \<subseteq> {p}" by (simp add: n demo_masters)
  from at_most_one_master [OF memory_cluster.elector_cluster_axioms demo_elector_names this run] run
  show ?thesis by (simp add: n)
qed

theorem failover_witness:
  "case election_round (memory_cluster ''b'') () demo_elector demo_pods of
     (r, w') \<Rightarrow> r = Inr () \<and> map_of w' ''a'' = None"
proof -
  obtain r w' where run: "election_round (memory_cluster ''b'') () demo_elector demo_pods = (r, w')" by fastforce
  have ok: "r = Inr ()" using run
    by (simp add: election_round_def demo_elector_def memory_cluster_def schema_heartbeat_def bindE_def map_errE_def
        thenE_def remove_master_instance_def promote_slave_to_master_def schema_promotion_def demo_pods_def
        selector_holds_def master_selector_def map_err_def)
  have hb: "\<exists>x w1. schema_heartbeat (memory_cluster ''b'') (le_master_addr demo_elector) (le_port demo_elector)
      (en_delay (memory_cluster ''b'') (le_heartbeat_time demo_elector) demo_pods) = (Inl x, w1)"
    by (simp add: schema_heartbeat_def memory_cluster_def bindE_def map_errE_def)
  have n: "le_name demo_elector = ''sr''" by (simp add: demo_elector_def)
  have "map_of w' = without_masters ''sr'' (map_of demo_pods) \<or> labels_one (without_masters ''sr'' (map_of demo_pods)) (map_of w')"
    using failover [OF memory_cluster.elector_cluster_axioms demo_elector_names run] hb ok n by auto
  then have "map_of w' ''a'' = None" by (auto simp: labels_one_def without_masters_def demo_masters split: if_splits)
  with run ok show ?thesis by simp
qed

end
