(* ===== verification/Cdl_Cli.thy ===== *)
theory Cdl_Cli
  imports Registry_Client Registry_Props "HOL-Library.Multiset"
begin

text \<open>
  The command line tool of the crate cdl-cli: the actions of \<open>args.rs\<close>, what each does in
  \<open>actions/schema.rs\<close> and \<open>actions/view.rs\<close>, \<open>utils.rs\<close>, and the dispatch of \<open>main.rs\<close>. An action
  talks to the registry and prints; the state is the outside world beside the lines printed so far
  on either output. The parsing of the command line is structopt's and not modelled: an action
  comes with its arguments parsed.
\<close>

section \<open>Arguments\<close>

datatype ('v, 'r) schema_action =
    Names
  | Get uuid "'r option"
  | GetTopic uuid
  | GetQueryAddress uuid
  | GetSchemaType uuid
  | Versions uuid
  | Add string string string "string option" schema_type
  | AddVersion uuid 'v "string option"
  | SetName uuid string
  | SetTopic uuid string
  | SetQueryAddress uuid string
  | SetSchemaType uuid schema_type
  | Validate uuid "string option"

text \<open>\<open>Add name topic query_address file schema_type\<close>.\<close>

datatype view_action =
    ViewNames uuid
  | ViewGet uuid
  | ViewAdd uuid string string
  | ViewUpdate uuid "string option" "string option"

datatype ('v, 'r) cli_action = SchemaCommand "('v, 'r) schema_action" | ViewCommand view_action

record ('v, 'r) cli_args =
  ca_registry_addr :: string
  ca_action :: "('v, 'r) cli_action"

section \<open>The terminal\<close>

record 'w terminal =
  tm_world :: 'w
  tm_stdout :: "string list"
  tm_stderr :: "string list"

type_synonym ('w, 'a) cli_op = "('w terminal, anyhow, 'a) op"

definition println :: "string \<Rightarrow> ('w, unit) cli_op" where
  "println line = (\<lambda>t. (Inr (), t\<lparr>tm_stdout := tm_stdout t @ [line]\<rparr>))"

definition eprintln :: "string \<Rightarrow> ('w, unit) cli_op" where
  "eprintln line = (\<lambda>t. (Inr (), t\<lparr>tm_stderr := tm_stderr t @ [line]\<rparr>))"

text \<open>
  The functions outside the crate: the registry client, the functions shared with the registry
  (identifiers, versions, JSON), opening a file for reading, standard input, and the indented form
  of a JSON value.
\<close>

record ('w, 'k, 's, 'v, 'r) cli_env =
  ce_registry :: "('w, 'k) schema_registry_client"
  ce_crates :: "('s, 'v, 'r) crates"
  ce_open :: "string \<Rightarrow> (string, string) result"
  ce_stdin :: string
  ce_pretty :: "json \<Rightarrow> string"

text \<open>The question mark operator on a call of the registry, and on connecting to it.\<close>

definition remote :: "('e \<Rightarrow> string) \<Rightarrow> ('w, 'e, 'a) op \<Rightarrow> ('w, 'a) cli_op" where
  "remote show m =
     (\<lambda>t. case m (tm_world t) of (r, w) \<Rightarrow> (map_err (\<lambda>e. [show e]) r, t\<lparr>tm_world := w\<rparr>))"

definition cli_connect :: "('w, 'k, 's, 'v, 'r) cli_env \<Rightarrow> string \<Rightarrow> ('w, 'k) cli_op" where
  "cli_connect C addr = remote rpc_client_error_to_string (sr_open (ce_registry C) addr)"

definition cli_call :: "('w, string, 'a) op \<Rightarrow> ('w, 'a) cli_op" where
  "cli_call m = remote (\<lambda>status. status) m"

definition local_result :: "(string, 'a) result \<Rightarrow> ('w, 'a) cli_op" where
  "local_result r = liftR (map_err (\<lambda>e. [e]) r)"

definition read_json :: "('w, 'k, 's, 'v, 'r) cli_env \<Rightarrow> string option \<Rightarrow> (anyhow, json) result" where
  "read_json C f =
     (case f of
        Some file_name \<Rightarrow>
          bindR (map_err (\<lambda>e. [''Couldn't open file'', e]) (ce_open C file_name)) (\<lambda>contents.
          map_err (\<lambda>e. [''File did not contain valid JSON'', e]) (json_from_str (ce_crates C) contents))
      | None \<Rightarrow>
          map_err (\<lambda>e. [''File did not contain valid JSON'', e]) (json_from_str (ce_crates C) (ce_stdin C)))"

abbreviation cli_id :: "('w, 'k, 's, 'v, 'r) cli_env \<Rightarrow> uuid \<Rightarrow> string" where
  "cli_id C i \<equiv> uuid_to_string (ce_crates C) i"

section \<open>Schemas\<close>

definition cli_get_schema ::
  "('w, 'k, 's, 'v, 'r) cli_env \<Rightarrow> uuid \<Rightarrow> 'r option \<Rightarrow> string \<Rightarrow> ('w, unit) cli_op" where
  "cli_get_schema C schema_id version registry_addr =
     bindE (cli_connect C registry_addr) (\<lambda>client.
     bindE (cli_call (sr_get_schema (ce_registry C) client
       \<lparr>rvi_id = cli_id C schema_id,
        rvi_version_req = req_to_string (ce_crates C)
          (case version of None \<Rightarrow> req_any (ce_crates C) | Some v \<Rightarrow> v)\<rparr>)) (\<lambda>response.
     bindE (local_result (json_from_str (ce_crates C) (rsd_definition response))) (\<lambda>j.
     println (ce_pretty C j))))"

definition cli_add_schema ::
  "('w, 'k, 's, 'v, 'r) cli_env \<Rightarrow> string \<Rightarrow> string \<Rightarrow> string \<Rightarrow> string option \<Rightarrow> string \<Rightarrow> schema_type \<Rightarrow>
   ('w, unit) cli_op" where
  "cli_add_schema C schema_name topic query_address f registry_addr schema_type =
     bindE (liftR (read_json C f)) (\<lambda>definition.
     bindE (cli_connect C registry_addr) (\<lambda>client.
     bindE (local_result (json_to_string (ce_crates C) definition)) (\<lambda>definition.
     bindE (cli_call (sr_add_schema (ce_registry C) client
       \<lparr>rns_id = [], rns_name = schema_name, rns_query_address = query_address, rns_topic = topic,
        rns_definition = definition, rns_schema_type = schema_type_to_i32 schema_type\<rparr>)) (\<lambda>new_id.
     thenE (eprintln (''Successfully added schema '' @ quoted schema_name @ '' to the schema registry.''))
     (thenE (eprintln ''The following UUID was assigned:'')
     (println new_id))))))"

text \<open>\<open>Vec::sort\<close> is stable: an element goes behind those that are not greater.\<close>

fun insert_version :: "('v \<Rightarrow> 'v \<Rightarrow> bool) \<Rightarrow> 'v \<Rightarrow> 'v list \<Rightarrow> 'v list" where
  "insert_version le x [] = [x]"
| "insert_version le x (y # ys) = (if le x y then x # y # ys else y # insert_version le x ys)"

definition sort_versions :: "('v \<Rightarrow> 'v \<Rightarrow> bool) \<Rightarrow> 'v list \<Rightarrow> 'v list" where
  "sort_versions le xs = foldr (insert_version le) xs []"

definition cli_get_schema_versions ::
  "('w, 'k, 's, 'v, 'r) cli_env \<Rightarrow> uuid \<Rightarrow> string \<Rightarrow> ('w, unit) cli_op" where
  "cli_get_schema_versions C schema_id registry_addr =
     bindE (cli_connect C registry_addr) (\<lambda>client.
     bindE (cli_call (sr_get_schema_versions (ce_registry C) client (cli_id C schema_id))) (\<lambda>response.
     bindE (local_result (collectR (map (version_parse (ce_crates C)) response))) (\<lambda>versions.
     forE (sort_versions (version_le (ce_crates C)) versions)
       (\<lambda>version. println (version_to_string (ce_crates C) version)))))"

text \<open>The four setters send an update with one field.\<close>

definition no_update :: "string \<Rightarrow> rq_schema_metadata_update" where
  "no_update i = \<lparr>rmu_id = i, rmu_name = None, rmu_topic = None, rmu_address = None, rmu_schema_type = None\<rparr>"

definition cli_update ::
  "('w, 'k, 's, 'v, 'r) cli_env \<Rightarrow> rq_schema_metadata_update \<Rightarrow> string \<Rightarrow> ('w, unit) cli_op" where
  "cli_update C update registry_addr =
     bindE (cli_connect C registry_addr) (\<lambda>client.
     cli_call (sr_update_schema_metadata (ce_registry C) client update))"

definition set_schema_name ::
  "('w, 'k, 's, 'v, 'r) cli_env \<Rightarrow> uuid \<Rightarrow> string \<Rightarrow> string \<Rightarrow> ('w, unit) cli_op" where
  "set_schema_name C schema_id name registry_addr =
     cli_update C ((no_update (cli_id C schema_id))\<lparr>rmu_name := Some name\<rparr>) registry_addr"

definition set_schema_topic ::
  "('w, 'k, 's, 'v, 'r) cli_env \<Rightarrow> uuid \<Rightarrow> string \<Rightarrow> string \<Rightarrow> ('w, unit) cli_op" where
  "set_schema_topic C schema_id topic registry_addr =
     cli_update C ((no_update (cli_id C schema_id))\<lparr>rmu_topic := Some topic\<rparr>) registry_addr"

definition set_schema_query_address ::
  "('w, 'k, 's, 'v, 'r) cli_env \<Rightarrow> uuid \<Rightarrow> string \<Rightarrow> string \<Rightarrow> ('w, unit) cli_op" where
  "set_schema_query_address C schema_id query_address registry_addr =
     cli_update C ((no_update (cli_id C schema_id))\<lparr>rmu_address := Some query_address\<rparr>) registry_addr"

definition set_schema_type ::
  "('w, 'k, 's, 'v, 'r) cli_env \<Rightarrow> uuid \<Rightarrow> schema_type \<Rightarrow> string \<Rightarrow> ('w, unit) cli_op" where
  "set_schema_type C schema_id schema_type registry_addr =
     cli_update C ((no_update (cli_id C schema_id))\<lparr>rmu_schema_type := Some (schema_type_to_i32 schema_type)\<rparr>)
       registry_addr"

definition cli_add_schema_version ::
  "('w, 'k, 's, 'v, 'r) cli_env \<Rightarrow> uuid \<Rightarrow> 'v \<Rightarrow> string option \<Rightarrow> string \<Rightarrow> ('w, unit) cli_op" where
  "cli_add_schema_version C schema_id version f registry_addr =
     bindE (liftR (read_json C f)) (\<lambda>definition.
     bindE (local_result (json_to_string (ce_crates C) definition)) (\<lambda>definition.
     bindE (cli_connect C registry_addr) (\<lambda>client.
     cli_call (sr_add_schema_version (ce_registry C) client
       \<lparr>rnv_id = cli_id C schema_id, rnv_version = version_to_string (ce_crates C) version,
        rnv_definition = definition\<rparr>))))"

definition get_schema_names :: "('w, 'k, 's, 'v, 'r) cli_env \<Rightarrow> string \<Rightarrow> ('w, unit) cli_op" where
  "get_schema_names C registry_addr =
     bindE (cli_connect C registry_addr) (\<lambda>client.
     bindE (cli_call (sr_get_all_schema_names (ce_registry C) client)) (\<lambda>schemas.
     if schemas = [] then throwE [''No schemas exist yet in the schema registry.'']
     else forE schemas (\<lambda>(i, name). println (''ID: '' @ i @ '', Name: '' @ name))))"

definition cli_get_schema_topic :: "('w, 'k, 's, 'v, 'r) cli_env \<Rightarrow> uuid \<Rightarrow> string \<Rightarrow> ('w, unit) cli_op" where
  "cli_get_schema_topic C schema_id registry_addr =
     bindE (cli_connect C registry_addr) (\<lambda>client.
     bindE (cli_call (sr_get_schema_topic (ce_registry C) client (cli_id C schema_id))) println)"

definition cli_get_schema_query_address ::
  "('w, 'k, 's, 'v, 'r) cli_env \<Rightarrow> uuid \<Rightarrow> string \<Rightarrow> ('w, unit) cli_op" where
  "cli_get_schema_query_address C schema_id registry_addr =
     bindE (cli_connect C registry_addr) (\<lambda>client.
     bindE (cli_call (sr_get_schema_query_address (ce_registry C) client (cli_id C schema_id))) println)"

definition cli_get_schema_type :: "('w, 'k, 's, 'v, 'r) cli_env \<Rightarrow> uuid \<Rightarrow> string \<Rightarrow> ('w, unit) cli_op" where
  "cli_get_schema_type C schema_id registry_addr =
     bindE (cli_connect C registry_addr) (\<lambda>client.
     bindE (cli_call (sr_get_schema_type (ce_registry C) client (cli_id C schema_id))) (\<lambda>type.
     println (schema_type_to_string (schema_type_getter type))))"

definition cli_validate_value ::
  "('w, 'k, 's, 'v, 'r) cli_env \<Rightarrow> uuid \<Rightarrow> string option \<Rightarrow> string \<Rightarrow> ('w, unit) cli_op" where
  "cli_validate_value C schema_id f registry_addr =
     bindE (liftR (read_json C f)) (\<lambda>value.
     bindE (cli_connect C registry_addr) (\<lambda>client.
     bindE (local_result (json_to_string (ce_crates C) value)) (\<lambda>value.
     bindE (cli_call (sr_validate_value (ce_registry C) client
       \<lparr>rvv_schema_id = cli_id C schema_id, rvv_value = value\<rparr>)) (\<lambda>errors.
     if errors \<noteq> [] then throwE [''The value is not valid. '' @ join_with '', '' errors]
     else println ''The value is valid.''))))"

section \<open>Views\<close>

definition cli_get_view :: "('w, 'k, 's, 'v, 'r) cli_env \<Rightarrow> uuid \<Rightarrow> string \<Rightarrow> ('w, unit) cli_op" where
  "cli_get_view C view_id registry_addr =
     bindE (cli_connect C registry_addr) (\<lambda>client.
     bindE (cli_call (sr_get_view (ce_registry C) client (cli_id C view_id))) (\<lambda>view.
     println (''Name: '' @ rs_view_name view @ '', JMESPath: '' @ rs_view_jmespath view)))"

definition cli_add_view_to_schema ::
  "('w, 'k, 's, 'v, 'r) cli_env \<Rightarrow> uuid \<Rightarrow> string \<Rightarrow> string \<Rightarrow> string \<Rightarrow> ('w, unit) cli_op" where
  "cli_add_view_to_schema C schema_id name jmespath registry_addr =
     bindE (cli_connect C registry_addr) (\<lambda>client.
     bindE (cli_call (sr_add_view_to_schema (ce_registry C) client
       \<lparr>rsv_schema_id = cli_id C schema_id, rsv_view_id = [], rsv_name = name, rsv_jmespath = jmespath\<rparr>)) (\<lambda>new_id.
     thenE (eprintln (''Successfully added view '' @ quoted name @ '' to schema '' @ quoted (cli_id C schema_id) @
       '' in the schema registry.''))
     (thenE (eprintln ''The following UUID was assigned:'')
     (println new_id))))"

definition cli_update_view ::
  "('w, 'k, 's, 'v, 'r) cli_env \<Rightarrow> uuid \<Rightarrow> string option \<Rightarrow> string option \<Rightarrow> string \<Rightarrow> ('w, unit) cli_op" where
  "cli_update_view C view_id name jmespath registry_addr =
     bindE (cli_connect C registry_addr) (\<lambda>client.
     bindE (cli_call (sr_update_view (ce_registry C) client
       \<lparr>ruv_id = cli_id C view_id, ruv_name = name, ruv_jmespath = jmespath\<rparr>)) (\<lambda>old_view.
     println (''Old Name: '' @ rs_view_name old_view @ '', Old JMESPath: '' @ rs_view_jmespath old_view)))"

definition get_schema_views :: "('w, 'k, 's, 'v, 'r) cli_env \<Rightarrow> uuid \<Rightarrow> string \<Rightarrow> ('w, unit) cli_op" where
  "get_schema_views C schema_id registry_addr =
     bindE (cli_connect C registry_addr) (\<lambda>client.
     bindE (cli_call (sr_get_all_views_of_schema (ce_registry C) client (cli_id C schema_id))) (\<lambda>views.
     if views = [] then throwE [''No views exist yet for the given schema in the schema registry.'']
     else forE views (\<lambda>(i, view). println (''ID: '' @ i @ '', Name: '' @ rs_view_name view))))"

section \<open>Dispatch\<close>

primrec schema_command ::
  "('w, 'k, 's, 'v, 'r) cli_env \<Rightarrow> string \<Rightarrow> ('v, 'r) schema_action \<Rightarrow> ('w, unit) cli_op" where
  "schema_command C addr Names = get_schema_names C addr"
| "schema_command C addr (Get schema_id version) = cli_get_schema C schema_id version addr"
| "schema_command C addr (GetTopic schema_id) = cli_get_schema_topic C schema_id addr"
| "schema_command C addr (GetQueryAddress schema_id) = cli_get_schema_query_address C schema_id addr"
| "schema_command C addr (GetSchemaType schema_id) = cli_get_schema_type C schema_id addr"
| "schema_command C addr (Versions schema_id) = cli_get_schema_versions C schema_id addr"
| "schema_command C addr (Add name topic query_address f schema_type) =
     cli_add_schema C name topic query_address f addr schema_type"
| "schema_command C addr (AddVersion schema_id version f) = cli_add_schema_version C schema_id version f addr"
| "schema_command C addr (SetName i name) = set_schema_name C i name addr"
| "schema_command C addr (SetTopic i topic) = set_schema_topic C i topic addr"
| "schema_command C addr (SetQueryAddress i query_address) = set_schema_query_address C i query_address addr"
| "schema_command C addr (SetSchemaType i schema_type) = set_schema_type C i schema_type addr"
| "schema_command C addr (Validate schema_id f) = cli_validate_value C schema_id f addr"

primrec view_command :: "('w, 'k, 's, 'v, 'r) cli_env \<Rightarrow> string \<Rightarrow> view_action \<Rightarrow> ('w, unit) cli_op" where
  "view_command C addr (ViewNames schema_id) = get_schema_views C schema_id addr"
| "view_command C addr (ViewGet i) = cli_get_view C i addr"
| "view_command C addr (ViewAdd schema_id name jmespath) = cli_add_view_to_schema C schema_id name jmespath addr"
| "view_command C addr (ViewUpdate i name jmespath) = cli_update_view C i name jmespath addr"

definition cli_main :: "('w, 'k, 's, 'v, 'r) cli_env \<Rightarrow> ('v, 'r) cli_args \<Rightarrow> ('w, unit) cli_op" where
  "cli_main C args =
     (case ca_action args of
        SchemaCommand action \<Rightarrow> schema_command C (ca_registry_addr args) action
      | ViewCommand action \<Rightarrow> view_command C (ca_registry_addr args) action)"

section \<open>Output\<close>

text \<open>
  \<open>silent\<close> operations print nothing; \<open>quiet\<close> ones print nothing when they fail.
\<close>

definition same_output :: "'w terminal \<Rightarrow> 'w terminal \<Rightarrow> bool" where
  "same_output t t' \<longleftrightarrow> tm_stdout t' = tm_stdout t \<and> tm_stderr t' = tm_stderr t"

definition silent_op :: "('w, 'a) cli_op \<Rightarrow> bool" where
  "silent_op m \<longleftrightarrow> (\<forall>t. same_output t (snd (m t)))"

definition quiet_op :: "('w, 'a) cli_op \<Rightarrow> bool" where
  "quiet_op m \<longleftrightarrow> (\<forall>t. case fst (m t) of Inl _ \<Rightarrow> same_output t (snd (m t)) | Inr _ \<Rightarrow> True)"

named_theorems output_rules

lemma same_output_refl [simp]: "same_output t t"
  by (simp add: same_output_def)

lemma same_output_trans: "same_output t u \<Longrightarrow> same_output u v \<Longrightarrow> same_output t v"
  by (simp add: same_output_def)

lemma silent_remote [output_rules]: "silent_op (remote show m)"
  by (auto simp: silent_op_def remote_def same_output_def split: prod.splits)

lemma silent_connect [output_rules]: "silent_op (cli_connect C addr)"
  unfolding cli_connect_def by (rule silent_remote)

lemma silent_call [output_rules]: "silent_op (cli_call m)"
  unfolding cli_call_def by (rule silent_remote)

lemma silent_lift [output_rules]: "silent_op (liftR r)" "silent_op (local_result q)"
  by (simp_all add: silent_op_def local_result_def)

lemma quiet_silent: "silent_op m \<Longrightarrow> quiet_op m"
  by (auto simp: silent_op_def quiet_op_def split: sum.splits)

lemma quiet_bind [output_rules]:
  assumes "silent_op m" and "\<And>x. quiet_op (f x)"
  shows "quiet_op (bindE m f)"
  unfolding quiet_op_def
proof
  fix t
  obtain r u where m: "m t = (r, u)" by fastforce
  with assms(1) have u: "same_output t u" by (metis silent_op_def snd_conv)
  show "case fst (bindE m f t) of Inl _ \<Rightarrow> same_output t (snd (bindE m f t)) | Inr _ \<Rightarrow> True"
  proof (cases r)
    case (Inl e)
    with m u show ?thesis by (simp add: bindE_def)
  next
    case (Inr x)
    with m have b: "bindE m f t = f x u" by simp
    from assms(2) [of x] have "case fst (f x u) of Inl _ \<Rightarrow> same_output u (snd (f x u)) | Inr _ \<Rightarrow> True"
      by (simp add: quiet_op_def)
    with u b show ?thesis by (auto split: sum.splits intro: same_output_trans)
  qed
qed

lemma forE_println: "forE xs (\<lambda>x. println (f x)) t = (Inr (), t\<lparr>tm_stdout := tm_stdout t @ map f xs\<rparr>)"
  by (induction xs arbitrary: t) (simp_all add: println_def thenE_def bindE_def)

lemma quiet_prints [output_rules]:
  "quiet_op (println x)" "quiet_op (forE xs (\<lambda>x. println (f x)))" "quiet_op (thenE (eprintln y) (thenE (eprintln z) (println x)))"
  "quiet_op (throwE e)" "quiet_op (forE kvs (\<lambda>(k, v). println (g k v)))"
proof -
  show "quiet_op (forE kvs (\<lambda>(k, v). println (g k v)))"
    by (simp add: quiet_op_def case_prod_unfold forE_println [where f = "\<lambda>p. g (fst p) (snd p)"])
qed (simp_all add: quiet_op_def println_def eprintln_def forE_println [unfolded println_def] thenE_def bindE_def)

lemma quiet_if [output_rules]: "quiet_op m \<Longrightarrow> quiet_op m' \<Longrightarrow> quiet_op (if b then m else m')"
  by simp

lemmas action_defs = cli_get_schema_def cli_add_schema_def cli_get_schema_versions_def cli_update_def
  set_schema_name_def set_schema_topic_def set_schema_query_address_def set_schema_type_def
  cli_add_schema_version_def get_schema_names_def cli_get_schema_topic_def cli_get_schema_query_address_def
  cli_get_schema_type_def cli_validate_value_def cli_get_view_def cli_add_view_to_schema_def
  cli_update_view_def get_schema_views_def

lemma quiet_main: "quiet_op (cli_main C args)"
proof (cases "ca_action args")
  case (SchemaCommand a)
  then show ?thesis
    by (cases a; simp add: cli_main_def action_defs; (intro output_rules quiet_silent)+)
next
  case (ViewCommand a)
  then show ?thesis
    by (cases a; simp add: cli_main_def action_defs; (intro output_rules quiet_silent)+)
qed

fun needs_json :: "('v, 'r) cli_action \<Rightarrow> string option option" where
  "needs_json (SchemaCommand (Add _ _ _ f _)) = Some f"
| "needs_json (SchemaCommand (AddVersion _ _ f)) = Some f"
| "needs_json (SchemaCommand (Validate _ f)) = Some f"
| "needs_json _ = None"

text \<open>
  An action that fails has printed nothing, on either output, so what is on the standard output
  is always the complete answer of an action that succeeded; and an action whose file cannot be
  opened or is not JSON has not even connected to the registry.
\<close>

theorem failed_action_prints_nothing:
  assumes "cli_main C args t = (Inl e, t')"
  shows "tm_stdout t' = tm_stdout t \<and> tm_stderr t' = tm_stderr t \<and>
    (case needs_json (ca_action args) of
       None \<Rightarrow> True
     | Some f \<Rightarrow> (case read_json C f of Inl e' \<Rightarrow> e = e' \<and> t' = t | Inr _ \<Rightarrow> True))"
proof -
  have "same_output t t'"
    using quiet_main [of C args] assms by (force simp: quiet_op_def dest: spec [of _ t])
  moreover have "case needs_json (ca_action args) of
       None \<Rightarrow> True
     | Some f \<Rightarrow> (case read_json C f of Inl e' \<Rightarrow> e = e' \<and> t' = t | Inr _ \<Rightarrow> True)"
    using assms
    by (cases "ca_action args" rule: needs_json.cases)
      (auto simp: cli_main_def cli_add_schema_def cli_add_schema_version_def cli_validate_value_def bindE_def
        split: sum.splits)
  ultimately show ?thesis by (simp add: same_output_def)
qed

section \<open>Against the registry\<close>

text \<open>An action that reads back what another action sets, and the line it is to print.\<close>

fun reads_back :: "('v, 'r) schema_action \<Rightarrow> (('v, 'r) schema_action \<times> string) option" where
  "reads_back (SetTopic i topic) = Some (GetTopic i, topic)"
| "reads_back (SetQueryAddress i query_address) = Some (GetQueryAddress i, query_address)"
| "reads_back (SetSchemaType i schema_type) = Some (GetSchemaType i, schema_type_to_string schema_type)"
| "reads_back _ = None"

lemma schema_type_text_roundtrip: "schema_type_from_value (JString (schema_type_to_string ty)) = Some ty"
  by (cases ty) (simp_all add: schema_type_from_str_def ok_def)

lemma direct_connect:
  "ce_registry C = direct_client E topics \<Longrightarrow> bindE (cli_connect C addr) f t = f () t"
  by (simp add: cli_connect_def remote_def sr_open_def rpc_connect_def direct_client_def map_errE_def map_err_def bindE_def)

lemma direct_connected: "ce_registry C = direct_client E topics \<Longrightarrow> cli_connect C addr t = (Inr (), t)"
  by (simp add: cli_connect_def remote_def sr_open_def rpc_connect_def direct_client_def map_errE_def map_err_def)

lemma cli_call_run:
  "cli_call (map_errE failure_text m) t =
     (case m (tm_world t) of (r, n) \<Rightarrow> (map_err (\<lambda>e. [failure_text e]) r, t\<lparr>tm_world := n\<rparr>))"
  by (auto simp: cli_call_def remote_def map_errE_def map_err_def split: prod.splits sum.splits)

lemma cli_call_Inr_iff:
  "cli_call (map_errE failure_text m) t = (Inr x, t') \<longleftrightarrow>
     (\<exists>n. m (tm_world t) = (Inr x, n) \<and> t' = t\<lparr>tm_world := n\<rparr>)"
  by (auto simp: cli_call_run map_err_def split: prod.splits sum.splits)

lemma if_some_simps [simp]: "if_some None f = returnE ()" "if_some (Some x) f = f x"
  by (simp_all add: if_some_def)

text \<open>What a successful update with one field does to the database.\<close>

lemma update_one_field:
  assumes "uuid_parse_str E u = Inr i"
  shows "rpc_update_schema_metadata E te ((no_update u)\<lparr>rmu_topic := Some topic\<rparr>) n = (Inr (), n') \<Longrightarrow>
      update_schema_topic E i topic (node_db n) = (Inr (), node_db n')"
    and "rpc_update_schema_metadata E te ((no_update u)\<lparr>rmu_address := Some address\<rparr>) n = (Inr (), n') \<Longrightarrow>
      update_schema_query_address E i address (node_db n) = (Inr (), node_db n')"
    and "rpc_update_schema_metadata E te ((no_update u)\<lparr>rmu_schema_type := Some (schema_type_to_i32 ty)\<rparr>) n = (Inr (), n') \<Longrightarrow>
      update_schema_type E i ty (node_db n) = (Inr (), node_db n')"
  using assms
  by (auto simp: no_update_def rpc_update_schema_metadata_def rpc_pure_def parse_uuid_def map_err_def bindE_Inr_iff
      thenE_Inr_iff rpc_db_Inr_iff dest!: replicate_keeps_db require_topic_keeps)

lemma rpc_by_id_yields:
  assumes "uuid_parse_str E u = Inr i" and "yields (getter i) (node_db n) (\<lambda>r. r = Inr v)"
  shows "case rpc_by_id E getter convert u n of
      (Inr x, _) \<Rightarrow> x = convert v
    | (Inl failure, _) \<Rightarrow> \<exists>d. db_failure d \<and> failure = Refused (status_of_error E d)"
  using assms
  by (cases "getter i (node_db n)")
    (auto simp: rpc_by_id_def rpc_pure_def parse_uuid_def map_err_def rpc_db_def yields_def bindE_def split: sum.splits)

lemma print_property:
  assumes "uuid_parse_str E u = Inr i" and "yields (getter i) (node_db (tm_world t)) (\<lambda>r. r = Inr v)"
  shows "case bindE (cli_call (map_errE failure_text (rpc_by_id E getter convert u))) (\<lambda>x. println (g x)) t of
      (Inl e, _) \<Rightarrow> \<exists>d. db_failure d \<and> e = [st_message (status_of_error E d)]
    | (Inr _, t') \<Rightarrow> tm_stdout t' = tm_stdout t @ [g (convert v)]"
  using rpc_by_id_yields [of E u i getter "tm_world t" v convert] assms
  by (auto simp: cli_call_run bindE_def println_def map_err_def split: prod.splits sum.splits)

lemma vertex_property_put:
  "i \<in> dom (vertices g) \<Longrightarrow> Option.bind (vertices (put_property i n j g) i) (\<lambda>(t, p). p n) = Some j"
  by (auto simp: put_property_def)

lemma within_limit_put: "within_limit g \<Longrightarrow> within_limit (put_property i n j g)"
  by (auto simp: within_limit_def put_property_def insert_absorb domI split: option.splits)

text \<open>A property of a schema reads back as it was written.\<close>

lemma property_reads_back:
  assumes env: "registry_env E \<alpha>" and lim: "within_limit (\<alpha> s)"
    and run: "update_schema_property E n i v s = (Inr (), s')" and f: "f (JString v) = Some x"
  shows "yields (get_schema_property E f n i) s' (\<lambda>r. r = Inr x)"
proof -
  from registry_env.update_schema_property_effect [OF env run _ lim] have i: "i \<in> dom (vertices (\<alpha> s))"
    and s': "\<alpha> s' = put_property i n (JString v) (\<alpha> s)"
    by (auto split: if_splits)
  from registry_env.yields_get_schema_property [OF env, of s' f n i] lim show ?thesis
    by (simp add: s' within_limit_put vertex_property_put [OF i] f ok_or_def)
qed

text \<open>
  C39. The topic, the query address or the type that was set with the tool is the one the tool
  prints afterwards, on a line of its own, unless the registry's database fails.
\<close>

theorem what_was_set_is_printed:
  assumes "registry_env E \<alpha>" and "within_limit (\<alpha> (node_db (tm_world t)))"
    and "ce_registry C = direct_client E topics" and "ce_crates C = E"
    and "\<And>i. uuid_parse_str E (uuid_to_string E i) = Inr i"
    and "reads_back a = Some (b, line)"
    and "cli_main C \<lparr>ca_registry_addr = addr, ca_action = SchemaCommand a\<rparr> t = (Inr (), t1)"
  shows "tm_stdout t1 = tm_stdout t \<and>
    (case cli_main C \<lparr>ca_registry_addr = addr', ca_action = SchemaCommand b\<rparr> t1 of
       (Inr _, t2) \<Rightarrow> tm_stdout t2 = tm_stdout t @ [line]
     | (Inl e, _) \<Rightarrow> \<exists>d. db_failure d \<and> e = [st_message (status_of_error E d)])"
proof -
  note client = direct_connect [OF assms(3)]
  have sr: "sr_update_schema_metadata (ce_registry C) k q = map_errE failure_text (rpc_update_schema_metadata E topics q)"
    "sr_get_schema_topic (ce_registry C) k u = map_errE failure_text (rpc_get_schema_topic E u)"
    "sr_get_schema_query_address (ce_registry C) k u = map_errE failure_text (rpc_get_schema_query_address E u)"
    "sr_get_schema_type (ce_registry C) k u = map_errE failure_text (rpc_get_schema_type E u)" for k q u
    by (simp_all add: assms(3) direct_client_def)
  note run = assms(7) [unfolded cli_main_def, simplified]
  show ?thesis
  proof (cases a)
    case (SetTopic i v)
    with run obtain n where n: "t1 = t\<lparr>tm_world := n\<rparr>" "update_schema_topic E i v (node_db (tm_world t)) = (Inr (), node_db n)"
      by (auto simp: set_schema_topic_def cli_update_def client sr cli_call_Inr_iff assms(4)
          dest: update_one_field(1) [OF assms(5)])
    have "yields (get_schema_topic E i) (node_db (tm_world t1)) (\<lambda>r. r = Inr v)"
      using property_reads_back [OF assms(1,2) n(2) [unfolded update_schema_topic_def], of as_str v] n(1)
      by (simp add: get_schema_topic_def)
    from print_property [where getter = "get_schema_topic E" and convert = "\<lambda>x. x" and g = "\<lambda>x. x", OF assms(5) this] show ?thesis
      using SetTopic assms(6) n(1)
      by (auto simp: cli_main_def cli_get_schema_topic_def client sr assms(4) rpc_get_schema_topic_def split: sum.splits prod.splits)
  next
    case (SetQueryAddress i v)
    with run obtain n where n: "t1 = t\<lparr>tm_world := n\<rparr>"
      "update_schema_query_address E i v (node_db (tm_world t)) = (Inr (), node_db n)"
      by (auto simp: set_schema_query_address_def cli_update_def client sr cli_call_Inr_iff assms(4)
          dest: update_one_field(2) [OF assms(5)])
    have "yields (get_schema_query_address E i) (node_db (tm_world t1)) (\<lambda>r. r = Inr v)"
      using property_reads_back [OF assms(1,2) n(2) [unfolded update_schema_query_address_def], of as_str v] n(1)
      by (simp add: get_schema_query_address_def)
    from print_property [where getter = "get_schema_query_address E" and convert = "\<lambda>x. x" and g = "\<lambda>x. x", OF assms(5) this] show ?thesis
      using SetQueryAddress assms(6) n(1)
      by (auto simp: cli_main_def cli_get_schema_query_address_def client sr assms(4) rpc_get_schema_query_address_def split: sum.splits prod.splits)
  next
    case (SetSchemaType i ty)
    with run obtain n where n: "t1 = t\<lparr>tm_world := n\<rparr>" "update_schema_type E i ty (node_db (tm_world t)) = (Inr (), node_db n)"
      by (auto simp: set_schema_type_def cli_update_def client sr cli_call_Inr_iff assms(4)
          dest: update_one_field(3) [OF assms(5)])
    have "yields (get_schema_type E i) (node_db (tm_world t1)) (\<lambda>r. r = Inr ty)"
      using property_reads_back [OF assms(1,2) n(2) [unfolded update_schema_type_def], of schema_type_from_value ty] n(1)
      by (simp add: get_schema_type_def schema_type_text_roundtrip del: schema_type_from_value.simps)
    from print_property [where getter = "get_schema_type E" and convert = "schema_type_to_i32" and g = "\<lambda>x. schema_type_to_string (schema_type_getter x)", OF assms(5) this]
    show ?thesis
      using SetSchemaType assms(6) n(1)
      by (auto simp: cli_main_def cli_get_schema_type_def client sr assms(4) rpc_get_schema_type_def split: sum.splits prod.splits)
  qed (use assms(6) in auto)
qed

lemma local_result_Inr_iff: "local_result r t = (Inr x, t') \<longleftrightarrow> r = Inr x \<and> t' = t"
  by (cases r) (auto simp: local_result_def map_err_def)

lemma set_insert_version [simp]: "set (insert_version le x xs) = insert x (set xs)"
  by (induction xs) auto

lemma set_sort_versions: "set (sort_versions le xs) = set xs"
  by (induction xs) (simp_all add: sort_versions_def)

lemma sorted_sort_versions:
  assumes total: "\<And>a b. le a b \<or> le b a" and trans: "\<And>a b c. le a b \<Longrightarrow> le b c \<Longrightarrow> le a c"
  shows "sorted_wrt le (sort_versions le xs)"
proof -
  have insert: "sorted_wrt le ys \<Longrightarrow> sorted_wrt le (insert_version le x ys)" for x ys
  proof (induction ys)
    case (Cons y ys)
    then show ?case using total [of x y] by (auto intro: trans)
  qed simp
  show ?thesis by (induction xs) (simp_all add: sort_versions_def insert)
qed

lemma collectR_parse_back: "(\<And>x. x \<in> set xs \<Longrightarrow> f (g x) = Inr (h x)) \<Longrightarrow> collectR (map f (map g xs)) = Inr (map h xs)"
  by (induction xs) auto

text \<open>
  C40. The versions of a schema are printed in ascending order, one on each line: exactly the
  versions that the registry has stored for it, if the text of each stored version reads back.
\<close>

theorem versions_are_printed_in_order:
  assumes "registry_env E \<alpha>" and "reachable E \<alpha> (node_db (tm_world t))" and "within_limit (\<alpha> (node_db (tm_world t)))"
    and "ce_registry C = direct_client E topics" and "ce_crates C = E"
    and "\<And>i. uuid_parse_str E (uuid_to_string E i) = Inr i"
    and "\<forall>v \<in> fst ` versions_at E (\<alpha> (node_db (tm_world t))) i. version_parse E (version_to_string E v) = Inr v"
    and "cli_main C \<lparr>ca_registry_addr = addr, ca_action = SchemaCommand (Versions i)\<rparr> t = (Inr (), t')"
  shows "\<exists>vs. tm_stdout t' = tm_stdout t @ map (version_to_string E) vs \<and> sorted_wrt (version_le E) vs \<and>
    set vs = fst ` versions_at E (\<alpha> (node_db (tm_world t))) i"
proof -
  have sr: "sr_get_schema_versions (ce_registry C) k u = map_errE failure_text (rpc_get_schema_versions E u)" for k u
    by (simp add: assms(4) direct_client_def)
  from assms(8) obtain reply n parsed where
    reply: "rpc_get_schema_versions E (uuid_to_string E i) (tm_world t) = (Inr reply, n)"
    and parsed: "collectR (map (version_parse E) reply) = Inr parsed"
    and printed: "forE (sort_versions (version_le E) parsed) (\<lambda>v. println (version_to_string E v)) (t\<lparr>tm_world := n\<rparr>) = (Inr (), t')"
    by (auto simp: cli_main_def cli_get_schema_versions_def direct_connect [OF assms(4)] sr bindE_Inr_iff cli_call_Inr_iff
        local_result_Inr_iff assms(5))
  from reply obtain vs s where vs: "get_schema_versions E i (node_db (tm_world t)) = (Inr vs, s)"
    and texts: "reply = map (\<lambda>(v, d). version_to_string E v) vs"
    by (auto simp: rpc_get_schema_versions_def rpc_by_id_def rpc_pure_def parse_uuid_def map_err_def bindE_Inr_iff
        rpc_db_Inr_iff assms(6))
  have "versions_ok E (\<alpha> (node_db (tm_world t))) i"
    by (rule registry_ok_versions [OF registry_env.reachable_ok [OF assms(1,2)]])
  from registry_env.yields_get_schema_versions [OF assms(1,3) this, THEN yieldsD, OF vs]
  have set_vs: "set vs = versions_at E (\<alpha> (node_db (tm_world t))) i" by simp
  have "collectR (map (version_parse E) (map (\<lambda>(v, d). version_to_string E v) vs)) = Inr (map fst vs)"
    by (rule collectR_parse_back) (use assms(7) set_vs in auto)
  with parsed texts have "parsed = map fst vs" by simp
  moreover have "sorted_wrt (version_le E) (sort_versions (version_le E) parsed)"
    by (rule sorted_sort_versions)
      (use registry_env.version_total [OF assms(1)] registry_env.version_trans [OF assms(1)] in blast)+
  ultimately show ?thesis
    using printed set_vs
    by (intro exI [of _ "sort_versions (version_le E) parsed"]) (auto simp: forE_println set_sort_versions)
qed

section \<open>Concrete runs\<close>

definition demo_cli :: "((mem, triple) node, unit, mem, triple, triple option) cli_env" where
  "demo_cli =
     \<lparr>ce_registry = direct_client demo_env (\<lambda>topic. Inr True), ce_crates = demo_env,
      ce_open = (\<lambda>f. if f = ''schema.json'' then Inr ''{}'' else Inl ''not found''), ce_stdin = [],
      ce_pretty = (\<lambda>j. ''{}'')\<rparr>"

definition demo_terminal :: "mem \<Rightarrow> (mem, triple) node terminal" where
  "demo_terminal s = \<lparr>tm_world = \<lparr>node_db = s, node_repl = replication_state_new, node_poisoned = False\<rparr>,
     tm_stdout = [], tm_stderr = []\<rparr>"

theorem failed_action_prints_nothing_witness:
  "cli_main demo_cli \<lparr>ca_registry_addr = ''registry'', ca_action = SchemaCommand (Validate 65 (Some ''missing.json''))\<rparr>
     (demo_terminal demo_s1) = (Inl [''Couldn't open file'', ''not found''], demo_terminal demo_s1)"
proof -
  let ?a = "\<lparr>ca_registry_addr = ''registry'', ca_action = SchemaCommand (Validate 65 (Some ''missing.json''))\<rparr>"
  have r: "read_json demo_cli (Some ''missing.json'') = Inl [''Couldn't open file'', ''not found'']"
    by (simp add: read_json_def demo_cli_def map_err_def bindR_def)
  then obtain e t' where run: "cli_main demo_cli ?a (demo_terminal demo_s1) = (Inl e, t')"
    by (auto simp: cli_main_def cli_validate_value_def bindE_def)
  from failed_action_prints_nothing [OF run] r run show ?thesis by simp
qed

lemma demo_cli_registry: "ce_registry demo_cli = direct_client demo_env (\<lambda>topic. Inr True)" "ce_crates demo_cli = demo_env"
  by (simp_all add: demo_cli_def)

lemma demo_ids: "uuid_parse_str demo_env (uuid_to_string demo_env i) = Inr i"
  by (simp add: demo_env_def char_id_id_char)

lemma demo_ids' [simp]: "char_id (uuid_to_string demo_env i) = Inr i"
  using demo_ids by simp

lemma demo_rpc_set_topic:
  assumes "update_schema_topic demo_env 65 ''new'' (node_db n) = (Inr (), s)" and "\<not> node_poisoned n"
  shows "\<exists>n'. rpc_update_schema_metadata demo_env (\<lambda>topic. Inr True)
    ((no_update (uuid_to_string demo_env 65))\<lparr>rmu_topic := Some ''new''\<rparr>) n = (Inr (), n')"
  using assms
  by (simp add: rpc_update_schema_metadata_def no_update_def rpc_pure_def parse_uuid_def map_err_def
      require_topic_def rpc_db_def bindE_def thenE_def rpc_replicate_message_def lock_replication_def)

lemma demo_set_topic:
  "\<exists>t1. cli_main demo_cli \<lparr>ca_registry_addr = ''registry'', ca_action = SchemaCommand (SetTopic 65 ''new'')\<rparr>
     (demo_terminal demo_s1) = (Inr (), t1)"
proof -
  have "\<exists>s. update_schema_topic demo_env 65 ''new'' demo_s1 = (Inr (), s)"
    by (simp add: update_schema_topic_def update_schema_property_def set_vertex_properties_def demo_s1_def run_ops
        cong: run_congs)
  then obtain s where "update_schema_topic demo_env 65 ''new'' (node_db (tm_world (demo_terminal demo_s1))) = (Inr (), s)"
    by (auto simp: demo_terminal_def)
  from demo_rpc_set_topic [OF this] show ?thesis
    by (auto simp: cli_main_def set_schema_topic_def cli_update_def direct_connect [OF demo_cli_registry(1)]
        demo_cli_registry cli_call_Inr_iff demo_terminal_def direct_client_def)
qed

theorem what_was_set_is_printed_witness:
  "\<exists>t1. cli_main demo_cli \<lparr>ca_registry_addr = ''registry'', ca_action = SchemaCommand (SetTopic 65 ''new'')\<rparr>
       (demo_terminal demo_s1) = (Inr (), t1) \<and>
     (case cli_main demo_cli \<lparr>ca_registry_addr = ''registry'', ca_action = SchemaCommand (GetTopic 65)\<rparr> t1 of
        (Inr _, t2) \<Rightarrow> tm_stdout t2 = [''new'']
      | (Inl e, _) \<Rightarrow> \<exists>d. db_failure d \<and> e = [st_message (status_of_error demo_env d)])"
proof -
  obtain t1 where run: "cli_main demo_cli \<lparr>ca_registry_addr = ''registry'', ca_action = SchemaCommand (SetTopic 65 ''new'')\<rparr>
       (demo_terminal demo_s1) = (Inr (), t1)" using demo_set_topic by blast
  have lim: "within_limit (mem_graph (node_db (tm_world (demo_terminal demo_s1))))"
    using demo_limits(2) by (simp add: demo_terminal_def)
  have reads: "reads_back (SetTopic 65 ''new'') = Some (GetTopic 65, ''new'')" by simp
  have "tm_stdout (demo_terminal demo_s1) = []" by (simp add: demo_terminal_def)
  with what_was_set_is_printed [OF demo_registry lim demo_cli_registry demo_ids reads run, of "''registry''"] run
  show ?thesis by (auto split: sum.splits)
qed

theorem versions_are_printed_in_order_witness:
  "\<exists>vs t'. cli_main demo_cli \<lparr>ca_registry_addr = ''registry'', ca_action = SchemaCommand (Versions 65)\<rparr>
       (demo_terminal demo_s2) = (Inr (), t') \<and> tm_stdout t' = map (version_to_string demo_env) vs \<and>
     sorted_wrt triple_le vs \<and> set vs = {(1, 0, 0), (2, 0, 0)}"
proof -
  let ?t = "demo_terminal demo_s2"
  have reply: "get_schema_versions demo_env 65 demo_s2 = (Inr [((2, 0, 0), 1), ((1, 0, 0), 0)], demo_s2)"
    by (simp add: demo_s1_def demo_s2_def demo_schema_def demo_version_def run_ops cong: run_congs)
  have parse: "version_parse demo_env ''1.0.0'' = Inr (1, 0, 0)" "version_parse demo_env ''2.0.0'' = Inr (2, 0, 0)"
    and texts: "version_to_string demo_env (1, 0, 0) = ''1.0.0''" "version_to_string demo_env (2, 0, 0) = ''2.0.0''"
    by (simp_all add: demo_env_def)
  have "rpc_get_schema_versions demo_env (uuid_to_string demo_env 65) (tm_world ?t) = (Inr [''2.0.0'', ''1.0.0''], tm_world ?t)"
    by (simp add: rpc_get_schema_versions_def rpc_by_id_def rpc_pure_def parse_uuid_def map_err_def rpc_db_def
        demo_terminal_def reply bindE_def texts)
  then have "\<exists>t'. cli_main demo_cli \<lparr>ca_registry_addr = ''registry'', ca_action = SchemaCommand (Versions 65)\<rparr> ?t = (Inr (), t')"
    by (simp add: cli_main_def cli_get_schema_versions_def direct_connected [OF demo_cli_registry(1)]
        demo_cli_registry direct_client_def cli_call_run map_err_def local_result_def parse bindE_def forE_println)
  then obtain t' where run: "cli_main demo_cli \<lparr>ca_registry_addr = ''registry'', ca_action = SchemaCommand (Versions 65)\<rparr> ?t =
      (Inr (), t')" ..
  have ok: "versions_ok demo_env (mem_graph demo_s2) 65"
    by (rule registry_ok_versions [OF registry_env.reachable_ok [OF demo_registry demo_reachable(3)]])
  have at: "versions_at demo_env (mem_graph demo_s2) 65 = {((2, 0, 0), 1), ((1, 0, 0), 0)}"
    using registry_env.yields_get_schema_versions [OF demo_registry demo_limits(3) ok, THEN yieldsD, OF reply] by simp
  have db: "node_db (tm_world ?t) = demo_s2" "tm_stdout ?t = []" by (simp_all add: demo_terminal_def)
  have reads: "\<forall>v \<in> fst ` versions_at demo_env (mem_graph (node_db (tm_world ?t))) 65.
      version_parse demo_env (version_to_string demo_env v) = Inr v"
    by (auto simp: db at parse texts)
  have start: "reachable demo_env mem_graph (node_db (tm_world ?t))" "within_limit (mem_graph (node_db (tm_world ?t)))"
    using demo_reachable(3) demo_limits(3) by (simp_all add: db)
  from versions_are_printed_in_order [OF demo_registry start demo_cli_registry demo_ids reads run] run
  show ?thesis by (auto simp: db at)
qed

end
