(* ===== verification/Spec2Isabelle.thy ===== *)
theory Spec2Isabelle
  imports Registry_Props Registry_Export Registry_Startup Service_Mains Data_Flow Registry_Service Router_Props
    Command_Props Query_Router Document_Props Query_Service_Ts Leader_Elector Api_Props Cdl_Cli
begin

text \<open>
  A model of the Common Data Layer, the Rust workspace under \<open>src/crates\<close>, with its correctness
  properties.

  \<^bold>\<open>The program.\<close> The layer stores documents and time series under schemas. A message for an object
  enters the \<^emph>\<open>data router\<close> through Kafka or RabbitMQ; the router asks the \<^emph>\<open>schema registry\<close> for the
  topic of the message's schema, keeps the answer in a cache, stamps the message and publishes it to
  that topic. A \<^emph>\<open>command service\<close> reads the topic (or takes the message by gRPC), hands it to its
  one output plugin (PostgreSQL, Druid, Victoria Metrics), reports the outcome and acknowledges the
  message. Readers ask the \<^emph>\<open>query router\<close>, which asks the registry for the query address of a schema
  and forwards to a \<^emph>\<open>document query service\<close> (PostgreSQL) or a \<^emph>\<open>time-series query service\<close>. A
  \<^emph>\<open>shrinker\<close> run by a scheduler merges the versions of a document. The registry is a graph database
  with a gRPC service and a replication task; a \<^emph>\<open>leader elector\<close> promotes a slave when the master is
  silent. A GraphQL \<^emph>\<open>API\<close> and a \<^emph>\<open>command line tool\<close> are its clients.

  \<^bold>\<open>How code becomes definitions.\<close> A method that may fail is an operation of the type \<open>op\<close> (theory
  \<open>Prelude\<close>): from a state to a result and the state it leaves, also on failure, because the question
  mark operator keeps the writes already made. Structs are records, enums datatypes, machine integers
  words read through \<open>sint\<close> or \<open>unat\<close>, strings lists of bytes. A panic, an abort of the process and a
  call that never returns are outcomes of their own. Shared mutable state (mutexes, channels, tasks)
  is a record that a step relation changes, one step per await point, so that a property of the
  reachable states holds for every interleaving. Third-party code (IndraDB, rdkafka, lapin, tonic,
  serde text, semver, jsonschema, jmespath, PostgreSQL, reqwest, Kubernetes, juniper) is a record of
  functions that the definitions take; what is relied on is a locale, met by a concrete instance.

  \<^bold>\<open>The theories, by part of the program.\<close>
  \<^item> \<open>Prelude\<close>: operations, results, iterator idioms, JSON values, text; the collections \<open>op_defs\<close> and
    \<open>pres\<close>.
  \<^item> \<open>Ack_Queue\<close>: \<open>utils/src/messaging_system/kafka_ack_queue.rs\<close>. \<open>ack\<close> walks a cyclic cursor, hence
    \<open>partial_function (option)\<close>: \<open>None\<close> is the endless loop; \<open>ack_returns\<close> says when it returns.
  \<^item> \<open>Task_Queue\<close>: \<open>parallel_task_queue.rs\<close> and \<open>task_limiter.rs\<close>, with the tasks as a step relation.
  \<^item> \<open>Messaging\<close>: the rest of \<open>utils/src/messaging_system\<close>, the message types and small helpers;
    \<open>Status_Endpoints\<close>: \<open>status_endpoints.rs\<close>; \<open>Rpc_Client\<close>: the hand-written part of the crate rpc;
    \<open>Lru_Cache\<close>: the contract of the cache crate and the read-through both routers build on it.
  \<^item> Schema registry. \<open>Datastore\<close>: the graph database as a record of calls, with the locale
    \<open>graph_datastore\<close>; \<open>Mem_Datastore\<close>: an in-memory instance of it. \<open>Registry_Types\<close>: \<open>types.rs\<close>,
    \<open>types/storage\<close> and \<open>error.rs\<close>, with a codec locale for vertices and one for edges.
    \<open>Registry_Db\<close>: every method of \<open>db.rs\<close> and \<open>schema.rs\<close>. \<open>Registry_Laws\<close> and \<open>Registry_Spec\<close>: what
    each method does to the abstract graph; \<open>Registry_Invariant\<close>: the well-formedness \<open>registry_ok\<close>
    (typed vertices, typed edge ends, decodable versions) kept by each; \<open>Registry_Machine\<close> and
    \<open>Registry_Props\<close>: the reachable states and their properties; \<open>Registry_Export\<close>: exporting and
    importing. \<open>Registry_Replication\<close>: \<open>replication/*.rs\<close>; \<open>Registry_Rpc\<close> and \<open>Registry_Service\<close>: the
    gRPC methods of \<open>rpc.rs\<close> and the client functions of \<open>lib.rs\<close>; \<open>Registry_Startup\<close>: \<open>main.rs\<close> with
    the connections of the node and of its replication tasks. \<open>Registry_Client\<close>: the calls of a
    client; \<open>Demo_Env\<close>: the sample environment in which runs are evaluated.
  \<^item> \<open>Data_Router\<close> and \<open>Router_Props\<close>: the data router, message by message and as a task machine.
  \<^item> \<open>Command_Service\<close>, \<open>Output_Plugins\<close>, \<open>Command_Props\<close>: router, inputs, reports, the three plugins;
    the locale \<open>storing_plugin\<close> is what an acknowledgement relies on.
  \<^item> \<open>Document_Table\<close>: the SQL table the document services share, with the meaning of their statements;
    \<open>Query_Service\<close> and \<open>Db_Shrinker\<close>: its reader and the shrinker; \<open>Document_Props\<close>: what is read
    after what was written. \<open>Query_Service_Ts\<close>: Victoria Metrics and Druid queries.
  \<^item> \<open>Query_Router\<close>, \<open>Leader_Elector\<close>, \<open>Graphql_Api\<close>, \<open>Api_Events\<close>, \<open>Api_Props\<close>, \<open>Cdl_Cli\<close>: one crate
    each (the API has three). \<open>Service_Mains\<close>: the entry points that choose a service.
  \<^item> \<open>Data_Flow\<close>: the composition of data router, command service and query service, and of the registry
    with the data router.

  \<^bold>\<open>What is shown.\<close>
  \<^item> Storage and delivery: a message is acknowledged only after it was stored (or its failure
    reported); offsets are stored for acknowledged prefixes only; a multimessage is routed entry by
    entry, in order; a stored document is the one that is read, end to end, and a
    message goes to the topic its schema was added with.
  \<^item> The registry: every reachable state is well-formed, readers are total on it, versions grow
    strictly, lookups give the greatest matching version, refused calls change nothing, exports are
    faithful and a node can start from the export of another. Replication keeps at most one live
    task, and a write is replicated exactly when it succeeded.
  \<^item> Concurrency: one permit per key, handed over in order, and progress of the waiting; the task
    limit; no message of the router's main loop is lost; event streams; leader election with at most
    one master and its failover.
  \<^item> Refinement and equivalence: SQL selections against the newest document of each object,
    shrinking step by step against shrinking once, JSON merging against a lookup specification.
  \<^item> Round trips: line protocol, schemas through the API, settings through the command line tool.
  Several properties state behaviour that the code should not have (a master that publishes nothing,
  labels that never match, a closed topic that stays silent): they are proved of the code as it is.
  Facts of lesser weight are theorems of the component theories without a claim number.

  \<^bold>\<open>Bounds and fuel.\<close> No definition uses fuel: recursion is structural or has a measure, and the two
  loops that may not end are partial functions over \<open>option\<close> with theorems saying when they do. The
  registry passes \<open>u32::MAX\<close> as the limit of every query; \<open>within_limit\<close> says that a graph has no more
  vertices and edges than that, and properties that read a whole graph assume it. A datastore or a
  database may fail at any call; a property then speaks of outcomes other than that failure.

  \<^bold>\<open>Not modelled.\<close> Third-party crates, as said above; the metrics counters, which nothing depends on;
  logging; the parsing of command lines and environments; the gRPC, HTTP and websocket servers that
  call the modelled handlers, and the pages and CORS rules of the API server; generated gRPC code; the
  load generators under \<open>benchmarking\<close>; timeouts, which are part of the answers of the clients that
  have them. A replication task of a node is not interleaved with its own start.
\<close>

end
